theory Spec2Isabelle
  imports Main
begin

section \<open>Strings as the JavaScript code uses them\<close>

text \<open>
  Strings are lists of 8-bit characters (the Latin-1 range of JavaScript's UTF-16 code
  units; MAC and IP addresses are ASCII text). \<open>null\<close> is \<open>None\<close> of an option type.
\<close>

definition toLowerCase_char :: "char \<Rightarrow> char" where
  "toLowerCase_char c =
     (let n = (of_char c :: nat)
      in if (65 \<le> n \<and> n \<le> 90) \<or> (192 \<le> n \<and> n \<le> 222 \<and> n \<noteq> 215)
         then char_of (n + 32) else c)"

text \<open>
  \<open>toUpperCase\<close> of one 8-bit character: the sharp s (223) becomes \<open>SS\<close>; the micro sign
  (181) and the y with diaeresis (255) become characters outside the 8-bit range, which
  is \<open>None\<close> here.
\<close>

definition toUpperCase_char :: "char \<Rightarrow> string option" where
  "toUpperCase_char c =
     (let n = (of_char c :: nat)
      in if n = 223 then Some ''SS''
         else if n = 181 \<or> n = 255 then None
         else if (97 \<le> n \<and> n \<le> 122) \<or> (224 \<le> n \<and> n \<le> 254 \<and> n \<noteq> 247)
         then Some [char_of (n - 32)] else Some [c])"

definition toLowerCase :: "string \<Rightarrow> string" where
  "toLowerCase s = map toLowerCase_char s"

primrec toUpperCase :: "string \<Rightarrow> string option" where
  "toUpperCase [] = Some []"
| "toUpperCase (c # cs) =
     (case toUpperCase_char c of
        None \<Rightarrow> None
      | Some u \<Rightarrow> map_option (\<lambda>rest. u @ rest) (toUpperCase cs))"

text \<open>\<open>mac.replace(/[:-]/g, '')\<close>: every colon and hyphen is deleted.\<close>

definition strip_separators :: "string \<Rightarrow> string" where
  "strip_separators s = filter (\<lambda>c. c \<noteq> CHR '':'' \<and> c \<noteq> CHR ''-'') s"

text \<open>
  The regular expression \<open>.\<close> matches every character but a line terminator
  (line feed and carriage return, in the 8-bit range).
\<close>

definition dot_matches :: "char \<Rightarrow> bool" where
  "dot_matches c \<longleftrightarrow> c \<noteq> CHR 0x0A \<and> c \<noteq> CHR 0x0D"

text \<open>
  \<open>clean.match(/.{2}/g)\<close>: the successive non-overlapping matches of two characters,
  scanning from the left; after a failed attempt the scan moves one character on.
  JavaScript returns \<open>null\<close> where the list is empty.
\<close>

fun match_pairs :: "string \<Rightarrow> string list" where
  "match_pairs (a # b # cs) =
     (if dot_matches a \<and> dot_matches b then [a, b] # match_pairs cs
      else match_pairs (b # cs))"
| "match_pairs _ = []"

fun join :: "string \<Rightarrow> string list \<Rightarrow> string" where
  "join sep [] = []"
| "join sep [x] = x"
| "join sep (x # y # ys) = x @ sep @ join sep (y # ys)"

text \<open>A number inside a template string: its decimal digits.\<close>

fun decimal :: "nat \<Rightarrow> string" where
  "decimal n =
     (if n < 10 then [char_of (48 + n)]
      else decimal (n div 10) @ [char_of (48 + n mod 10)])"

declare decimal.simps [simp del]

section \<open>The three MAC normalisers\<close>

text \<open>What a normaliser gives back: a thrown \<open>TypeError\<close>, \<open>null\<close>, or a string.\<close>

datatype js_mac = TypeError | Null | Str string

text \<open>
  In each of them \<open>!mac\<close> holds of \<open>null\<close> and of the empty string, and
  \<open>clean\<close> is the argument without separators, in lower case.
\<close>

definition clean_mac :: "string \<Rightarrow> string" where
  "clean_mac m = toLowerCase (strip_separators m)"

text \<open>Auth service, \<open>normalizeMacAddress\<close>; \<open>x || d\<close> is \<open>d\<close> for \<open>undefined\<close> and for the empty string.\<close>

definition normalizeMacAddress :: "string option \<Rightarrow> string" where
  "normalizeMacAddress mac =
     (case mac of
        None \<Rightarrow> ''00:00:00:00:00:00''
      | Some m \<Rightarrow>
          if m = [] then ''00:00:00:00:00:00''
          else (case match_pairs (clean_mac m) of
                  [] \<Rightarrow> ''00:00:00:00:00:00''
                | p # ps \<Rightarrow> (if join '':'' (p # ps) = [] then ''00:00:00:00:00:00''
                              else join '':'' (p # ps))))"

text \<open>Binding service, \<open>normalizeMac\<close>; \<open>null.join\<close> throws.\<close>

definition normalizeMac :: "string option \<Rightarrow> js_mac" where
  "normalizeMac mac =
     (case mac of
        None \<Rightarrow> Null
      | Some m \<Rightarrow>
          if m = [] then Null
          else if length (clean_mac m) \<noteq> 12 then Str (toLowerCase m)
          else (case match_pairs (clean_mac m) of
                  [] \<Rightarrow> TypeError
                | p # ps \<Rightarrow> Str (join '':'' (p # ps))))"

text \<open>Shared helpers, \<open>normalizeMac\<close>.\<close>

definition helpers_normalizeMac :: "string option \<Rightarrow> js_mac" where
  "helpers_normalizeMac mac =
     (case mac of
        None \<Rightarrow> Null
      | Some m \<Rightarrow>
          if m = [] then Null
          else if length (clean_mac m) \<noteq> 12 then Null
          else (case match_pairs (clean_mac m) of
                  [] \<Rightarrow> TypeError
                | p # ps \<Rightarrow> Str (join '':'' (p # ps))))"

section \<open>The persistent store\<close>

text \<open>
  The SQLite tables of \<open>database.service.js\<close>, each a list of rows in rowid order,
  with the columns the operations below read or write. An instant is the number of
  milliseconds since the epoch; the ISO-8601 texts the code stores and compares are
  ordered as these numbers are. \<open>is_active\<close> only ever holds 0 or 1.
\<close>

type_synonym time = int

record session =
  s_id :: nat
  s_session_token :: string
  s_user_id :: "nat option"
  s_voucher_id :: "nat option"
  s_device_id :: nat
  s_mac_address :: string
  s_ip_address :: string
  s_auth_method :: string
  s_expires_at :: time
  s_is_active :: bool
  s_firewall_applied :: bool

record binding =
  b_id :: nat
  b_mac_address :: string
  b_ip_address :: string
  b_session_id :: "nat option"
  b_expires_at :: "time option"
  b_is_active :: bool

record firewall_rule =
  r_id :: nat
  r_rule_type :: string
  r_rule_action :: string
  r_rule_command :: string
  r_session_id :: nat
  r_mac_address :: string
  r_ip_address :: string
  r_is_active :: bool
  r_is_simulated :: bool

record device =
  d_id :: nat
  d_mac_address :: string
  d_is_blocked :: bool
  d_total_sessions :: nat

record voucher =
  v_id :: nat
  v_code :: string
  v_duration_hours :: int
  v_max_devices :: nat
  v_expires_at :: "time option"
  v_used_at :: "time option"
  v_used_by_device :: "string option"
  v_is_active :: bool

record user =
  u_id :: nat
  u_username :: string
  u_password_hash :: string
  u_is_active :: bool

record event_log =
  ev_category :: string
  ev_type :: string
  ev_severity :: string
  ev_mac_address :: "string option"
  ev_ip_address :: "string option"
  ev_user_id :: "nat option"
  ev_session_id :: "nat option"
  ev_details :: "(string \<times> string) list"

text \<open>
  What the packet-filter side sees, in order: a command handed to the enforcer
  (\<open>executeCommand\<close>, in either mode) and a row written to the rule ledger
  (\<open>storeRule\<close>).
\<close>

datatype action = EnforcerCommand string | LedgerInsert string

record state =
  sessions :: "session list"
  mac_ip_bindings :: "binding list"
  firewall_rules :: "firewall_rule list"
  devices :: "device list"
  vouchers :: "voucher list"
  users :: "user list"
  event_logs :: "event_log list"
  seq_sessions :: nat
  seq_bindings :: nat
  seq_rules :: nat
  seq_devices :: nat
  trace :: "action list"

text \<open>
  \<open>firewall.config.js\<close> and \<open>app.config.js\<close>, as far as the operations read them; the
  numbers are kept as the text a template string prints. \<open>host\<close> is the answer of the
  operating system to a command in production mode, given everything issued before;
  \<open>bcrypt_compare\<close> is the password check.
\<close>

record config =
  mode :: string
  bridge :: string
  lan :: string
  portalIp :: string
  gateway :: string
  portal_port :: string
  gateway_mac :: string
  durationHours :: int
  maxDevicesPerUser :: nat
  host :: "action list \<Rightarrow> string \<Rightarrow> bool"
  bcrypt_compare :: "string \<Rightarrow> string \<Rightarrow> bool"

definition cleanup_intervalMs :: int where
  "cleanup_intervalMs = 60000"

definition cleanup_graceperiodMs :: int where
  "cleanup_graceperiodMs = 5000"

definition session_exists :: "state \<Rightarrow> nat \<Rightarrow> bool" where
  "session_exists s sid \<longleftrightarrow> sid \<in> set (map s_id (sessions s))"

definition user_exists :: "state \<Rightarrow> nat \<Rightarrow> bool" where
  "user_exists s uid \<longleftrightarrow> uid \<in> set (map u_id (users s))"

definition voucher_exists :: "state \<Rightarrow> nat \<Rightarrow> bool" where
  "voucher_exists s vid \<longleftrightarrow> vid \<in> set (map v_id (vouchers s))"

definition device_exists :: "state \<Rightarrow> nat \<Rightarrow> bool" where
  "device_exists s did \<longleftrightarrow> did \<in> set (map d_id (devices s))"

text \<open>
  What \<open>INSERT INTO sessions\<close> checks: \<open>session_token\<close> is \<open>UNIQUE\<close>, and the user, the
  voucher and the device are foreign keys (\<open>PRAGMA foreign_keys = ON\<close>).
\<close>

definition session_insertable ::
  "state \<Rightarrow> string \<Rightarrow> nat option \<Rightarrow> nat option \<Rightarrow> nat \<Rightarrow> bool" where
  "session_insertable s sessionToken userId voucherId deviceId \<longleftrightarrow>
     sessionToken \<notin> set (map s_session_token (sessions s)) \<and>
     (case userId of None \<Rightarrow> True | Some u \<Rightarrow> user_exists s u) \<and>
     (case voucherId of None \<Rightarrow> True | Some v \<Rightarrow> voucher_exists s v) \<and>
     device_exists s deviceId"

section \<open>Logging service\<close>

text \<open>\<open>x || null\<close> on a string and on a number.\<close>

definition or_null_str :: "string option \<Rightarrow> string option" where
  "or_null_str x = (case x of None \<Rightarrow> None | Some v \<Rightarrow> if v = [] then None else Some v)"

definition or_null_nat :: "nat option \<Rightarrow> nat option" where
  "or_null_nat x = (case x of None \<Rightarrow> None | Some v \<Rightarrow> if v = 0 then None else Some v)"

text \<open>
  \<open>logEvent\<close> inserts one row into \<open>event_logs\<close>; the insert fails on a foreign key that
  names no row, and the failure is caught and dropped.
\<close>

definition logEvent ::
  "string \<Rightarrow> string \<Rightarrow> string option \<Rightarrow> string option \<Rightarrow> nat option \<Rightarrow> nat option \<Rightarrow>
   (string \<times> string) list \<Rightarrow> string \<Rightarrow> state \<Rightarrow> state" where
  "logEvent category eventType macAddress ipAddress userId sessionId details severity s =
     (let ev = \<lparr> ev_category = category, ev_type = eventType, ev_severity = severity,
                 ev_mac_address = or_null_str macAddress,
                 ev_ip_address = or_null_str ipAddress,
                 ev_user_id = or_null_nat userId,
                 ev_session_id = or_null_nat sessionId,
                 ev_details = details \<rparr>
      in if (case ev_user_id ev of None \<Rightarrow> True | Some u \<Rightarrow> user_exists s u) \<and>
            (case ev_session_id ev of None \<Rightarrow> True | Some i \<Rightarrow> session_exists s i)
         then s\<lparr>event_logs := event_logs s @ [ev]\<rparr>
         else s)"

section \<open>Binding service\<close>

text \<open>\<open>UPDATE mac_ip_bindings SET is_active = 0 WHERE ...\<close>\<close>

definition retire_bindings :: "(binding \<Rightarrow> bool) \<Rightarrow> state \<Rightarrow> state" where
  "retire_bindings P s =
     s\<lparr>mac_ip_bindings := map (\<lambda>b. if P b then b\<lparr>b_is_active := False\<rparr> else b)
                              (mac_ip_bindings s)\<rparr>"

text \<open>
  \<open>INSERT OR REPLACE INTO mac_ip_bindings\<close>: a row with the same (MAC, IP) is deleted
  by the \<open>UNIQUE(mac_address, ip_address)\<close> constraint, and the new row takes the next
  AUTOINCREMENT id.
\<close>

definition insert_or_replace_binding ::
  "string \<Rightarrow> string \<Rightarrow> nat option \<Rightarrow> time option \<Rightarrow> state \<Rightarrow> state" where
  "insert_or_replace_binding m ip sessionId expiresAt s =
     s\<lparr>mac_ip_bindings :=
          filter (\<lambda>b. \<not> (b_mac_address b = m \<and> b_ip_address b = ip)) (mac_ip_bindings s) @
          [\<lparr> b_id = Suc (seq_bindings s), b_mac_address = m, b_ip_address = ip,
             b_session_id = sessionId, b_expires_at = expiresAt, b_is_active = True \<rparr>],
       seq_bindings := Suc (seq_bindings s)\<rparr>"

datatype binding_outcome =
    Created nat string string
  | CreateFailed
  | CreateThrew

text \<open>
  \<open>createBinding\<close>. The normaliser runs before the \<open>try\<close>, so its exception leaves the
  function; a \<open>null\<close> MAC matches no row and the insert then breaks \<open>NOT NULL\<close>, which
  the \<open>catch\<close> turns into \<open>success: false\<close>, as it does a session id that names no
  session (the foreign key).
\<close>

definition createBinding ::
  "string option \<Rightarrow> string \<Rightarrow> nat option \<Rightarrow> time option \<Rightarrow> state \<Rightarrow> binding_outcome \<times> state" where
  "createBinding macAddress ipAddress sessionId expiresAt s =
     (case normalizeMac macAddress of
        TypeError \<Rightarrow> (CreateThrew, s)
      | Null \<Rightarrow> (CreateFailed, s)
      | Str normalizedMac \<Rightarrow>
          let s1 = (case find (\<lambda>b. b_mac_address b = normalizedMac \<and> b_is_active b \<and>
                                     b_ip_address b \<noteq> ipAddress) (mac_ip_bindings s) of
                      None \<Rightarrow> s
                    | Some existingBinding \<Rightarrow>
                        retire_bindings (\<lambda>b. b_id b = b_id existingBinding)
                          (logEvent ''SECURITY'' ''MAC_IP_CHANGE'' (Some normalizedMac) None None
                             sessionId
                             [(''oldIp'', b_ip_address existingBinding), (''newIp'', ipAddress)]
                             ''WARNING'' s));
              s2 = (case find (\<lambda>b. b_ip_address b = ipAddress \<and> b_is_active b \<and>
                                     b_mac_address b \<noteq> normalizedMac) (mac_ip_bindings s1) of
                      None \<Rightarrow> s1
                    | Some ipConflict \<Rightarrow>
                        retire_bindings (\<lambda>b. b_id b = b_id ipConflict)
                          (logEvent ''SECURITY'' ''IP_CONFLICT'' None (Some ipAddress) None
                             sessionId
                             [(''existingMac'', b_mac_address ipConflict),
                              (''newMac'', normalizedMac)]
                             ''WARNING'' s1))
          in if (case sessionId of None \<Rightarrow> True | Some i \<Rightarrow> session_exists s2 i)
             then (Created (Suc (seq_bindings s2)) normalizedMac ipAddress,
                   insert_or_replace_binding normalizedMac ipAddress sessionId expiresAt s2)
             else (CreateFailed, s2))"

datatype validation =
    Valid binding
  | NO_BINDING
  | IP_MISMATCH string
  | EXPIRED
  | ValidateThrew

text \<open>\<open>validateBinding\<close>, with the clock reading \<open>now\<close> of \<open>new Date()\<close>.\<close>

definition validateBinding ::
  "time \<Rightarrow> string option \<Rightarrow> string \<Rightarrow> state \<Rightarrow> validation \<times> state" where
  "validateBinding now macAddress ipAddress s =
     (case normalizeMac macAddress of
        TypeError \<Rightarrow> (ValidateThrew, s)
      | Null \<Rightarrow> (NO_BINDING, s)
      | Str normalizedMac \<Rightarrow>
          (case find (\<lambda>b. b_mac_address b = normalizedMac \<and> b_is_active b) (mac_ip_bindings s) of
             None \<Rightarrow> (NO_BINDING, s)
           | Some b \<Rightarrow>
               if b_ip_address b \<noteq> ipAddress
               then (IP_MISMATCH (b_ip_address b),
                     logEvent ''SECURITY'' ''BINDING_VIOLATION'' (Some normalizedMac) None None None
                       [(''expectedIp'', b_ip_address b), (''actualIp'', ipAddress)]
                       ''WARNING'' s)
               else if (case b_expires_at b of None \<Rightarrow> False | Some e \<Rightarrow> e < now)
               then (EXPIRED, s)
               else (Valid b, s)))"

definition removeBindingBySession :: "nat \<Rightarrow> state \<Rightarrow> nat \<times> state" where
  "removeBindingBySession sessionId s =
     (length (filter (\<lambda>b. b_session_id b = Some sessionId \<and> b_is_active b) (mac_ip_bindings s)),
      retire_bindings (\<lambda>b. b_session_id b = Some sessionId \<and> b_is_active b) s)"

definition cleanupExpiredBindings :: "time \<Rightarrow> state \<Rightarrow> nat \<times> state" where
  "cleanupExpiredBindings now s =
     (let P = (\<lambda>b. b_is_active b \<and> (case b_expires_at b of None \<Rightarrow> False | Some e \<Rightarrow> e < now))
      in (length (filter P (mac_ip_bindings s)), retire_bindings P s))"

section \<open>Enforcer commands and the rule ledger\<close>

definition isSimulationMode :: "config \<Rightarrow> bool" where
  "isSimulationMode cfg \<longleftrightarrow> mode cfg = ''simulation''"

definition bool_text :: "bool \<Rightarrow> string" where
  "bool_text b = (if b then ''true'' else ''false'')"

text \<open>
  \<open>executeCommand\<close> of the iptables and ebtables services (they differ in the tool
  name only). In simulation mode the command is logged and reported as a success; in
  production mode it is run, and a failure is reported without a log row.
\<close>

definition executeCommand ::
  "config \<Rightarrow> string \<Rightarrow> string \<Rightarrow> string \<Rightarrow> state \<Rightarrow> bool \<times> state" where
  "executeCommand cfg tool command description s =
     (let fullCommand = tool @ '' '' @ command;
          s1 = s\<lparr>trace := trace s @ [EnforcerCommand fullCommand]\<rparr>
      in if isSimulationMode cfg
         then (True, logEvent ''FIREWALL'' ''RULE_APPLIED'' None None None None
                       [(''ruleType'', tool), (''action'', description), (''simulated'', ''true'')]
                       ''INFO'' s1)
         else if host cfg (trace s) fullCommand
         then (True, logEvent ''FIREWALL'' ''RULE_APPLIED'' None None None None
                       [(''ruleType'', tool), (''action'', description), (''simulated'', ''false'')]
                       ''INFO'' s1)
         else (False, s1))"

text \<open>
  \<open>storeRule\<close>: one ledger row, active by default. The insert fails when the session id
  names no session; the failure is caught and dropped.
\<close>

definition storeRule ::
  "config \<Rightarrow> string \<Rightarrow> string \<Rightarrow> string \<Rightarrow> string \<Rightarrow> string \<Rightarrow> nat \<Rightarrow> state \<Rightarrow> state" where
  "storeRule cfg ruleType ruleAction command macAddress ipAddress sessionId s =
     (if session_exists s sessionId
      then s\<lparr>firewall_rules := firewall_rules s @
                 [\<lparr> r_id = Suc (seq_rules s), r_rule_type = ruleType, r_rule_action = ruleAction,
                    r_rule_command = command, r_session_id = sessionId,
                    r_mac_address = macAddress, r_ip_address = ipAddress,
                    r_is_active = True, r_is_simulated = isSimulationMode cfg \<rparr>],
             seq_rules := Suc (seq_rules s),
             trace := trace s @ [LedgerInsert command]\<rparr>
      else s)"

text \<open>
  \<open>markRulesRemoved(sessionId)\<close> of the iptables service and
  \<open>markRulesRemoved(sessionId, ruleType)\<close> of the ebtables service.
\<close>

definition markRulesRemoved :: "nat \<Rightarrow> string option \<Rightarrow> state \<Rightarrow> state" where
  "markRulesRemoved sessionId ruleType s =
     s\<lparr>firewall_rules :=
          map (\<lambda>r. if r_session_id r = sessionId \<and> r_is_active r \<and>
                      (case ruleType of None \<Rightarrow> True | Some t \<Rightarrow> r_rule_type r = t)
                   then r\<lparr>r_is_active := False\<rparr> else r)
              (firewall_rules s)\<rparr>"

record rule_spec =
  description :: string
  commands :: "string list"
  removeCommands :: "string list"

definition generateAllowRule :: "config \<Rightarrow> string \<Rightarrow> string \<Rightarrow> rule_spec" where
  \<open>generateAllowRule cfg macAddress ipAddress =
     \<lparr> description = ''Allow internet access for '' @ macAddress @ '' ('' @ ipAddress @ '')'',
       commands =
         [''-A FORWARD -i '' @ bridge cfg @ '' -o '' @ lan cfg @ '' -m mac --mac-source '' @
            macAddress @ '' -s '' @ ipAddress @ '' -j ACCEPT'',
          ''-A FORWARD -i '' @ lan cfg @ '' -o '' @ bridge cfg @ '' -d '' @ ipAddress @
            '' -j ACCEPT''],
       removeCommands =
         [''-D FORWARD -i '' @ bridge cfg @ '' -o '' @ lan cfg @ '' -m mac --mac-source '' @
            macAddress @ '' -s '' @ ipAddress @ '' -j ACCEPT'',
          ''-D FORWARD -i '' @ lan cfg @ '' -o '' @ bridge cfg @ '' -d '' @ ipAddress @
            '' -j ACCEPT''] \<rparr>\<close>

definition generatePortalRedirectRule :: "config \<Rightarrow> string \<Rightarrow> rule_spec" where
  \<open>generatePortalRedirectRule cfg macAddress =
     \<lparr> description = ''Redirect HTTP to portal for '' @ macAddress,
       commands =
         [''-t nat -A PREROUTING -i '' @ bridge cfg @ '' -m mac --mac-source '' @ macAddress @
            '' -p tcp --dport 80 -j DNAT --to-destination '' @ portalIp cfg @ '':'' @
            portal_port cfg,
          ''-t nat -A PREROUTING -i '' @ bridge cfg @ '' -m mac --mac-source '' @ macAddress @
            '' -p tcp --dport 443 -j DNAT --to-destination '' @ portalIp cfg @ '':'' @
            portal_port cfg],
       removeCommands =
         [''-t nat -D PREROUTING -i '' @ bridge cfg @ '' -m mac --mac-source '' @ macAddress @
            '' -p tcp --dport 80 -j DNAT --to-destination '' @ portalIp cfg @ '':'' @
            portal_port cfg,
          ''-t nat -D PREROUTING -i '' @ bridge cfg @ '' -m mac --mac-source '' @ macAddress @
            '' -p tcp --dport 443 -j DNAT --to-destination '' @ portalIp cfg @ '':'' @
            portal_port cfg] \<rparr>\<close>

definition generateBindingRule :: "config \<Rightarrow> string \<Rightarrow> string \<Rightarrow> rule_spec" where
  \<open>generateBindingRule cfg macAddress ipAddress =
     \<lparr> description = ''MAC/IP binding validation for '' @ macAddress @ '' -> '' @ ipAddress,
       commands =
         [''-A FORWARD -i '' @ bridge cfg @ '' -m mac --mac-source '' @ macAddress @ '' -s '' @
            ipAddress @ '' -j RETURN'',
          ''-A FORWARD -i '' @ bridge cfg @ '' -m mac --mac-source '' @ macAddress @ '' ! -s '' @
            ipAddress @ '' -j LOG --log-prefix "CAPTIVE_PORTAL: SPOOF: "'',
          ''-A FORWARD -i '' @ bridge cfg @ '' -m mac --mac-source '' @ macAddress @ '' ! -s '' @
            ipAddress @ '' -j DROP''],
       removeCommands =
         [''-D FORWARD -i '' @ bridge cfg @ '' -m mac --mac-source '' @ macAddress @ '' -s '' @
            ipAddress @ '' -j RETURN'',
          ''-D FORWARD -i '' @ bridge cfg @ '' -m mac --mac-source '' @ macAddress @ '' ! -s '' @
            ipAddress @ '' -j LOG --log-prefix "CAPTIVE_PORTAL: SPOOF: "'',
          ''-D FORWARD -i '' @ bridge cfg @ '' -m mac --mac-source '' @ macAddress @ '' ! -s '' @
            ipAddress @ '' -j DROP''] \<rparr>\<close>

definition generateDnsAllowRule :: "config \<Rightarrow> string \<Rightarrow> rule_spec" where
  \<open>generateDnsAllowRule cfg macAddress =
     \<lparr> description = ''Allow DNS for '' @ macAddress,
       commands =
         [''-A INPUT -i '' @ bridge cfg @ '' -m mac --mac-source '' @ macAddress @
            '' -p udp --dport 53 -j ACCEPT'',
          ''-A INPUT -i '' @ bridge cfg @ '' -m mac --mac-source '' @ macAddress @
            '' -p tcp --dport 53 -j ACCEPT''],
       removeCommands =
         [''-D INPUT -i '' @ bridge cfg @ '' -m mac --mac-source '' @ macAddress @
            '' -p udp --dport 53 -j ACCEPT'',
          ''-D INPUT -i '' @ bridge cfg @ '' -m mac --mac-source '' @ macAddress @
            '' -p tcp --dport 53 -j ACCEPT''] \<rparr>\<close>

definition generateMacIpBindingRule :: "config \<Rightarrow> string \<Rightarrow> string \<Rightarrow> rule_spec" where
  \<open>generateMacIpBindingRule cfg clientMac clientIp =
     \<lparr> description = ''L2 MAC/IP binding for '' @ clientMac @ '' -> '' @ clientIp,
       commands =
         [''-A FORWARD -p ip -i '' @ bridge cfg @ '' --ip-src '' @ clientIp @ '' -s '' @
            clientMac @ '' -j ACCEPT'',
          ''-A FORWARD -p ip -i '' @ bridge cfg @ '' -s '' @ clientMac @ '' ! --ip-src '' @
            clientIp @ '' -j LOG --log-prefix "IP_SPOOF: " --log-level 4'',
          ''-A FORWARD -p ip -i '' @ bridge cfg @ '' -s '' @ clientMac @ '' ! --ip-src '' @
            clientIp @ '' -j DROP''],
       removeCommands =
         [''-D FORWARD -p ip -i '' @ bridge cfg @ '' --ip-src '' @ clientIp @ '' -s '' @
            clientMac @ '' -j ACCEPT'',
          ''-D FORWARD -p ip -i '' @ bridge cfg @ '' -s '' @ clientMac @ '' ! --ip-src '' @
            clientIp @ '' -j LOG --log-prefix "IP_SPOOF: " --log-level 4'',
          ''-D FORWARD -p ip -i '' @ bridge cfg @ '' -s '' @ clientMac @ '' ! --ip-src '' @
            clientIp @ '' -j DROP''] \<rparr>\<close>

definition generateArpProtectionRule ::
  "string \<Rightarrow> string \<Rightarrow> string \<Rightarrow> string \<Rightarrow> rule_spec" where
  \<open>generateArpProtectionRule gatewayIp gatewayMac clientMac clientIp =
     \<lparr> description = ''ARP protection for '' @ clientMac @ '' ('' @ clientIp @ '')'',
       commands =
         [''-A FORWARD -p arp --arp-ip-src '' @ gatewayIp @ '' --arp-mac-src '' @ gatewayMac @
            '' -j ACCEPT'',
          ''-A FORWARD -p arp --arp-ip-src '' @ clientIp @ '' --arp-mac-src '' @ clientMac @
            '' -j ACCEPT'',
          ''-A FORWARD -p arp --arp-ip-src '' @ gatewayIp @ '' ! --arp-mac-src '' @ gatewayMac @
            '' -j LOG --log-prefix "ARP_SPOOF_GW: " --log-level 4'',
          ''-A FORWARD -p arp --arp-ip-src '' @ gatewayIp @ '' ! --arp-mac-src '' @ gatewayMac @
            '' -j DROP'',
          ''-A FORWARD -p arp --arp-mac-src '' @ clientMac @ '' ! --arp-ip-src '' @ clientIp @
            '' -j LOG --log-prefix "ARP_SPOOF_CLIENT: " --log-level 4'',
          ''-A FORWARD -p arp --arp-mac-src '' @ clientMac @ '' ! --arp-ip-src '' @ clientIp @
            '' -j DROP''],
       removeCommands =
         [''-D FORWARD -p arp --arp-ip-src '' @ gatewayIp @ '' --arp-mac-src '' @ gatewayMac @
            '' -j ACCEPT'',
          ''-D FORWARD -p arp --arp-ip-src '' @ clientIp @ '' --arp-mac-src '' @ clientMac @
            '' -j ACCEPT'',
          ''-D FORWARD -p arp --arp-ip-src '' @ gatewayIp @ '' ! --arp-mac-src '' @ gatewayMac @
            '' -j LOG --log-prefix "ARP_SPOOF_GW: " --log-level 4'',
          ''-D FORWARD -p arp --arp-ip-src '' @ gatewayIp @ '' ! --arp-mac-src '' @ gatewayMac @
            '' -j DROP'',
          ''-D FORWARD -p arp --arp-mac-src '' @ clientMac @ '' ! --arp-ip-src '' @ clientIp @
            '' -j LOG --log-prefix "ARP_SPOOF_CLIENT: " --log-level 4'',
          ''-D FORWARD -p arp --arp-mac-src '' @ clientMac @ '' ! --arp-ip-src '' @ clientIp @
            '' -j DROP''] \<rparr>\<close>

section \<open>iptables and ebtables services\<close>

text \<open>
  The double loop \<open>for rule of rules, for cmd of rule.commands\<close> runs over the commands
  of the rules in order, each with the description of its rule.
\<close>

definition plan :: "rule_spec list \<Rightarrow> (string \<times> string) list" where
  "plan rules = concat (map (\<lambda>r. map (\<lambda>c. (description r, c)) (commands r)) rules)"

definition removal_plan :: "rule_spec list \<Rightarrow> (string \<times> string) list" where
  "removal_plan rules =
     concat (map (\<lambda>r. map (\<lambda>c. (''Remove: '' @ description r, c)) (removeCommands r)) rules)"

text \<open>The body of the applying loops: execute the command, then store its ledger row.\<close>

fun apply_each ::
  "config \<Rightarrow> string \<Rightarrow> string \<Rightarrow> string \<Rightarrow> string \<Rightarrow> nat \<Rightarrow> (string \<times> string) list \<Rightarrow>
   state \<Rightarrow> bool list \<times> state" where
  "apply_each cfg tool ruleAction macAddress ipAddress sessionId [] s = ([], s)"
| "apply_each cfg tool ruleAction macAddress ipAddress sessionId ((d, cmd) # rest) s =
     (let (result, s1) = executeCommand cfg tool cmd d s;
          s2 = storeRule cfg tool ruleAction cmd macAddress ipAddress sessionId s1;
          (results, s3) = apply_each cfg tool ruleAction macAddress ipAddress sessionId rest s2
      in (result # results, s3))"

text \<open>The body of the removing loops and of the portal-redirect loops: execute only.\<close>

fun execute_each ::
  "config \<Rightarrow> string \<Rightarrow> (string \<times> string) list \<Rightarrow> state \<Rightarrow> bool list \<times> state" where
  "execute_each cfg tool [] s = ([], s)"
| "execute_each cfg tool ((d, cmd) # rest) s =
     (let (result, s1) = executeCommand cfg tool cmd d s;
          (results, s2) = execute_each cfg tool rest s1
      in (result # results, s2))"

text \<open>\<open>results.every(r => r.success)\<close>\<close>

definition every :: "bool list \<Rightarrow> bool" where
  "every results \<longleftrightarrow> list_all (\<lambda>r. r) results"

definition applyAuthenticatedRules ::
  "config \<Rightarrow> string \<Rightarrow> string \<Rightarrow> nat \<Rightarrow> state \<Rightarrow> bool list \<times> state" where
  "applyAuthenticatedRules cfg macAddress ipAddress sessionId s =
     apply_each cfg ''iptables'' ''ALLOW'' macAddress ipAddress sessionId
       (plan [generateAllowRule cfg macAddress ipAddress,
              generateBindingRule cfg macAddress ipAddress,
              generateDnsAllowRule cfg macAddress]) s"

definition removeClientRules ::
  "config \<Rightarrow> string \<Rightarrow> string \<Rightarrow> nat \<Rightarrow> state \<Rightarrow> bool list \<times> state" where
  "removeClientRules cfg macAddress ipAddress sessionId s =
     (let (results, s1) =
            execute_each cfg ''iptables''
              (removal_plan [generateAllowRule cfg macAddress ipAddress,
                             generateBindingRule cfg macAddress ipAddress,
                             generateDnsAllowRule cfg macAddress]) s;
          s2 = markRulesRemoved sessionId None s1;
          s3 = logEvent ''FIREWALL'' ''RULE_REMOVED'' (Some macAddress) None None None
                 [(''ruleType'', ''iptables''), (''simulated'', bool_text (isSimulationMode cfg))]
                 ''INFO'' s2
      in (results, s3))"

definition applyPortalRedirect :: "config \<Rightarrow> string \<Rightarrow> state \<Rightarrow> bool list \<times> state" where
  "applyPortalRedirect cfg macAddress s =
     execute_each cfg ''iptables'' (plan [generatePortalRedirectRule cfg macAddress]) s"

definition removePortalRedirect :: "config \<Rightarrow> string \<Rightarrow> state \<Rightarrow> bool list \<times> state" where
  "removePortalRedirect cfg macAddress s =
     execute_each cfg ''iptables'' (removal_plan [generatePortalRedirectRule cfg macAddress]) s"

definition applyClientIsolation ::
  "config \<Rightarrow> string \<Rightarrow> string \<Rightarrow> nat \<Rightarrow> state \<Rightarrow> bool list \<times> state" where
  "applyClientIsolation cfg macAddress ipAddress sessionId s =
     apply_each cfg ''ebtables'' ''ISOLATION'' macAddress ipAddress sessionId
       (plan [generateMacIpBindingRule cfg macAddress ipAddress,
              generateArpProtectionRule (gateway cfg) (gateway_mac cfg) macAddress ipAddress]) s"

definition removeClientIsolation ::
  "config \<Rightarrow> string \<Rightarrow> string \<Rightarrow> nat \<Rightarrow> state \<Rightarrow> bool list \<times> state" where
  "removeClientIsolation cfg macAddress ipAddress sessionId s =
     (let (results, s1) =
            execute_each cfg ''ebtables''
              (removal_plan [generateMacIpBindingRule cfg macAddress ipAddress,
                             generateArpProtectionRule (gateway cfg) (gateway_mac cfg)
                               macAddress ipAddress]) s;
          s2 = markRulesRemoved sessionId (Some ''ebtables'') s1;
          s3 = logEvent ''FIREWALL'' ''RULE_REMOVED'' (Some macAddress) None None None
                 [(''ruleType'', ''ebtables''), (''simulated'', bool_text (isSimulationMode cfg))]
                 ''INFO'' s2
      in (results, s3))"

section \<open>Rule engine\<close>

text \<open>
  The result object: \<open>success\<close>, the steps pushed so far with their \<open>success\<close>, and
  whether the \<open>catch\<close> branch set \<open>error\<close>.
\<close>

record engine_result =
  success :: bool
  steps :: "(string \<times> bool) list"
  error :: bool

text \<open>
  \<open>grantClientAccess\<close>. Each \<open>await\<close> is run to its end before the next statement: one
  grant at a time, nothing interleaved. Only the MAC normaliser inside \<open>createBinding\<close>
  can throw; every other callee catches its own errors.
\<close>

definition grantClientAccess ::
  "config \<Rightarrow> nat \<Rightarrow> string \<Rightarrow> string \<Rightarrow> string \<Rightarrow> time option \<Rightarrow> state \<Rightarrow>
   engine_result \<times> state" where
  "grantClientAccess cfg sessionId macAddress ipAddress authMethod expiresAt s =
     (case createBinding (Some macAddress) ipAddress (Some sessionId) expiresAt s of
        (CreateThrew, s1) \<Rightarrow>
          (\<lparr> success = False, steps = [], error = True \<rparr>,
           logEvent ''FIREWALL'' ''ACCESS_GRANT_ERROR'' (Some macAddress) (Some ipAddress) None
             (Some sessionId) [(''error'', ''TypeError'')] ''ERROR'' s1)
      | (bindingResult, s1) \<Rightarrow>
          let (redirectResult, s2) = removePortalRedirect cfg macAddress s1;
              (iptablesResult, s3) = applyAuthenticatedRules cfg macAddress ipAddress sessionId s2;
              (ebtablesResult, s4) = applyClientIsolation cfg macAddress ipAddress sessionId s3;
              results_steps =
                [(''MAC/IP Binding'', bindingResult \<noteq> CreateFailed),
                 (''Remove Portal Redirect'', every redirectResult),
                 (''Layer 3 Rules (iptables)'', every iptablesResult),
                 (''Layer 2 Rules (ebtables)'', every ebtablesResult)];
              s5 = logEvent ''FIREWALL'' ''ACCESS_GRANTED'' (Some macAddress) (Some ipAddress) None
                     (Some sessionId)
                     [(''authMethod'', authMethod), (''stepsCompleted'', ''4''),
                      (''simulated'', bool_text (isSimulationMode cfg))] ''INFO'' s4
          in (\<lparr> success = every (map snd results_steps), steps = results_steps, error = False \<rparr>,
              s5))"

definition revokeClientAccess ::
  "config \<Rightarrow> nat \<Rightarrow> string \<Rightarrow> string \<Rightarrow> state \<Rightarrow> engine_result \<times> state" where
  "revokeClientAccess cfg sessionId macAddress ipAddress s =
     (let (iptablesResult, s1) = removeClientRules cfg macAddress ipAddress sessionId s;
          (ebtablesResult, s2) = removeClientIsolation cfg macAddress ipAddress sessionId s1;
          (removed, s3) = removeBindingBySession sessionId s2;
          (redirectResult, s4) = applyPortalRedirect cfg macAddress s3;
          results_steps =
            [(''Remove Layer 3 Rules'', every iptablesResult),
             (''Remove Layer 2 Rules'', every ebtablesResult),
             (''Remove MAC/IP Binding'', True),
             (''Apply Portal Redirect'', every redirectResult)];
          s5 = logEvent ''FIREWALL'' ''ACCESS_REVOKED'' (Some macAddress) (Some ipAddress) None
                 (Some sessionId)
                 [(''stepsCompleted'', ''4''), (''simulated'', bool_text (isSimulationMode cfg))]
                 ''INFO'' s4
      in (\<lparr> success = every (map snd results_steps), steps = results_steps, error = False \<rparr>,
          s5))"

text \<open>
  The sessions one cleanup cycle picks:
  \<open>SELECT DISTINCT s.id, s.mac_address, s.ip_address FROM sessions s INNER JOIN
  firewall_rules f ON s.id = f.session_id WHERE s.expires_at < ? AND f.is_active = 1\<close>.
\<close>

definition expiredSessions :: "time \<Rightarrow> state \<Rightarrow> (nat \<times> string \<times> string) list" where
  "expiredSessions now s =
     remdups (map (\<lambda>r. (s_id r, s_mac_address r, s_ip_address r))
       (filter (\<lambda>r. s_expires_at r < now \<and>
                     list_ex (\<lambda>f. r_session_id f = s_id r \<and> r_is_active f) (firewall_rules s))
               (sessions s)))"

fun revoke_each ::
  "config \<Rightarrow> (nat \<times> string \<times> string) list \<Rightarrow> state \<Rightarrow> (nat \<times> bool) list \<times> state" where
  "revoke_each cfg [] s = ([], s)"
| "revoke_each cfg ((sid, m, ip) # rest) s =
     (let (result, s1) = revokeClientAccess cfg sid m ip s;
          (results, s2) = revoke_each cfg rest s1
      in ((sid, success result) # results, s2))"

text \<open>
  \<open>cleanupExpiredSessions\<close> of the rule engine, with the two clock readings it takes:
  \<open>now\<close> for the sessions and \<open>now2\<close> inside \<open>cleanupExpiredBindings\<close>.
\<close>

definition cleanupExpiredSessions ::
  "config \<Rightarrow> time \<Rightarrow> time \<Rightarrow> state \<Rightarrow> (nat \<times> bool) list \<times> state" where
  "cleanupExpiredSessions cfg now now2 s =
     (let expired = expiredSessions now s
      in if expired = [] then ([], s)
         else let (results, s1) = revoke_each cfg expired s;
                  (bindingsCleaned, s2) = cleanupExpiredBindings now2 s1
              in (results, s2))"

text \<open>
  The scheduler. The module variable \<open>cleanupInterval\<close> is \<open>null\<close> or the timer that
  \<open>setInterval\<close> returned, kept here as the instant it was set at and its period.
  \<open>startCleanupScheduler\<close> returns at once when a timer is running.
\<close>

record timer =
  set_at :: time
  every_ms :: int

definition startCleanupScheduler :: "time \<Rightarrow> timer option \<Rightarrow> timer option" where
  "startCleanupScheduler now cleanupInterval =
     (case cleanupInterval of
        Some t \<Rightarrow> Some t
      | None \<Rightarrow> (let intervalMs = cleanup_intervalMs
                 in Some \<lparr> set_at = now, every_ms = intervalMs \<rparr>))"

definition stopCleanupScheduler :: "timer option \<Rightarrow> timer option" where
  "stopCleanupScheduler cleanupInterval =
     (case cleanupInterval of Some t \<Rightarrow> None | None \<Rightarrow> None)"

text \<open>
  \<open>setInterval(callback, intervalMs)\<close>: the \<open>k\<close>-th call of the callback (\<open>k = 1, 2, \<dots>\<close>)
  is due \<open>k\<close> periods after the timer was set. The callback is one cleanup cycle; a cycle
  is run to its end before the next is due, and reads the clock at the instant it is due.
\<close>

definition due :: "timer \<Rightarrow> nat \<Rightarrow> time" where
  "due t k = set_at t + int k * every_ms t"

fun scheduled_cycles :: "config \<Rightarrow> timer option \<Rightarrow> nat \<Rightarrow> state \<Rightarrow> state" where
  "scheduled_cycles cfg None n s = s"
| "scheduled_cycles cfg (Some t) 0 s = s"
| "scheduled_cycles cfg (Some t) (Suc n) s =
     snd (cleanupExpiredSessions cfg (due t (Suc n)) (due t (Suc n))
            (scheduled_cycles cfg (Some t) n s))"

section \<open>Session-firewall integration service\<close>

definition onSessionCreated :: "config \<Rightarrow> session \<Rightarrow> state \<Rightarrow> engine_result \<times> state" where
  "onSessionCreated cfg session s =
     (let (result, s1) =
            grantClientAccess cfg (s_id session) (s_mac_address session) (s_ip_address session)
              (s_auth_method session) (Some (s_expires_at session)) s
      in (result,
          s1\<lparr>sessions := map (\<lambda>r. if s_id r = s_id session
                                    then r\<lparr>s_firewall_applied := success result\<rparr> else r)
                              (sessions s1)\<rparr>))"

definition onSessionEnded :: "config \<Rightarrow> session \<Rightarrow> state \<Rightarrow> engine_result \<times> state" where
  "onSessionEnded cfg session s =
     (let (result, s1) =
            revokeClientAccess cfg (s_id session) (s_mac_address session) (s_ip_address session) s
      in (result,
          s1\<lparr>sessions := map (\<lambda>r. if s_id r = s_id session
                                    then r\<lparr>s_is_active := False, s_firewall_applied := False\<rparr>
                                    else r)
                              (sessions s1)\<rparr>))"

text \<open>\<open>logoutSession\<close> and \<open>forceDisconnect\<close>; \<open>None\<close> is \<open>Session not found\<close>.\<close>

definition logoutSession :: "config \<Rightarrow> nat \<Rightarrow> state \<Rightarrow> engine_result option \<times> state" where
  "logoutSession cfg sessionId s =
     (case find (\<lambda>r. s_id r = sessionId) (sessions s) of
        None \<Rightarrow> (None, s)
      | Some session \<Rightarrow> (let (result, s1) = onSessionEnded cfg session s in (Some result, s1)))"

definition forceDisconnect ::
  "config \<Rightarrow> nat \<Rightarrow> string \<Rightarrow> string \<Rightarrow> state \<Rightarrow> engine_result option \<times> state" where
  "forceDisconnect cfg sessionId adminId reason s =
     (case find (\<lambda>r. s_id r = sessionId) (sessions s) of
        None \<Rightarrow> (None, s)
      | Some session \<Rightarrow>
          (let s1 = logEvent ''ADMIN'' ''FORCE_DISCONNECT'' (Some (s_mac_address session)) None None
                      (Some sessionId) [(''adminId'', adminId), (''reason'', reason)]
                      ''WARNING'' s;
               (result, s2) = onSessionEnded cfg session s1
           in (Some result, s2)))"

section \<open>Session service and database service\<close>

text \<open>\<open>disconnectSession\<close>, the admin route \<open>DELETE /sessions/:id\<close>; the result is \<open>success\<close>.\<close>

definition disconnectSession :: "nat \<Rightarrow> state \<Rightarrow> bool \<times> state" where
  "disconnectSession sessionId s =
     (case find (\<lambda>r. s_id r = sessionId) (sessions s) of
        None \<Rightarrow> (False, s)
      | Some session \<Rightarrow>
          (let s1 = s\<lparr>sessions := map (\<lambda>r. if s_id r = sessionId then r\<lparr>s_is_active := False\<rparr>
                                              else r) (sessions s)\<rparr>;
               s2 = retire_bindings (\<lambda>b. b_session_id b = Some sessionId) s1;
               s3 = logEvent ''SESSION'' ''SESSION_EXPIRED'' (Some (s_mac_address session)) None None
                      (Some sessionId) [] ''INFO'' s2
           in (True, s3)))"

text \<open>
  \<open>cleanupExpiredSessions\<close> of the database service (route \<open>POST /monitoring/cleanup\<close>);
  the result is the number of sessions it deactivated.
\<close>

definition db_cleanupExpiredSessions :: "time \<Rightarrow> state \<Rightarrow> nat \<times> state" where
  "db_cleanupExpiredSessions now s =
     (let changes = length (filter (\<lambda>r. s_is_active r \<and> s_expires_at r < now) (sessions s));
          s1 = s\<lparr>sessions := map (\<lambda>r. if s_is_active r \<and> s_expires_at r < now
                                         then r\<lparr>s_is_active := False\<rparr> else r) (sessions s)\<rparr>;
          s2 = retire_bindings
                 (\<lambda>b. b_is_active b \<and> (case b_expires_at b of None \<Rightarrow> False | Some e \<Rightarrow> e < now))
                 s1;
          s3 = s2\<lparr>firewall_rules :=
                    map (\<lambda>f. if r_is_active f \<and>
                                 list_ex (\<lambda>r. s_id r = r_session_id f \<and> \<not> s_is_active r)
                                   (sessions s2)
                              then f\<lparr>r_is_active := False\<rparr> else f)
                        (firewall_rules s2)\<rparr>
      in (changes, s3))"

section \<open>Authentication service\<close>

definition authFailure :: "string \<Rightarrow> string \<Rightarrow> string \<Rightarrow> state \<Rightarrow> state" where
  "authFailure macAddress ipAddress reason s =
     logEvent ''AUTH'' ''AUTH_FAILURE'' (Some macAddress) (Some ipAddress) None None
       [(''reason'', reason)] ''WARNING'' s"

definition authSuccess :: "string \<Rightarrow> string \<Rightarrow> string \<Rightarrow> nat option \<Rightarrow> state \<Rightarrow> state" where
  "authSuccess macAddress ipAddress method userId s =
     logEvent ''AUTH'' ''AUTH_SUCCESS'' (Some macAddress) (Some ipAddress) userId None
       [(''method'', method)] ''INFO'' s"

definition getOrCreateDevice :: "string \<Rightarrow> state \<Rightarrow> device \<times> state" where
  "getOrCreateDevice macAddress s =
     (case find (\<lambda>d. d_mac_address d = macAddress) (devices s) of
        None \<Rightarrow>
          (let d = \<lparr> d_id = Suc (seq_devices s), d_mac_address = macAddress,
                     d_is_blocked = False, d_total_sessions = 0 \<rparr>
           in (d, s\<lparr>devices := devices s @ [d], seq_devices := Suc (seq_devices s)\<rparr>))
      | Some d \<Rightarrow> (d, s))"

text \<open>
  \<open>createSession\<close>, with the clock reading \<open>now\<close> and the fresh UUID \<open>sessionToken\<close>. The
  first insert throws when the table refuses the row; \<open>None\<close> is that exception. The
  firewall rules are applied in the background; here that task is run to its end before
  the function returns (\<open>createBinding\<close> in it does run before the first \<open>await\<close>). The
  result is the session id and the expiry instant.
\<close>

definition createSession ::
  "config \<Rightarrow> time \<Rightarrow> string \<Rightarrow> nat option \<Rightarrow> nat option \<Rightarrow> nat \<Rightarrow> string \<Rightarrow> string \<Rightarrow>
   string \<Rightarrow> int \<Rightarrow> state \<Rightarrow> (nat \<times> time) option \<times> state" where
  "createSession cfg now sessionToken userId voucherId deviceId macAddress ipAddress
     authMethod hours s =
     (if \<not> session_insertable s sessionToken (or_null_nat userId) (or_null_nat voucherId)
             deviceId
      then (None, s)
      else
        let expiresAt = now + hours * 60 * 60 * 1000;
            sessionId = Suc (seq_sessions s);
            s1 = s\<lparr>sessions := sessions s @
                      [\<lparr> s_id = sessionId, s_session_token = sessionToken,
                         s_user_id = or_null_nat userId, s_voucher_id = or_null_nat voucherId,
                         s_device_id = deviceId, s_mac_address = macAddress,
                         s_ip_address = ipAddress, s_auth_method = authMethod,
                         s_expires_at = expiresAt, s_is_active = True,
                         s_firewall_applied = False \<rparr>],
                    seq_sessions := sessionId\<rparr>;
            s2 = insert_or_replace_binding macAddress ipAddress (Some sessionId) (Some expiresAt) s1;
            s3 = s2\<lparr>devices := map (\<lambda>d. if d_id d = deviceId
                                          then d\<lparr>d_total_sessions := Suc (d_total_sessions d)\<rparr>
                                          else d) (devices s2)\<rparr>;
            s4 = logEvent ''SESSION'' ''SESSION_CREATED'' (Some macAddress) (Some ipAddress) None
                   (Some sessionId) [] ''INFO'' s3;
            s5 = (case find (\<lambda>r. s_id r = sessionId) (sessions s4) of
                    None \<Rightarrow> s4
                  | Some session \<Rightarrow> snd (onSessionCreated cfg session s4))
        in (Some (sessionId, expiresAt), s5))"

datatype auth_result =
    AuthFailed string
  | SessionResumed nat time
  | Authenticated nat time
  | AuthThrew

text \<open>
  \<open>authenticateWithVoucher\<close>, in the two parts its first \<open>await\<close> separates. The first
  part runs from the voucher lookup to the call of \<open>getOrCreateDevice\<close> (whose body has
  run when the caller yields); what the suspended login holds is a \<open>voucher_login\<close>. The
  second part runs from the blocked-device check to the end, on the state it finds when it
  is resumed; the later \<open>await\<close> (of \<open>createSession\<close>, whose inserts have run when the
  caller yields) is run through. The JWT in the result is left out.
\<close>

datatype voucher_login =
    Refused string
  | Awaiting voucher "session option" device

definition authenticateWithVoucher_begin ::
  "time \<Rightarrow> string \<Rightarrow> string option \<Rightarrow> string \<Rightarrow> state \<Rightarrow> voucher_login \<times> state" where
  "authenticateWithVoucher_begin now code macAddress ipAddress s =
     (let normalizedMac = normalizeMacAddress macAddress
      in case find (\<lambda>v. toUpperCase code = Some (v_code v) \<and> v_is_active v) (vouchers s) of
           None \<Rightarrow> (Refused ''Invalid voucher code'',
                    authFailure normalizedMac ipAddress ''Invalid voucher code'' s)
         | Some voucher \<Rightarrow>
             if (case v_expires_at voucher of None \<Rightarrow> False | Some e \<Rightarrow> e < now)
             then (Refused ''Voucher has expired'',
                   authFailure normalizedMac ipAddress ''Voucher expired'' s)
             else
               let deviceCount =
                     length (remdups (map s_mac_address
                       (filter (\<lambda>r. s_voucher_id r = Some (v_id voucher) \<and> s_is_active r)
                               (sessions s))));
                   existingSession =
                     find (\<lambda>r. s_voucher_id r = Some (v_id voucher) \<and>
                                s_mac_address r = normalizedMac \<and> s_is_active r) (sessions s)
               in if existingSession = None \<and> deviceCount \<ge> v_max_devices voucher
                  then (Refused (''Maximum devices ('' @ decimal (v_max_devices voucher) @
                                 '') reached for this voucher''),
                        authFailure normalizedMac ipAddress ''Voucher device limit reached'' s)
                  else
                    let (device, s1) = getOrCreateDevice normalizedMac s
                    in (Awaiting voucher existingSession device, s1))"

definition authenticateWithVoucher_resume ::
  "config \<Rightarrow> time \<Rightarrow> string \<Rightarrow> string option \<Rightarrow> string \<Rightarrow> voucher_login \<Rightarrow> state \<Rightarrow>
   auth_result \<times> state" where
  "authenticateWithVoucher_resume cfg now sessionToken macAddress ipAddress pending s1 =
     (let normalizedMac = normalizeMacAddress macAddress
      in case pending of
           Refused message \<Rightarrow> (AuthFailed message, s1)
         | Awaiting voucher existingSession device \<Rightarrow>
             if d_is_blocked device
             then (AuthFailed ''This device has been blocked'',
                   authFailure normalizedMac ipAddress ''Device is blocked'' s1)
             else (case existingSession of
                     Some existing \<Rightarrow> (SessionResumed (s_id existing) (s_expires_at existing), s1)
                   | None \<Rightarrow>
                       (case createSession cfg now sessionToken None (Some (v_id voucher))
                               (d_id device) normalizedMac ipAddress ''voucher''
                               (v_duration_hours voucher) s1 of
                          (None, s2) \<Rightarrow> (AuthThrew, s2)
                        | (Some (sessionId, expiresAt), s2) \<Rightarrow>
                            let s3 = (if v_used_at voucher = None
                                      then s2\<lparr>vouchers :=
                                             map (\<lambda>v. if v_id v = v_id voucher
                                                       then v\<lparr>v_used_at := Some now,
                                                              v_used_by_device :=
                                                                Some normalizedMac\<rparr>
                                                       else v) (vouchers s2)\<rparr>
                                      else s2);
                                s4 = authSuccess normalizedMac ipAddress ''voucher'' None s3
                            in (Authenticated sessionId expiresAt, s4))))"

text \<open>The login when nothing else runs while it is suspended.\<close>

definition authenticateWithVoucher ::
  "config \<Rightarrow> time \<Rightarrow> string \<Rightarrow> string \<Rightarrow> string option \<Rightarrow> string \<Rightarrow> state \<Rightarrow>
   auth_result \<times> state" where
  "authenticateWithVoucher cfg now sessionToken code macAddress ipAddress s =
     (let (pending, s1) = authenticateWithVoucher_begin now code macAddress ipAddress s
      in authenticateWithVoucher_resume cfg now sessionToken macAddress ipAddress pending s1)"

text \<open>
  \<open>authenticateWithCredentials\<close>. Its awaits (\<open>bcrypt.compare\<close>, \<open>getOrCreateDevice\<close>)
  come before the existing-session check; from that check to the inserts of
  \<open>createSession\<close> nothing is awaited.
\<close>

definition authenticateWithCredentials ::
  "config \<Rightarrow> time \<Rightarrow> string \<Rightarrow> string \<Rightarrow> string \<Rightarrow> string option \<Rightarrow> string \<Rightarrow> state \<Rightarrow>
   auth_result \<times> state" where
  "authenticateWithCredentials cfg now sessionToken username password macAddress ipAddress s =
     (let normalizedMac = normalizeMacAddress macAddress
      in case find (\<lambda>u. u_username u = username \<and> u_is_active u) (users s) of
           None \<Rightarrow> (AuthFailed ''Invalid username or password'',
                    authFailure normalizedMac ipAddress ''User not found'' s)
         | Some usr \<Rightarrow>
             if \<not> bcrypt_compare cfg password (u_password_hash usr)
             then (AuthFailed ''Invalid username or password'',
                   authFailure normalizedMac ipAddress ''Invalid password'' s)
             else
               let (device, s1) = getOrCreateDevice normalizedMac s
               in if d_is_blocked device
                  then (AuthFailed ''This device has been blocked'',
                        authFailure normalizedMac ipAddress ''Device is blocked'' s1)
                  else
                    let activeDevices =
                          length (remdups (map s_mac_address
                            (filter (\<lambda>r. s_user_id r = Some (u_id usr) \<and> s_is_active r)
                                    (sessions s1))));
                        existingSession =
                          find (\<lambda>r. s_user_id r = Some (u_id usr) \<and>
                                     s_mac_address r = normalizedMac \<and> s_is_active r) (sessions s1)
                    in if existingSession = None \<and> activeDevices \<ge> maxDevicesPerUser cfg
                       then (AuthFailed (''Maximum devices ('' @ decimal (maxDevicesPerUser cfg) @
                                         '') reached''),
                             authFailure normalizedMac ipAddress ''Device limit reached'' s1)
                       else (case existingSession of
                               Some existing \<Rightarrow>
                                 (SessionResumed (s_id existing) (s_expires_at existing), s1)
                             | None \<Rightarrow>
                                 (case createSession cfg now sessionToken (Some (u_id usr)) None
                                         (d_id device) normalizedMac ipAddress ''user''
                                         (durationHours cfg) s1 of
                                    (None, s2) \<Rightarrow> (AuthThrew, s2)
                                  | (Some (sessionId, expiresAt), s2) \<Rightarrow>
                                      (Authenticated sessionId expiresAt,
                                       authSuccess normalizedMac ipAddress ''user''
                                         (Some (u_id usr)) s2))))"

section \<open>Invariants of the data model\<close>

text \<open>The characters \<open>toLowerCase\<close> changes.\<close>

definition is_upper :: "char \<Rightarrow> bool" where
  "is_upper c \<longleftrightarrow>
     (65 \<le> (of_char c :: nat) \<and> (of_char c :: nat) \<le> 90) \<or>
     (192 \<le> (of_char c :: nat) \<and> (of_char c :: nat) \<le> 222 \<and> (of_char c :: nat) \<noteq> 215)"

definition active_bindings :: "state \<Rightarrow> binding list" where
  "active_bindings s = filter b_is_active (mac_ip_bindings s)"

text \<open>(B1) at most one ACTIVE binding per MAC; (B2) at most one ACTIVE binding per IP.\<close>

definition B1 :: "state \<Rightarrow> bool" where
  "B1 s \<longleftrightarrow> distinct (map b_mac_address (active_bindings s))"

definition B2 :: "state \<Rightarrow> bool" where
  "B2 s \<longleftrightarrow> distinct (map b_ip_address (active_bindings s))"

text \<open>The ACTIVE bindings other than those of the pair (MAC, IP) itself.\<close>

definition other_bindings :: "string \<Rightarrow> string \<Rightarrow> state \<Rightarrow> binding list" where
  "other_bindings m ip s =
     filter (\<lambda>b. b_is_active b \<and> \<not> (b_mac_address b = m \<and> b_ip_address b = ip))
       (mac_ip_bindings s)"

section \<open>Example states\<close>

definition empty_state :: state where
  "empty_state = \<lparr> sessions = [], mac_ip_bindings = [], firewall_rules = [], devices = [],
     vouchers = [], users = [], event_logs = [], seq_sessions = 0, seq_bindings = 0,
     seq_rules = 0, seq_devices = 0, trace = [] \<rparr>"

text \<open>Two vouchers and the device of the MAC \<open>aa:bb:cc:dd:ee:01\<close>.\<close>

definition voucher_1 :: voucher where
  "voucher_1 = \<lparr> v_id = 1, v_code = ''WIFI0001'', v_duration_hours = 1, v_max_devices = 1,
     v_expires_at = None, v_used_at = None, v_used_by_device = None, v_is_active = True \<rparr>"

definition voucher_2 :: voucher where
  "voucher_2 = \<lparr> v_id = 2, v_code = ''WIFI0002'', v_duration_hours = 1, v_max_devices = 1,
     v_expires_at = None, v_used_at = None, v_used_by_device = None, v_is_active = True \<rparr>"

definition device_1 :: device where
  "device_1 = \<lparr> d_id = 1, d_mac_address = ''aa:bb:cc:dd:ee:01'', d_is_blocked = False,
     d_total_sessions = 1 \<rparr>"

text \<open>Before the first login: the vouchers are issued, no session was ever opened.\<close>

definition vouchers_state :: state where
  "vouchers_state = empty_state\<lparr> vouchers := [voucher_1, voucher_2] \<rparr>"

text \<open>
  Session 1, opened at instant 0 with the first voucher, and the tables its login has
  written to: the device and the voucher, now used.
\<close>

definition session_1 :: session where
  "session_1 = \<lparr> s_id = 1, s_session_token = ''token-1'', s_user_id = None,
     s_voucher_id = Some 1, s_device_id = 1, s_mac_address = ''aa:bb:cc:dd:ee:01'',
     s_ip_address = ''192.168.4.10'', s_auth_method = ''voucher'', s_expires_at = 3600000,
     s_is_active = True, s_firewall_applied = False \<rparr>"

definition session_state :: state where
  "session_state = empty_state\<lparr> sessions := [session_1], seq_sessions := 1,
     devices := [device_1], seq_devices := 1,
     vouchers := [voucher_1\<lparr>v_used_at := Some 0,
                              v_used_by_device := Some ''aa:bb:cc:dd:ee:01''\<rparr>, voucher_2] \<rparr>"

definition binding_1 :: binding where
  "binding_1 = \<lparr> b_id = 1, b_mac_address = ''aa:bb:cc:dd:ee:01'',
     b_ip_address = ''192.168.4.10'', b_session_id = Some 1, b_expires_at = Some 3600000,
     b_is_active = True \<rparr>"

definition bound_state :: state where
  "bound_state = session_state\<lparr> mac_ip_bindings := [binding_1], seq_bindings := 1 \<rparr>"



definition simulation_config :: config where
  "simulation_config = \<lparr> mode = ''simulation'', bridge = ''wlan0'', lan = ''eth0'',
     portalIp = ''192.168.4.1'', gateway = ''192.168.4.1'', portal_port = ''3000'',
     gateway_mac = ''dc:a6:32:xx:xx:xx'', durationHours = 4, maxDevicesPerUser = 2,
     host = (\<lambda>issued command. True), bcrypt_compare = (\<lambda>password hash. hash = password) \<rparr>"

text \<open>Production mode on a host where every command fails.\<close>

definition failing_config :: config where
  "failing_config = simulation_config\<lparr> mode := ''production'',
     host := (\<lambda>issued command. False) \<rparr>"

definition rule_1 :: firewall_rule where
  "rule_1 = \<lparr> r_id = 1, r_rule_type = ''iptables'', r_rule_action = ''ALLOW'',
     r_rule_command = ''-A FORWARD -i eth0 -o wlan0 -d 192.168.4.10 -j ACCEPT'',
     r_session_id = 1, r_mac_address = ''aa:bb:cc:dd:ee:01'', r_ip_address = ''192.168.4.10'',
     r_is_active = True, r_is_simulated = True \<rparr>"

definition granted_state :: state where
  "granted_state = bound_state\<lparr> firewall_rules := [rule_1], seq_rules := 1 \<rparr>"

text \<open>The state after the first login in simulation mode, where the grant succeeds.\<close>

definition one_session_state :: state where
  "one_session_state = session_state\<lparr> sessions := [session_1\<lparr>s_firewall_applied := True\<rparr>] \<rparr>"

section \<open>The other writers of the sessions table\<close>

text \<open>
  \<open>createSessionWithFirewall\<close>, \<open>refreshSessionRules\<close> and \<open>refreshAllSessionRules\<close> of
  the integration service; \<open>None\<close> is \<open>Session not found\<close>.
\<close>

definition createSessionWithFirewall ::
  "config \<Rightarrow> nat \<Rightarrow> state \<Rightarrow> engine_result option \<times> state" where
  "createSessionWithFirewall cfg sessionId s =
     (case find (\<lambda>r. s_id r = sessionId) (sessions s) of
        None \<Rightarrow> (None, s)
      | Some session \<Rightarrow> (let (result, s1) = onSessionCreated cfg session s in (Some result, s1)))"

definition refreshSessionRules ::
  "config \<Rightarrow> time \<Rightarrow> nat \<Rightarrow> state \<Rightarrow> engine_result option \<times> state" where
  "refreshSessionRules cfg now sessionId s =
     (case find (\<lambda>r. s_id r = sessionId \<and> s_is_active r) (sessions s) of
        None \<Rightarrow> (None, s)
      | Some session \<Rightarrow>
          if s_expires_at session < now
          then (let (result, s1) = onSessionEnded cfg session s in (Some result, s1))
          else (let (result, s1) = onSessionCreated cfg session s in (Some result, s1)))"

fun create_each :: "config \<Rightarrow> session list \<Rightarrow> state \<Rightarrow> (nat \<times> bool) list \<times> state" where
  "create_each cfg [] s = ([], s)"
| "create_each cfg (session # rest) s =
     (let (result, s1) = onSessionCreated cfg session s;
          (results, s2) = create_each cfg rest s1
      in ((s_id session, success result) # results, s2))"

text \<open>
  \<open>refreshAllSessionRules\<close> selects with \<open>is_active = 1 AND expires_at > datetime('now')\<close>.
  The stored text is that of \<open>toISOString\<close>, with a \<open>T\<close> after the date, where the text of
  \<open>datetime('now')\<close> has a blank; as texts they are ordered by their dates alone, and on
  the same date the stored one is the greater. So the rows selected are those whose expiry
  day (UTC) is today or later.
\<close>

definition utc_day :: "time \<Rightarrow> int" where
  "utc_day t = t div 86400000"

definition refreshAllSessionRules ::
  "config \<Rightarrow> time \<Rightarrow> state \<Rightarrow> (nat \<times> bool) list \<times> state" where
  "refreshAllSessionRules cfg now s =
     create_each cfg
       (filter (\<lambda>r. s_is_active r \<and> utc_day now \<le> utc_day (s_expires_at r)) (sessions s)) s"

text \<open>\<open>logoutDevice\<close>: every ACTIVE session of the MAC is ended, in table order.\<close>

fun end_each ::
  "config \<Rightarrow> session list \<Rightarrow> state \<Rightarrow> (nat \<times> engine_result) list \<times> state" where
  "end_each cfg [] s = ([], s)"
| "end_each cfg (session # rest) s =
     (let (result, s1) = onSessionEnded cfg session s;
          (results, s2) = end_each cfg rest s1
      in ((s_id session, result) # results, s2))"

definition logoutDevice ::
  "config \<Rightarrow> string \<Rightarrow> state \<Rightarrow> (nat \<times> engine_result) list \<times> state" where
  "logoutDevice cfg macAddress s =
     end_each cfg (filter (\<lambda>r. s_mac_address r = macAddress \<and> s_is_active r) (sessions s)) s"

text \<open>
  \<open>validateSession\<close> of the authentication service. \<open>decoded\<close> is the session id the
  token carries, \<open>None\<close> for a token that does not verify; the result is the session of a
  valid token.
\<close>

definition validateSession :: "time \<Rightarrow> nat option \<Rightarrow> state \<Rightarrow> session option \<times> state" where
  "validateSession now decoded s =
     (case decoded of
        None \<Rightarrow> (None, s)
      | Some sessionId \<Rightarrow>
          (case find (\<lambda>r. s_id r = sessionId \<and> s_is_active r) (sessions s) of
             None \<Rightarrow> (None, s)
           | Some session \<Rightarrow>
               if s_expires_at session < now
               then (None,
                     s\<lparr>sessions := map (\<lambda>r. if s_id r = s_id session
                                              then r\<lparr>s_is_active := False\<rparr> else r)
                                        (sessions s)\<rparr>)
               else (Some session, s)))"

text \<open>
  \<open>endSession\<close>: \<open>logoutSession\<close>, then the bindings of the session are retired once more.
  \<open>logoutSession\<close> does not throw, so the fallback of the \<open>catch\<close> block never runs.
\<close>

definition endSession :: "config \<Rightarrow> nat \<Rightarrow> state \<Rightarrow> state" where
  "endSession cfg sessionId s =
     (let (result, s1) = logoutSession cfg sessionId s
      in retire_bindings (\<lambda>b. b_session_id b = Some sessionId) s1)"

text \<open>\<open>extendSession\<close> of the session service; the result is \<open>success\<close>.\<close>

definition extendSession :: "nat \<Rightarrow> int \<Rightarrow> state \<Rightarrow> bool \<times> state" where
  "extendSession sessionId additionalHours s =
     (case find (\<lambda>r. s_id r = sessionId) (sessions s) of
        None \<Rightarrow> (False, s)
      | Some session \<Rightarrow>
          (let newExpiry = s_expires_at session + additionalHours * 60 * 60 * 1000;
               s1 = s\<lparr>sessions := map (\<lambda>r. if s_id r = sessionId
                                              then r\<lparr>s_expires_at := newExpiry\<rparr> else r)
                                        (sessions s)\<rparr>;
               s2 = s1\<lparr>mac_ip_bindings :=
                         map (\<lambda>b. if b_session_id b = Some sessionId
                                   then b\<lparr>b_expires_at := Some newExpiry\<rparr> else b)
                             (mac_ip_bindings s1)\<rparr>
           in (True, s2)))"

text \<open>\<open>blockDevice\<close> of the session service; the result is \<open>success\<close>.\<close>

definition blockDevice :: "string \<Rightarrow> string \<Rightarrow> state \<Rightarrow> bool \<times> state" where
  "blockDevice macAddress reason s =
     (case find (\<lambda>d. d_mac_address d = macAddress) (devices s) of
        None \<Rightarrow> (False, s)
      | Some device \<Rightarrow>
          (let s1 = s\<lparr>devices := map (\<lambda>d. if d_mac_address d = macAddress
                                             then d\<lparr>d_is_blocked := True\<rparr> else d)
                                       (devices s)\<rparr>;
               s2 = s1\<lparr>sessions := map (\<lambda>r. if s_mac_address r = macAddress \<and> s_is_active r
                                               then r\<lparr>s_is_active := False\<rparr> else r)
                                         (sessions s1)\<rparr>;
               s3 = retire_bindings (\<lambda>b. b_mac_address b = macAddress) s2;
               s4 = logEvent ''SECURITY'' ''SUSPICIOUS_ACTIVITY'' (Some macAddress) None None None
                      [(''activity'', ''Device blocked: '' @ reason)] ''WARNING'' s3
           in (True, s4)))"

section \<open>States reached one operation at a time, and the session invariants\<close>

text \<open>
  The states the program reaches from an empty sessions table when its operations run one
  at a time: every step is a whole operation, so that nothing runs between the two parts
  of a voucher login. Each rule but the last is one of the operations that write the
  sessions table; every other operation leaves that table as it is, whatever it does to
  the other tables, and is covered by the last rule.
\<close>

inductive serially_reachable :: "config \<Rightarrow> state \<Rightarrow> bool" for cfg :: config where
  initial: "sessions s = [] \<Longrightarrow> serially_reachable cfg s"
| voucher_login:
    "serially_reachable cfg s \<Longrightarrow>
     serially_reachable cfg (snd (authenticateWithVoucher cfg now sessionToken code macAddress ipAddress s))"
| credentials_login:
    "serially_reachable cfg s \<Longrightarrow>
     serially_reachable cfg (snd (authenticateWithCredentials cfg now sessionToken username password
                           macAddress ipAddress s))"
| firewall_for_session:
    "serially_reachable cfg s \<Longrightarrow> serially_reachable cfg (snd (createSessionWithFirewall cfg sessionId s))"
| refresh: "serially_reachable cfg s \<Longrightarrow> serially_reachable cfg (snd (refreshSessionRules cfg now sessionId s))"
| refresh_all: "serially_reachable cfg s \<Longrightarrow> serially_reachable cfg (snd (refreshAllSessionRules cfg now s))"
| logout: "serially_reachable cfg s \<Longrightarrow> serially_reachable cfg (snd (logoutSession cfg sessionId s))"
| logout_device: "serially_reachable cfg s \<Longrightarrow> serially_reachable cfg (snd (logoutDevice cfg macAddress s))"
| force_disconnect:
    "serially_reachable cfg s \<Longrightarrow> serially_reachable cfg (snd (forceDisconnect cfg sessionId adminId reason s))"
| validate: "serially_reachable cfg s \<Longrightarrow> serially_reachable cfg (snd (validateSession now decoded s))"
| end_session: "serially_reachable cfg s \<Longrightarrow> serially_reachable cfg (endSession cfg sessionId s)"
| disconnect: "serially_reachable cfg s \<Longrightarrow> serially_reachable cfg (snd (disconnectSession sessionId s))"
| extend: "serially_reachable cfg s \<Longrightarrow> serially_reachable cfg (snd (extendSession sessionId additionalHours s))"
| block: "serially_reachable cfg s \<Longrightarrow> serially_reachable cfg (snd (blockDevice macAddress reason s))"
| cleanup: "serially_reachable cfg s \<Longrightarrow> serially_reachable cfg (snd (db_cleanupExpiredSessions now s))"
| other: "serially_reachable cfg s \<Longrightarrow> sessions s' = sessions s \<Longrightarrow> serially_reachable cfg s'"

text \<open>(I1) at most one ACTIVE session per MAC.\<close>

definition one_active_session_per_mac :: "state \<Rightarrow> bool" where
  "one_active_session_per_mac s \<longleftrightarrow>
     distinct (map s_mac_address (filter s_is_active (sessions s)))"

text \<open>At most one ACTIVE session per MAC and voucher, and per MAC and user account.\<close>

definition one_active_session_per_credential :: "state \<Rightarrow> bool" where
  "one_active_session_per_credential s \<longleftrightarrow>
     distinct (map (\<lambda>r. (s_mac_address r, s_voucher_id r))
                (filter (\<lambda>r. s_is_active r \<and> s_voucher_id r \<noteq> None) (sessions s))) \<and>
     distinct (map (\<lambda>r. (s_mac_address r, s_user_id r))
                (filter (\<lambda>r. s_is_active r \<and> s_user_id r \<noteq> None) (sessions s)))"

text \<open>What the two invariants read of a session row.\<close>

definition session_key :: "session \<Rightarrow> string \<times> nat option \<times> nat option \<times> bool" where
  "session_key r = (s_mac_address r, s_voucher_id r, s_user_id r, s_is_active r)"

text \<open>
  \<open>ys\<close> is \<open>xs\<close> row by row, with the MAC, the voucher and the user of every row as they
  were and no row made ACTIVE.
\<close>

definition only_ends :: "session list \<Rightarrow> session list \<Rightarrow> bool" where
  "only_ends xs ys \<longleftrightarrow>
     list_all2 (\<lambda>x y. s_mac_address y = s_mac_address x \<and> s_voucher_id y = s_voucher_id x \<and>
                      s_user_id y = s_user_id x \<and> (s_is_active y \<longrightarrow> s_is_active x)) xs ys"

section \<open>Properties of the normalisers\<close>

lemma join_nonempty: "ps \<noteq> [] \<Longrightarrow> [] \<notin> set ps \<Longrightarrow> join sep ps \<noteq> []"
  by (induction sep ps rule: join.induct) auto

lemma match_pairs_no_empty: "[] \<notin> set (match_pairs s)"
  by (induction s rule: match_pairs.induct) auto

lemma of_char_lower: "is_upper c \<Longrightarrow> (of_char (toLowerCase_char c) :: nat) = of_char c + 32"
  by (auto simp: toLowerCase_char_def Let_def is_upper_def)

lemma of_char_lower_id: "\<not> is_upper c \<Longrightarrow> toLowerCase_char c = c"
  by (auto simp: toLowerCase_char_def Let_def is_upper_def)

lemma char_eq_nat: "c = d \<longleftrightarrow> (of_char c :: nat) = of_char d"
  by simp

lemma dot_matches_nat: "dot_matches c \<longleftrightarrow> (of_char c :: nat) \<noteq> 10 \<and> (of_char c :: nat) \<noteq> 13"
  by (simp add: dot_matches_def char_eq_nat[of c])

lemma dot_matches_toLowerCase_char: "dot_matches (toLowerCase_char c) = dot_matches c"
  by (cases "is_upper c")
     (auto simp: dot_matches_nat of_char_lower of_char_lower_id, auto simp: is_upper_def)

lemma toLowerCase_char_idem: "toLowerCase_char (toLowerCase_char c) = toLowerCase_char c"
proof (cases "is_upper c")
  case True
  then have "\<not> is_upper (toLowerCase_char c)"
    by (auto simp: is_upper_def[of "toLowerCase_char c"] of_char_lower) (auto simp: is_upper_def)
  then show ?thesis by (rule of_char_lower_id)
next
  case False then show ?thesis by (simp add: of_char_lower_id)
qed

lemma toLowerCase_char_sep: "c \<noteq> CHR '':'' \<Longrightarrow> c \<noteq> CHR ''-'' \<Longrightarrow> toLowerCase_char c \<noteq> CHR '':'' \<and> toLowerCase_char c \<noteq> CHR ''-''"
  by (cases "is_upper c")
     (auto simp: char_eq_nat[of "toLowerCase_char c"] of_char_lower of_char_lower_id char_eq_nat[of c],
      auto simp: is_upper_def)

lemma toLowerCase_char_colon: "toLowerCase_char CHR '':'' = CHR '':''"
  by (simp add: toLowerCase_char_def)

lemma match_pairs_all: "list_all dot_matches s \<Longrightarrow> length (match_pairs s) = length s div 2"
  by (induction s rule: match_pairs.induct) auto

text \<open>
  Claim C10, as amended. The three normalisers are not equal as functions: they part on
  \<open>null\<close>, on the empty string and on every input whose separator-free form is not 12
  characters long. On an input whose separator-free form has exactly 12 characters and
  which holds no line terminator, the binding service's \<open>normalizeMac\<close> and the helpers'
  \<open>normalizeMac\<close> both return the string that \<open>normalizeMacAddress\<close> returns.
\<close>

theorem normalizers_agree_on_twelve:
  assumes "length (clean_mac m) = 12" and "list_all dot_matches m"
  shows "normalizeMac (Some m) = Str (normalizeMacAddress (Some m)) \<and>
         helpers_normalizeMac (Some m) = Str (normalizeMacAddress (Some m))"
proof -
  have "list_all dot_matches (clean_mac m)"
    using assms(2) by (auto simp: clean_mac_def toLowerCase_def strip_separators_def list_all_iff dot_matches_toLowerCase_char)
  then have "length (match_pairs (clean_mac m)) = 6"
    using assms(1) by (simp add: match_pairs_all)
  then obtain p ps where ps: "match_pairs (clean_mac m) = p # ps"
    by (cases "match_pairs (clean_mac m)") auto
  have "[] \<notin> set (p # ps)" using match_pairs_no_empty[of "clean_mac m"] ps by simp
  then have ne: "join '':'' (p # ps) \<noteq> []" by (intro join_nonempty) auto
  have "m \<noteq> []" using assms(1) by (auto simp: clean_mac_def toLowerCase_def strip_separators_def)
  then show ?thesis using ps ne assms(1)
    by (simp add: normalizeMac_def helpers_normalizeMac_def normalizeMacAddress_def)
qed

text \<open>C10, witness: the hyphenated upper-case form of a MAC.\<close>

theorem normalizers_agree_on_twelve_witness:
  "length (clean_mac ''AA-BB-CC-DD-EE-FF'') = 12 \<and>
   list_all dot_matches ''AA-BB-CC-DD-EE-FF'' \<and>
   normalizeMac (Some ''AA-BB-CC-DD-EE-FF'') =
     Str (normalizeMacAddress (Some ''AA-BB-CC-DD-EE-FF'')) \<and>
   helpers_normalizeMac (Some ''AA-BB-CC-DD-EE-FF'') =
     Str (normalizeMacAddress (Some ''AA-BB-CC-DD-EE-FF'')) \<and>
   normalizeMacAddress (Some ''AA-BB-CC-DD-EE-FF'') = ''aa:bb:cc:dd:ee:ff''"
proof -
  have a: "length (clean_mac ''AA-BB-CC-DD-EE-FF'') = 12" by code_simp
  have b: "list_all dot_matches ''AA-BB-CC-DD-EE-FF''" by code_simp
  have c: "normalizeMacAddress (Some ''AA-BB-CC-DD-EE-FF'') = ''aa:bb:cc:dd:ee:ff''"
    by code_simp
  show ?thesis using normalizers_agree_on_twelve[OF a b] a b c by simp
qed

text \<open>
  C10, counterexample to the claim as stated: on the three-character input \<open>abc\<close> the
  auth service keeps the first pair, the binding service returns the input in lower case
  and the helpers return \<open>null\<close>; on \<open>null\<close> the auth service returns the all-zero MAC
  and the binding service \<open>null\<close>.
\<close>

theorem normalizers_differ_counterexample:
  "normalizeMacAddress (Some ''abc'') = ''ab'' \<and>
   normalizeMac (Some ''abc'') = Str ''abc'' \<and>
   helpers_normalizeMac (Some ''abc'') = Null \<and>
   normalizeMacAddress None = ''00:00:00:00:00:00'' \<and>
   normalizeMac None = Null"
  by code_simp

section \<open>Frame and uniqueness lemmas for the binding table\<close>

lemma logEvent_frame [simp]:
  "sessions (logEvent c t m i u sid d sev s) = sessions s"
  "mac_ip_bindings (logEvent c t m i u sid d sev s) = mac_ip_bindings s"
  "firewall_rules (logEvent c t m i u sid d sev s) = firewall_rules s"
  "devices (logEvent c t m i u sid d sev s) = devices s"
  "vouchers (logEvent c t m i u sid d sev s) = vouchers s"
  "users (logEvent c t m i u sid d sev s) = users s"
  "seq_sessions (logEvent c t m i u sid d sev s) = seq_sessions s"
  "seq_bindings (logEvent c t m i u sid d sev s) = seq_bindings s"
  "seq_rules (logEvent c t m i u sid d sev s) = seq_rules s"
  "seq_devices (logEvent c t m i u sid d sev s) = seq_devices s"
  "trace (logEvent c t m i u sid d sev s) = trace s"
  by (simp_all add: logEvent_def Let_def)

lemma session_exists_logEvent [simp]:
  "session_exists (logEvent c t m i u sid d sev s) x = session_exists s x"
  by (simp add: session_exists_def)

lemma retire_bindings_frame [simp]:
  "sessions (retire_bindings P s) = sessions s"
  "firewall_rules (retire_bindings P s) = firewall_rules s"
  "seq_bindings (retire_bindings P s) = seq_bindings s"
  "trace (retire_bindings P s) = trace s"
  by (simp_all add: retire_bindings_def)

lemma session_exists_retire [simp]:
  "session_exists (retire_bindings P s) x = session_exists s x"
  by (simp add: session_exists_def)

lemma filter_map_retire:
  "filter Q (map (\<lambda>b. if P b then b\<lparr>b_is_active := False\<rparr> else b) bs) =
   filter (\<lambda>b. Q b \<and> \<not> P b) bs"
  if "\<And>b. Q (b\<lparr>b_is_active := False\<rparr>) = False"
  using that by (induction bs) auto

lemma active_retire:
  "active_bindings (retire_bindings P s) = filter (\<lambda>b. \<not> P b) (active_bindings s)"
  by (simp add: active_bindings_def retire_bindings_def filter_map_retire conj_commute)

lemma distinct_map_unique:
  "distinct (map f xs) \<Longrightarrow> x \<in> set xs \<Longrightarrow> y \<in> set xs \<Longrightarrow> f x = f y \<Longrightarrow> x = y"
  by (auto simp: distinct_map dest: inj_onD)

lemma distinct_map_filter_conj:
  assumes "distinct (map f (filter Q xs))"
  shows "distinct (map f (filter (\<lambda>x. R x \<and> Q x) xs))"
proof -
  have "filter (\<lambda>x. R x \<and> Q x) xs = filter R (filter Q xs)"
    by (simp add: conj_commute)
  then show ?thesis using assms by (simp only: distinct_map_filter)
qed

lemma retire_first_conflict:
  assumes dist: "distinct (map key (filter Q (active_bindings s)))"
    and K: "\<And>b. K b \<Longrightarrow> b_is_active b \<and> Q b \<and> key b = k"
    and s': "s' = (case find K (mac_ip_bindings s) of None \<Rightarrow> s
                   | Some e \<Rightarrow> retire_bindings (\<lambda>b. b_id b = b_id e) (ev e))"
    and ev: "\<And>e. mac_ip_bindings (ev e) = mac_ip_bindings s"
  shows "\<exists>R. active_bindings s' = filter R (active_bindings s)"
    and "\<forall>b\<in>set (active_bindings s'). \<not> K b"
proof -
  show "\<exists>R. active_bindings s' = filter R (active_bindings s)"
  proof (cases "find K (mac_ip_bindings s)")
    case None
    then have "active_bindings s' = filter (\<lambda>_. True) (active_bindings s)" using s' by simp
    then show ?thesis by blast
  next
    case (Some e)
    then have "active_bindings s' = filter (\<lambda>b. b_id b \<noteq> b_id e) (active_bindings s)"
      using s' ev[of e] by (simp add: active_retire) (simp add: active_bindings_def)
    then show ?thesis by blast
  qed
  show "\<forall>b\<in>set (active_bindings s'). \<not> K b"
  proof (cases "find K (mac_ip_bindings s)")
    case None
    then have "s' = s" using s' by simp
    then show ?thesis using None by (auto simp: find_None_iff active_bindings_def)
  next
    case (Some e)
    then have e: "K e" "e \<in> set (mac_ip_bindings s)"
      by (auto simp: find_Some_iff)
    have act: "active_bindings s' = filter (\<lambda>b. b_id b \<noteq> b_id e) (active_bindings s)"
      using Some s' ev[of e] by (simp add: active_retire) (simp add: active_bindings_def)
    show ?thesis
    proof
      fix b assume b: "b \<in> set (active_bindings s')"
      show "\<not> K b"
      proof
        assume kb: "K b"
        have "b \<in> set (filter Q (active_bindings s))" using b act K[OF kb] by simp
        moreover have "e \<in> set (filter Q (active_bindings s))"
          using e K[OF e(1)] by (simp add: active_bindings_def)
        moreover have "key b = key e" using K[OF kb] K[OF e(1)] by simp
        ultimately have "b = e" using dist by (rule_tac distinct_map_unique)
        then show False using b act by simp
      qed
    qed
  qed
qed


lemma active_insert_or_replace:
  "active_bindings (insert_or_replace_binding m ip sid ex s) =
     filter (\<lambda>b. \<not> (b_mac_address b = m \<and> b_ip_address b = ip)) (active_bindings s) @
     [\<lparr> b_id = Suc (seq_bindings s), b_mac_address = m, b_ip_address = ip,
        b_session_id = sid, b_expires_at = ex, b_is_active = True \<rparr>]"
  by (simp add: active_bindings_def insert_or_replace_binding_def) (metis (mono_tags, lifting) filter_cong)

lemma other_bindings_alt:
  "other_bindings m ip s =
     filter (\<lambda>b. \<not> (b_mac_address b = m \<and> b_ip_address b = ip)) (active_bindings s)"
  by (simp add: other_bindings_def active_bindings_def conj_commute)

lemma createBinding_steps:
  assumes nm: "normalizeMac mac = Str nm"
    and d1: "distinct (map b_mac_address (other_bindings nm ip s))"
    and d2: "distinct (map b_ip_address (other_bindings nm ip s))"
  shows "\<exists>s2 R. createBinding mac ip sid ex s =
                  (if (case sid of None \<Rightarrow> True | Some i \<Rightarrow> session_exists s i)
                   then (Created (Suc (seq_bindings s)) nm ip,
                         insert_or_replace_binding nm ip sid ex s2)
                   else (CreateFailed, s2)) \<and>
                active_bindings s2 = filter R (active_bindings s) \<and>
                seq_bindings s2 = seq_bindings s \<and>
                sessions s2 = sessions s \<and>
                firewall_rules s2 = firewall_rules s \<and>
                trace s2 = trace s \<and>
                (\<forall>b\<in>set (active_bindings s2). b_mac_address b = nm \<longleftrightarrow> b_ip_address b = ip)"
proof -
  define K1 where "K1 = (\<lambda>b::binding. b_mac_address b = nm \<and> b_is_active b \<and> b_ip_address b \<noteq> ip)"
  define K2 where "K2 = (\<lambda>b::binding. b_ip_address b = ip \<and> b_is_active b \<and> b_mac_address b \<noteq> nm)"
  define s1 where "s1 = (case find K1 (mac_ip_bindings s) of None \<Rightarrow> s
     | Some e \<Rightarrow> retire_bindings (\<lambda>b. b_id b = b_id e)
         (logEvent ''SECURITY'' ''MAC_IP_CHANGE'' (Some nm) None None sid
            [(''oldIp'', b_ip_address e), (''newIp'', ip)] ''WARNING'' s))"
  define s2 where "s2 = (case find K2 (mac_ip_bindings s1) of None \<Rightarrow> s1
     | Some e \<Rightarrow> retire_bindings (\<lambda>b. b_id b = b_id e)
         (logEvent ''SECURITY'' ''IP_CONFLICT'' None (Some ip) None sid
            [(''existingMac'', b_mac_address e), (''newMac'', nm)] ''WARNING'' s1))"
  let ?Q = "\<lambda>b. \<not> (b_mac_address b = nm \<and> b_ip_address b = ip)"
  have q1: "distinct (map b_mac_address (filter ?Q (active_bindings s)))"
    using d1 by (simp add: other_bindings_alt)
  have q2: "distinct (map b_ip_address (filter ?Q (active_bindings s)))"
    using d2 by (simp add: other_bindings_alt)
  have r1: "\<exists>R. active_bindings s1 = filter R (active_bindings s)"
    by (rule retire_first_conflict(1)[OF q1 _ s1_def, where k = nm]) (auto simp: K1_def)
  have k1: "\<forall>b\<in>set (active_bindings s1). \<not> K1 b"
    by (rule retire_first_conflict(2)[OF q1 _ s1_def, where k = nm]) (auto simp: K1_def)
  from r1 obtain R1 where R1: "active_bindings s1 = filter R1 (active_bindings s)" by blast
  have q2': "distinct (map b_ip_address (filter ?Q (active_bindings s1)))"
    using q2 by (simp add: R1 distinct_map_filter_conj)
  have r2: "\<exists>R. active_bindings s2 = filter R (active_bindings s1)"
    by (rule retire_first_conflict(1)[OF q2' _ s2_def, where k = ip]) (auto simp: K2_def)
  have k2: "\<forall>b\<in>set (active_bindings s2). \<not> K2 b"
    by (rule retire_first_conflict(2)[OF q2' _ s2_def, where k = ip]) (auto simp: K2_def)
  from r2 obtain R2 where R2: "active_bindings s2 = filter R2 (active_bindings s1)" by blast
  have seq1: "seq_bindings s1 = seq_bindings s" and ex1: "\<And>i. session_exists s1 i = session_exists s i"
    and fr1: "sessions s1 = sessions s" "firewall_rules s1 = firewall_rules s" "trace s1 = trace s"
    by (auto simp: s1_def split: option.splits)
  have seq2: "seq_bindings s2 = seq_bindings s" and ex2: "\<And>i. session_exists s2 i = session_exists s i"
    and fr2: "sessions s2 = sessions s" "firewall_rules s2 = firewall_rules s" "trace s2 = trace s"
    using seq1 ex1 fr1 by (auto simp: s2_def split: option.splits)
  have act: "active_bindings s2 = filter (\<lambda>b. R1 b \<and> R2 b) (active_bindings s)"
    by (simp add: R1 R2 conj_commute)
  have both: "\<forall>b\<in>set (active_bindings s2). b_mac_address b = nm \<longleftrightarrow> b_ip_address b = ip"
  proof
    fix b assume b: "b \<in> set (active_bindings s2)"
    then have "b \<in> set (active_bindings s1)" "b_is_active b"
      by (auto simp: R2) (auto simp: active_bindings_def)
    then show "b_mac_address b = nm \<longleftrightarrow> b_ip_address b = ip"
      using k1 k2 b by (auto simp: K1_def K2_def)
  qed
  have "createBinding mac ip sid ex s =
          (if (case sid of None \<Rightarrow> True | Some i \<Rightarrow> session_exists s2 i)
           then (Created (Suc (seq_bindings s2)) nm ip,
                 insert_or_replace_binding nm ip sid ex s2)
           else (CreateFailed, s2))"
    unfolding createBinding_def nm s2_def s1_def K1_def K2_def by (simp add: Let_def)
  then have "createBinding mac ip sid ex s =
          (if (case sid of None \<Rightarrow> True | Some i \<Rightarrow> session_exists s i)
           then (Created (Suc (seq_bindings s)) nm ip,
                 insert_or_replace_binding nm ip sid ex s2)
           else (CreateFailed, s2))"
    by (simp add: ex2 seq2 cong: option.case_cong)
  then show ?thesis using act seq2 both fr2 by blast
qed

lemma createBinding_establishes_uniqueness:
  assumes nm: "normalizeMac mac = Str nm"
    and d1: "distinct (map b_mac_address (other_bindings nm ip s))"
    and d2: "distinct (map b_ip_address (other_bindings nm ip s))"
    and fk: "case sid of None \<Rightarrow> True | Some i \<Rightarrow> session_exists s i"
  shows "B1 (snd (createBinding mac ip sid ex s)) \<and> B2 (snd (createBinding mac ip sid ex s))"
proof -
  from createBinding_steps[OF nm d1 d2, of sid ex] fk
  obtain s2 R where st: "snd (createBinding mac ip sid ex s) = insert_or_replace_binding nm ip sid ex s2"
    and act: "active_bindings s2 = filter R (active_bindings s)"
    and both: "\<forall>b\<in>set (active_bindings s2). b_mac_address b = nm \<longleftrightarrow> b_ip_address b = ip"
    by auto
  let ?Q = "\<lambda>b. \<not> (b_mac_address b = nm \<and> b_ip_address b = ip)"
  have rest: "filter ?Q (active_bindings s2) = filter R (other_bindings nm ip s)"
    unfolding act other_bindings_alt by (simp add: conj_commute)
  have "distinct (map b_mac_address (filter ?Q (active_bindings s2)))"
       "distinct (map b_ip_address (filter ?Q (active_bindings s2)))"
    using d1 d2 unfolding rest by (simp_all add: distinct_map_filter)
  moreover have "nm \<notin> b_mac_address ` set (filter ?Q (active_bindings s2))"
                "ip \<notin> b_ip_address ` set (filter ?Q (active_bindings s2))"
    using both by auto
  ultimately show ?thesis
    by (simp add: st B1_def B2_def active_insert_or_replace)
qed

section \<open>The binding service accepts what the auth service stores\<close>

lemma match_pairs_elems:
  "q \<in> set (match_pairs s) \<Longrightarrow> length q = 2 \<and> set q \<subseteq> set s \<and> list_all dot_matches q"
  by (induction s rule: match_pairs.induct) (auto split: if_splits)

lemma clean_mac_chars:
  assumes "c \<in> set (clean_mac m)"
  shows "c \<noteq> CHR '':'' \<and> c \<noteq> CHR ''-'' \<and> toLowerCase_char c = c"
proof -
  from assms obtain d where d: "d \<in> set m" "d \<noteq> CHR '':''" "d \<noteq> CHR ''-''" "c = toLowerCase_char d"
    by (auto simp: clean_mac_def toLowerCase_def strip_separators_def)
  then show ?thesis using toLowerCase_char_sep[of d] by (simp add: toLowerCase_char_idem)
qed

lemma strip_join:
  "\<forall>q\<in>set ps. \<forall>c\<in>set q. c \<noteq> CHR '':'' \<and> c \<noteq> CHR ''-'' \<Longrightarrow>
   strip_separators (join '':'' ps) = concat ps"
  by (induction "'':''" ps rule: join.induct) (auto simp: strip_separators_def)

lemma lower_join:
  "\<forall>q\<in>set ps. \<forall>c\<in>set q. toLowerCase_char c = c \<Longrightarrow>
   toLowerCase (join '':'' ps) = join '':'' ps"
  by (induction "'':''" ps rule: join.induct)
     (auto simp: toLowerCase_def toLowerCase_char_colon map_idI)

lemma lower_concat:
  "\<forall>q\<in>set ps. \<forall>c\<in>set q. toLowerCase_char c = c \<Longrightarrow> toLowerCase (concat ps) = concat ps"
  by (auto simp: toLowerCase_def intro!: map_idI)

lemma match_pairs_concat:
  "\<forall>q\<in>set ps. length q = 2 \<and> list_all dot_matches q \<Longrightarrow> match_pairs (concat ps) = ps"
proof (induction ps)
  case Nil then show ?case by simp
next
  case (Cons q ps)
  then obtain a b where q: "q = [a, b]"
    by (cases q; cases "tl q") auto
  with Cons show ?case by simp
qed

lemma normalizeMac_zero: "normalizeMac (Some ''00:00:00:00:00:00'') = Str ''00:00:00:00:00:00''"
  by code_simp

lemma normalizeMac_normalizeMacAddress:
  "normalizeMac (Some (normalizeMacAddress x)) = Str (normalizeMacAddress x)"
proof -
  consider (zero) "normalizeMacAddress x = ''00:00:00:00:00:00''"
    | (pairs) m p ps where "x = Some m" "match_pairs (clean_mac m) = p # ps"
        "normalizeMacAddress x = join '':'' (p # ps)"
  proof (cases x)
    case None then show ?thesis using that(1) by (simp add: normalizeMacAddress_def)
  next
    case (Some m)
    show ?thesis
    proof (cases "match_pairs (clean_mac m)")
      case Nil then show ?thesis using that(1) Some by (simp add: normalizeMacAddress_def)
    next
      case (Cons p ps)
      show ?thesis
      proof (cases "m = [] \<or> join '':'' (p # ps) = []")
        case True then show ?thesis using that(1) Some Cons
          by (auto simp: normalizeMacAddress_def)
      next
        case False then show ?thesis using that(2)[of m p ps] Some Cons
          by (auto simp: normalizeMacAddress_def)
      qed
    qed
  qed
  then show ?thesis
  proof cases
    case zero then show ?thesis by (simp add: normalizeMac_zero)
  next
    case pairs
    let ?P = "p # ps"
    have el: "\<forall>q\<in>set ?P. length q = 2 \<and> list_all dot_matches q"
      using match_pairs_elems[of _ "clean_mac m"] pairs(2) by metis
    have ch: "\<forall>q\<in>set ?P. \<forall>c\<in>set q. c \<noteq> CHR '':'' \<and> c \<noteq> CHR ''-'' \<and> toLowerCase_char c = c"
    proof (intro ballI)
      fix q c assume "q \<in> set ?P" "c \<in> set q"
      then have "c \<in> set (clean_mac m)"
        using match_pairs_elems[of q "clean_mac m"] pairs(2) by auto
      then show "c \<noteq> CHR '':'' \<and> c \<noteq> CHR ''-'' \<and> toLowerCase_char c = c"
        by (rule clean_mac_chars)
    qed
    have "[] \<notin> set ?P" using el by auto
    then have ne: "join '':'' ?P \<noteq> []" by (intro join_nonempty) auto
    have "strip_separators (join '':'' ?P) = concat ?P"
      using ch by (intro strip_join) blast
    moreover have "toLowerCase (concat ?P) = concat ?P"
      using ch by (intro lower_concat) blast
    ultimately have cl: "clean_mac (join '':'' ?P) = concat ?P"
      unfolding clean_mac_def by (simp only:)
    have lo: "toLowerCase (join '':'' ?P) = join '':'' ?P"
      using ch by (intro lower_join) blast
    have mp: "match_pairs (concat ?P) = ?P" using el by (rule match_pairs_concat)
    show ?thesis
      unfolding pairs(3) normalizeMac_def using ne cl lo mp by (simp del: join.simps concat.simps)
  qed
qed

section \<open>Frame lemmas for the packet-filter services\<close>

lemma executeCommand_fields [simp]:
  "sessions (snd (executeCommand cfg tool c d s)) = sessions s"
  "mac_ip_bindings (snd (executeCommand cfg tool c d s)) = mac_ip_bindings s"
  "firewall_rules (snd (executeCommand cfg tool c d s)) = firewall_rules s"
  "trace (snd (executeCommand cfg tool c d s)) = trace s @ [EnforcerCommand (tool @ '' '' @ c)]"
  by (simp_all add: executeCommand_def Let_def)

lemma executeCommand_result:
  "fst (executeCommand cfg tool c d s) \<longleftrightarrow>
     isSimulationMode cfg \<or> host cfg (trace s) (tool @ '' '' @ c)"
  by (simp add: executeCommand_def Let_def)

lemma storeRule_fields [simp]:
  "sessions (storeRule cfg t a c m i sid s) = sessions s"
  "mac_ip_bindings (storeRule cfg t a c m i sid s) = mac_ip_bindings s"
  "firewall_rules (storeRule cfg t a c m i sid s) =
     firewall_rules s @
     (if session_exists s sid
      then [\<lparr> r_id = Suc (seq_rules s), r_rule_type = t, r_rule_action = a,
              r_rule_command = c, r_session_id = sid, r_mac_address = m, r_ip_address = i,
              r_is_active = True, r_is_simulated = isSimulationMode cfg \<rparr>]
      else [])"
  "trace (storeRule cfg t a c m i sid s) =
     trace s @ (if session_exists s sid then [LedgerInsert c] else [])"
  by (simp_all add: storeRule_def)

lemma markRulesRemoved_fields [simp]:
  "sessions (markRulesRemoved sid t s) = sessions s"
  "mac_ip_bindings (markRulesRemoved sid t s) = mac_ip_bindings s"
  "trace (markRulesRemoved sid t s) = trace s"
  by (simp_all add: markRulesRemoved_def)

lemma session_exists_cong:
  "sessions s' = sessions s \<Longrightarrow> session_exists s' i = session_exists s i"
  by (simp add: session_exists_def)

lemma execute_each_sessions [simp]:
  "sessions (snd (execute_each cfg tool cs s)) = sessions s"
  by (induction cs arbitrary: s) (auto simp: split_beta Let_def)

lemma execute_each_bindings [simp]:
  "mac_ip_bindings (snd (execute_each cfg tool cs s)) = mac_ip_bindings s"
  by (induction cs arbitrary: s) (auto simp: split_beta Let_def)

lemma execute_each_rules [simp]:
  "firewall_rules (snd (execute_each cfg tool cs s)) = firewall_rules s"
  by (induction cs arbitrary: s) (auto simp: split_beta Let_def)

lemma execute_each_trace:
  "trace (snd (execute_each cfg tool cs s)) =
     trace s @ map (\<lambda>(d, c). EnforcerCommand (tool @ '' '' @ c)) cs"
  by (induction cs arbitrary: s) (auto simp: split_beta Let_def)

lemma apply_each_sessions [simp]:
  "sessions (snd (apply_each cfg tool a m i sid cs s)) = sessions s"
  by (induction cs arbitrary: s) (auto simp: split_beta Let_def)

lemma apply_each_bindings [simp]:
  "mac_ip_bindings (snd (apply_each cfg tool a m i sid cs s)) = mac_ip_bindings s"
  by (induction cs arbitrary: s) (auto simp: split_beta Let_def)

lemma apply_each_trace:
  "trace (snd (apply_each cfg tool a m i sid cs s)) =
     trace s @
     concat (map (\<lambda>(d, c). EnforcerCommand (tool @ '' '' @ c) #
               (if session_exists s sid then [LedgerInsert c] else [])) cs)"
proof (induction cs arbitrary: s)
  case Nil show ?case by simp
next
  case (Cons x cs)
  obtain d c where x: "x = (d, c)" by (cases x)
  define s2 where "s2 = storeRule cfg tool a c m i sid (snd (executeCommand cfg tool c d s))"
  have ex: "session_exists s2 sid = session_exists s sid"
    unfolding s2_def by (intro session_exists_cong) simp
  have "snd (apply_each cfg tool a m i sid (x # cs) s) = snd (apply_each cfg tool a m i sid cs s2)"
    by (simp add: x split_beta s2_def Let_def)
  then show ?case
    by (simp only: Cons[of s2] ex) (simp add: s2_def x session_exists_def)
qed

lemma apply_each_rules:
  "\<exists>new. firewall_rules (snd (apply_each cfg tool a m i sid cs s)) = firewall_rules s @ new \<and>
         (\<forall>r\<in>set new. r_session_id r = sid \<and> r_is_active r) \<and>
         length new = (if session_exists s sid then length cs else 0)"
proof (induction cs arbitrary: s)
  case Nil show ?case by simp
next
  case (Cons x cs)
  obtain d c where x: "x = (d, c)" by (cases x)
  define s2 where "s2 = storeRule cfg tool a c m i sid (snd (executeCommand cfg tool c d s))"
  have ex: "session_exists s2 sid = session_exists s sid"
    unfolding s2_def by (intro session_exists_cong) simp
  have st: "snd (apply_each cfg tool a m i sid (x # cs) s) = snd (apply_each cfg tool a m i sid cs s2)"
    by (simp add: x split_beta s2_def Let_def)
  from Cons[of s2] obtain new where
    new: "firewall_rules (snd (apply_each cfg tool a m i sid cs s2)) = firewall_rules s2 @ new"
      "\<forall>r\<in>set new. r_session_id r = sid \<and> r_is_active r"
      "length new = (if session_exists s2 sid then length cs else 0)"
    by blast
  obtain new1 where new1: "firewall_rules s2 = firewall_rules s @ new1"
    "\<forall>r\<in>set new1. r_session_id r = sid \<and> r_is_active r"
    "length new1 = (if session_exists s sid then 1 else 0)"
    by (simp add: s2_def session_exists_def)
  have "firewall_rules (snd (apply_each cfg tool a m i sid (x # cs) s)) = firewall_rules s @ (new1 @ new)"
    by (simp add: st new(1) new1(1))
  moreover have "\<forall>r\<in>set (new1 @ new). r_session_id r = sid \<and> r_is_active r"
    using new(2) new1(2) by auto
  moreover have "length (new1 @ new) = (if session_exists s sid then length (x # cs) else 0)"
    using new(3) new1(3) ex by simp
  ultimately show ?case by blast
qed

lemma apply_each_result:
  "isSimulationMode cfg \<Longrightarrow> every (fst (apply_each cfg tool a m i sid cs s))"
  by (induction cs arbitrary: s) (auto simp: every_def split_beta Let_def executeCommand_result)

lemma execute_each_result:
  "isSimulationMode cfg \<Longrightarrow> every (fst (execute_each cfg tool cs s))"
  by (induction cs arbitrary: s) (auto simp: every_def split_beta Let_def executeCommand_result)

section \<open>Grants and the binding table\<close>

lemma createBinding_fields [simp]:
  "sessions (snd (createBinding mac ip sid ex s)) = sessions s"
  "firewall_rules (snd (createBinding mac ip sid ex s)) = firewall_rules s"
  "trace (snd (createBinding mac ip sid ex s)) = trace s"
proof -
  have "sessions (snd (createBinding mac ip sid ex s)) = sessions s \<and>
        firewall_rules (snd (createBinding mac ip sid ex s)) = firewall_rules s \<and>
        trace (snd (createBinding mac ip sid ex s)) = trace s"
  proof (cases "normalizeMac mac")
    case (Str nm)
    define K1 where "K1 = (\<lambda>b::binding. b_mac_address b = nm \<and> b_is_active b \<and> b_ip_address b \<noteq> ip)"
    define K2 where "K2 = (\<lambda>b::binding. b_ip_address b = ip \<and> b_is_active b \<and> b_mac_address b \<noteq> nm)"
    define s1 where "s1 = (case find K1 (mac_ip_bindings s) of None \<Rightarrow> s
       | Some e \<Rightarrow> retire_bindings (\<lambda>b. b_id b = b_id e)
           (logEvent ''SECURITY'' ''MAC_IP_CHANGE'' (Some nm) None None sid
              [(''oldIp'', b_ip_address e), (''newIp'', ip)] ''WARNING'' s))"
    define s2 where "s2 = (case find K2 (mac_ip_bindings s1) of None \<Rightarrow> s1
       | Some e \<Rightarrow> retire_bindings (\<lambda>b. b_id b = b_id e)
           (logEvent ''SECURITY'' ''IP_CONFLICT'' None (Some ip) None sid
              [(''existingMac'', b_mac_address e), (''newMac'', nm)] ''WARNING'' s1))"
    have fr1: "sessions s1 = sessions s" "firewall_rules s1 = firewall_rules s" "trace s1 = trace s"
      by (auto simp: s1_def split: option.splits)
    have fr2: "sessions s2 = sessions s" "firewall_rules s2 = firewall_rules s" "trace s2 = trace s"
      using fr1 by (auto simp: s2_def split: option.splits)
    have "snd (createBinding mac ip sid ex s) =
          (if (case sid of None \<Rightarrow> True | Some i \<Rightarrow> session_exists s2 i)
           then insert_or_replace_binding nm ip sid ex s2 else s2)"
      unfolding createBinding_def Str s2_def s1_def K1_def K2_def by (simp add: Let_def)
    then show ?thesis using fr2 by (simp add: insert_or_replace_binding_def)
  qed (simp_all add: createBinding_def)
  then show "sessions (snd (createBinding mac ip sid ex s)) = sessions s"
    "firewall_rules (snd (createBinding mac ip sid ex s)) = firewall_rules s"
    "trace (snd (createBinding mac ip sid ex s)) = trace s"
    by simp_all
qed

text \<open>The state a grant leaves, field by field, in terms of the state after its first step.\<close>

lemma grantClientAccess_sessions [simp]:
  "sessions (snd (grantClientAccess cfg sid m ip am ex s)) = sessions s"
proof (cases "createBinding (Some m) ip (Some sid) ex s")
  case (Pair outcome s1)
  then have "sessions s1 = sessions s" using createBinding_fields(1)[of "Some m" ip "Some sid" ex s] by simp
  then show ?thesis using Pair
    by (cases outcome)
       (simp_all add: grantClientAccess_def removePortalRedirect_def applyAuthenticatedRules_def
          applyClientIsolation_def split_beta Let_def)
qed

lemma grantClientAccess_bindings:
  "mac_ip_bindings (snd (grantClientAccess cfg sid m ip am ex s)) =
     mac_ip_bindings (snd (createBinding (Some m) ip (Some sid) ex s))"
proof (cases "createBinding (Some m) ip (Some sid) ex s")
  case (Pair outcome s1)
  then show ?thesis
    by (cases outcome)
       (simp_all add: grantClientAccess_def removePortalRedirect_def applyAuthenticatedRules_def
          applyClientIsolation_def split_beta Let_def)
qed



lemma B_cong:
  "mac_ip_bindings s' = mac_ip_bindings s \<Longrightarrow> B1 s' = B1 s"
  "mac_ip_bindings s' = mac_ip_bindings s \<Longrightarrow> B2 s' = B2 s"
  by (simp_all add: B1_def B2_def active_bindings_def)

lemma createBinding_preserves_uniqueness:
  assumes "B1 s" "B2 s"
  shows "B1 (snd (createBinding mac ip sid ex s)) \<and> B2 (snd (createBinding mac ip sid ex s))"
proof (cases "normalizeMac mac")
  case (Str nm)
  have d: "distinct (map b_mac_address (other_bindings nm ip s))"
          "distinct (map b_ip_address (other_bindings nm ip s))"
    using assms by (simp_all add: B1_def B2_def other_bindings_alt distinct_map_filter)
  show ?thesis
  proof (cases "case sid of None \<Rightarrow> True | Some i \<Rightarrow> session_exists s i")
    case True
    then show ?thesis by (rule createBinding_establishes_uniqueness[OF Str d])
  next
    case False
    from createBinding_steps[OF Str d, of sid ex] False
    obtain s2 R where "snd (createBinding mac ip sid ex s) = s2"
      "active_bindings s2 = filter R (active_bindings s)"
      by auto
    then show ?thesis using assms by (simp add: B1_def B2_def distinct_map_filter)
  qed
qed (use assms in \<open>simp_all add: createBinding_def\<close>)

lemma find_new_session:
  assumes "\<forall>r\<in>set rs. s_id r \<le> n" and "s_id new = Suc n"
  shows "find (\<lambda>r. s_id r = Suc n) (rs @ [new]) = Some new"
  using assms by (induction rs) auto

lemma createSession_preserves_uniqueness:
  assumes b: "B1 s" "B2 s" and wf: "\<forall>r\<in>set (sessions s). s_id r \<le> seq_sessions s"
  shows "B1 (snd (createSession cfg now tok uid vid did (normalizeMacAddress x) ip am h s)) \<and>
         B2 (snd (createSession cfg now tok uid vid did (normalizeMacAddress x) ip am h s))"
proof (cases "session_insertable s tok (or_null_nat uid) (or_null_nat vid) did")
  case False
  then show ?thesis using b by (simp add: createSession_def)
next
  case True
  define m where "m = normalizeMacAddress x"
  define ex where "ex = now + h * 60 * 60 * 1000"
  define sid where "sid = Suc (seq_sessions s)"
  define new where "new = \<lparr> s_id = sid, s_session_token = tok,
       s_user_id = or_null_nat uid, s_voucher_id = or_null_nat vid,
       s_device_id = did, s_mac_address = m, s_ip_address = ip, s_auth_method = am,
       s_expires_at = ex, s_is_active = True, s_firewall_applied = False \<rparr>"
  define s1 where "s1 = s\<lparr>sessions := sessions s @ [new], seq_sessions := sid\<rparr>"
  define s2 where "s2 = insert_or_replace_binding m ip (Some sid) (Some ex) s1"
  define s3 where "s3 = s2\<lparr>devices := map (\<lambda>d. if d_id d = did
                          then d\<lparr>d_total_sessions := Suc (d_total_sessions d)\<rparr> else d) (devices s2)\<rparr>"
  define s4 where "s4 = logEvent ''SESSION'' ''SESSION_CREATED'' (Some m) (Some ip) None
                   (Some sid) [] ''INFO'' s3"
  have ses4: "sessions s4 = sessions s @ [new]"
    by (simp add: s4_def s3_def s2_def s1_def insert_or_replace_binding_def)
  have found: "find (\<lambda>r. s_id r = sid) (sessions s4) = Some new"
    unfolding ses4 sid_def by (rule find_new_session[OF wf]) (simp add: new_def sid_def)
  have cs: "snd (createSession cfg now tok uid vid did m ip am h s) = snd (onSessionCreated cfg new s4)"
    using True found
    by (simp add: createSession_def Let_def s4_def s3_def s2_def s1_def new_def sid_def ex_def)
  have bind: "mac_ip_bindings (snd (onSessionCreated cfg new s4)) =
              mac_ip_bindings (snd (createBinding (Some m) ip (Some sid) (Some ex) s4))"
    by (simp add: onSessionCreated_def split_beta grantClientAccess_bindings new_def)
  have act4: "active_bindings s4 =
      filter (\<lambda>b. \<not> (b_mac_address b = m \<and> b_ip_address b = ip)) (active_bindings s) @
      [\<lparr> b_id = Suc (seq_bindings s), b_mac_address = m, b_ip_address = ip,
         b_session_id = Some sid, b_expires_at = Some ex, b_is_active = True \<rparr>]"
  proof -
    have "active_bindings s4 = active_bindings s2"
      by (simp add: active_bindings_def s4_def s3_def)
    also have "\<dots> = filter (\<lambda>b. \<not> (b_mac_address b = m \<and> b_ip_address b = ip)) (active_bindings s1) @
      [\<lparr> b_id = Suc (seq_bindings s1), b_mac_address = m, b_ip_address = ip,
         b_session_id = Some sid, b_expires_at = Some ex, b_is_active = True \<rparr>]"
      unfolding s2_def by (rule active_insert_or_replace)
    finally show ?thesis by (simp add: s1_def active_bindings_def)
  qed
  have oth: "other_bindings m ip s4 = other_bindings m ip s"
    by (simp add: other_bindings_alt act4)
  have d: "distinct (map b_mac_address (other_bindings m ip s4))"
          "distinct (map b_ip_address (other_bindings m ip s4))"
    unfolding oth using b by (simp_all add: B1_def B2_def other_bindings_alt distinct_map_filter)
  have nm: "normalizeMac (Some m) = Str m"
    unfolding m_def by (rule normalizeMac_normalizeMacAddress)
  have fk: "case Some sid of None \<Rightarrow> True | Some i \<Rightarrow> session_exists s4 i"
    by (simp add: session_exists_def ses4 new_def)
  have "B1 (snd (createBinding (Some m) ip (Some sid) (Some ex) s4)) \<and>
        B2 (snd (createBinding (Some m) ip (Some sid) (Some ex) s4))"
    by (rule createBinding_establishes_uniqueness[OF nm d fk])
  then show ?thesis
    unfolding m_def[symmetric] cs using B_cong[OF bind] by simp
qed

section \<open>What createBinding retires and logs\<close>




lemma retire_bindings_events [simp]: "event_logs (retire_bindings P s) = event_logs s"
  by (simp add: retire_bindings_def)





lemma validateBinding_frame:
  "sessions (snd (validateBinding now mac ip s)) = sessions s \<and>
   mac_ip_bindings (snd (validateBinding now mac ip s)) = mac_ip_bindings s \<and>
   firewall_rules (snd (validateBinding now mac ip s)) = firewall_rules s \<and>
   trace (snd (validateBinding now mac ip s)) = trace s"
  by (simp add: validateBinding_def split: js_mac.splits option.splits)

lemma validateBinding_result:
  assumes b1: "B1 s" and nm: "normalizeMac mac = Str nm"
  shows "(fst (validateBinding now mac ip s) = NO_BINDING \<longleftrightarrow>
            (\<forall>b\<in>set (active_bindings s). b_mac_address b \<noteq> nm)) \<and>
         (\<forall>e. fst (validateBinding now mac ip s) = IP_MISMATCH e \<longleftrightarrow>
            (\<exists>b\<in>set (active_bindings s). b_mac_address b = nm \<and> b_ip_address b = e \<and> e \<noteq> ip)) \<and>
         (fst (validateBinding now mac ip s) = EXPIRED \<longleftrightarrow>
            (\<exists>b\<in>set (active_bindings s). b_mac_address b = nm \<and> b_ip_address b = ip \<and>
               (\<exists>t. b_expires_at b = Some t \<and> t < now))) \<and>
         (\<forall>b. fst (validateBinding now mac ip s) = Valid b \<longleftrightarrow>
            b \<in> set (active_bindings s) \<and> b_mac_address b = nm \<and> b_ip_address b = ip \<and>
            \<not> (\<exists>t. b_expires_at b = Some t \<and> t < now))"
proof (cases "find (\<lambda>b. b_mac_address b = nm \<and> b_is_active b) (mac_ip_bindings s)")
  case None
  then have no: "\<forall>b\<in>set (active_bindings s). b_mac_address b \<noteq> nm"
    by (auto simp: find_None_iff active_bindings_def)
  have "fst (validateBinding now mac ip s) = NO_BINDING"
    using None nm by (simp add: validateBinding_def)
  then show ?thesis using no by auto
next
  case (Some b0)
  then have b0: "b0 \<in> set (active_bindings s)" "b_mac_address b0 = nm"
    by (auto simp: find_Some_iff active_bindings_def)
  have uniq: "b = b0" if "b \<in> set (active_bindings s)" "b_mac_address b = nm" for b
    using distinct_map_unique[of b_mac_address "active_bindings s" b b0] b1 that b0
    by (simp add: B1_def)
  have res: "fst (validateBinding now mac ip s) =
      (if b_ip_address b0 \<noteq> ip then IP_MISMATCH (b_ip_address b0)
       else if (case b_expires_at b0 of None \<Rightarrow> False | Some e \<Rightarrow> e < now) then EXPIRED
       else Valid b0)"
    using Some nm by (simp add: validateBinding_def)
  have ex_iff: "(\<exists>b\<in>set (active_bindings s). b_mac_address b = nm \<and> Q b) \<longleftrightarrow> Q b0" for Q
    using b0 uniq by blast
  have mem_iff: "b \<in> set (active_bindings s) \<and> b_mac_address b = nm \<and> Q \<longleftrightarrow> b = b0 \<and> Q" for b Q
    using b0 uniq by blast
  show ?thesis
  proof (intro conjI allI)
    show "fst (validateBinding now mac ip s) = NO_BINDING \<longleftrightarrow>
            (\<forall>b\<in>set (active_bindings s). b_mac_address b \<noteq> nm)"
      using b0 by (auto simp: res)
    show "fst (validateBinding now mac ip s) = IP_MISMATCH e \<longleftrightarrow>
            (\<exists>b\<in>set (active_bindings s). b_mac_address b = nm \<and> b_ip_address b = e \<and> e \<noteq> ip)" for e
      unfolding ex_iff by (auto simp: res)
    show "fst (validateBinding now mac ip s) = EXPIRED \<longleftrightarrow>
            (\<exists>b\<in>set (active_bindings s). b_mac_address b = nm \<and> b_ip_address b = ip \<and>
               (\<exists>t. b_expires_at b = Some t \<and> t < now))"
      unfolding ex_iff by (auto simp: res split: option.splits)
    show "fst (validateBinding now mac ip s) = Valid b \<longleftrightarrow>
            b \<in> set (active_bindings s) \<and> b_mac_address b = nm \<and> b_ip_address b = ip \<and>
            \<not> (\<exists>t. b_expires_at b = Some t \<and> t < now)" for b
      unfolding mem_iff by (auto simp: res split: option.splits)
  qed
qed


lemma normalizeMac_upper_example:
  "normalizeMac (Some ''AA-BB-CC-DD-EE-01'') = Str ''aa:bb:cc:dd:ee:01''"
  by code_simp

lemma normalizeMacAddress_example:
  "normalizeMacAddress (Some ''aa:bb:cc:dd:ee:01'') = ''aa:bb:cc:dd:ee:01''"
  by code_simp

lemma bound_state_unique: "B1 bound_state \<and> B2 bound_state"
  by (simp add: B1_def B2_def active_bindings_def bound_state_def session_state_def empty_state_def binding_1_def)


section \<open>Claims about the binding registry\<close>

text \<open>
  Claim C3, as amended. \<open>createBinding\<close> preserves (B1) and (B2) on every input. The
  bare \<open>INSERT OR REPLACE\<close> inside \<open>createSession\<close> retires nothing and by itself can
  leave two ACTIVE bindings for one MAC or one IP; the grant that \<open>createSession\<close> starts
  calls \<open>createBinding\<close> for the same session before its first \<open>await\<close>, which retires
  the conflicting rows, so that \<open>createSession\<close> as a whole (called, as the auth service
  does, with a MAC from \<open>normalizeMacAddress\<close>, on a table whose ids the AUTOINCREMENT
  counter bounds) preserves (B1) and (B2).
\<close>

theorem binding_uniqueness_preserved:
  assumes "B1 s" and "B2 s" and "\<forall>r\<in>set (sessions s). s_id r \<le> seq_sessions s"
  shows "B1 (snd (createBinding mac ip sid ex s)) \<and>
         B2 (snd (createBinding mac ip sid ex s)) \<and>
         B1 (snd (createSession cfg now tok uid vid did (normalizeMacAddress x) ip2 am h s)) \<and>
         B2 (snd (createSession cfg now tok uid vid did (normalizeMacAddress x) ip2 am h s))"
  using createBinding_preserves_uniqueness[OF assms(1,2)]
        createSession_preserves_uniqueness[OF assms] by blast

text \<open>
  C3, witness: the MAC bound to 192.168.4.10 by session 1 is bound again, to
  192.168.4.11, once by \<open>createBinding\<close> and once by a new session.
\<close>

theorem binding_uniqueness_preserved_witness:
  "B1 bound_state \<and> B2 bound_state \<and>
   list_all (\<lambda>r. s_id r \<le> seq_sessions bound_state) (sessions bound_state) \<and>
   B1 (snd (createBinding (Some ''AA-BB-CC-DD-EE-01'') ''192.168.4.11'' (Some 1) None
             bound_state)) \<and>
   B2 (snd (createBinding (Some ''AA-BB-CC-DD-EE-01'') ''192.168.4.11'' (Some 1) None
             bound_state)) \<and>
   B1 (snd (createSession simulation_config 0 ''token-2'' None (Some 1) 1
             (normalizeMacAddress (Some ''aa:bb:cc:dd:ee:01'')) ''192.168.4.11'' ''voucher'' 4
             bound_state)) \<and>
   B2 (snd (createSession simulation_config 0 ''token-2'' None (Some 1) 1
             (normalizeMacAddress (Some ''aa:bb:cc:dd:ee:01'')) ''192.168.4.11'' ''voucher'' 4
             bound_state))"
proof -
  have b: "B1 bound_state" "B2 bound_state" using bound_state_unique by simp_all
  have wf: "\<forall>r\<in>set (sessions bound_state). s_id r \<le> seq_sessions bound_state"
    by (simp add: bound_state_def session_state_def empty_state_def session_1_def)
  show ?thesis
    using binding_uniqueness_preserved[OF b wf, of "Some ''AA-BB-CC-DD-EE-01''"
            "''192.168.4.11''" "Some 1" None simulation_config 0 "''token-2''" None "Some 1" 1
            "Some ''aa:bb:cc:dd:ee:01''" "''192.168.4.11''" "''voucher''" 4] b wf
    by (simp add: list_all_iff)
qed

text \<open>
  C3, counterexample to the claim as stated: the binding insert of \<open>createSession\<close>,
  taken alone, on a table where the MAC is bound to 192.168.4.10, leaves two ACTIVE
  bindings for the MAC.
\<close>

theorem createSession_insert_counterexample:
  "B1 bound_state \<and> B2 bound_state \<and>
   \<not> B1 (insert_or_replace_binding ''aa:bb:cc:dd:ee:01'' ''192.168.4.11'' (Some 2)
           (Some 14400000) bound_state)"
  by (simp add: B1_def B2_def active_bindings_def insert_or_replace_binding_def bound_state_def session_state_def
        empty_state_def binding_1_def)









lemma validateBinding_state:
  assumes nm: "normalizeMac mac = Str nm"
  shows "snd (validateBinding now mac ip s) =
     (case fst (validateBinding now mac ip s) of
        IP_MISMATCH e \<Rightarrow>
          s\<lparr>event_logs := event_logs s @
             [\<lparr> ev_category = ''SECURITY'', ev_type = ''BINDING_VIOLATION'',
                ev_severity = ''WARNING'', ev_mac_address = or_null_str (Some nm),
                ev_ip_address = None, ev_user_id = None, ev_session_id = None,
                ev_details = [(''expectedIp'', e), (''actualIp'', ip)] \<rparr>]\<rparr>
      | _ \<Rightarrow> s)"
  using nm
  by (simp add: validateBinding_def logEvent_def Let_def or_null_nat_def or_null_str_def
           split: option.splits)

lemma validateBinding_null:
  "normalizeMac mac = Null \<Longrightarrow> validateBinding now mac ip s = (NO_BINDING, s)"
  by (simp add: validateBinding_def)

text \<open>
  The call throws exactly where the normaliser does: on a text of twelve characters, after
  the separators are removed, in which \<open>.\<close> matches no pair (line terminators), \<open>match\<close>
  returns \<open>null\<close> and \<open>.join\<close> raises.
\<close>

lemma validateBinding_throws:
  "fst (validateBinding now mac ip s) = ValidateThrew \<longleftrightarrow> normalizeMac mac = TypeError"
  by (simp add: validateBinding_def split: js_mac.splits option.splits)

lemma normalizeMac_line_feeds: "normalizeMac (Some (replicate 12 (CHR 0x0A))) = TypeError"
  by code_simp

text \<open>
  Claim C8, as amended. \<open>validateBinding\<close> is not a pure read: on a mismatch it inserts
  one event row. On a table that satisfies (B1), and for a MAC on which the normaliser
  does not throw: for a \<open>null\<close> or empty MAC the answer is \<open>NO_BINDING\<close> and the state is
  unchanged; otherwise the answer is one of four. \<open>NO_BINDING\<close> exactly when the
  normalised MAC has no ACTIVE binding; \<open>IP_MISMATCH\<close> with the bound IP exactly when the
  ACTIVE binding of the MAC has another IP; \<open>EXPIRED\<close> exactly when the ACTIVE binding has
  this IP and an expiry instant before now; and valid, with that binding, exactly when it
  has this IP and is not expired. The state after the call is the state before it, except
  that on \<open>IP_MISMATCH\<close> the event log has one more row, the last: category \<open>SECURITY\<close>,
  type \<open>BINDING_VIOLATION\<close>, severity \<open>WARNING\<close>, the normalised MAC, and the expected and
  the actual IP as details.
\<close>

theorem validateBinding_outcomes:
  assumes "B1 s" and "normalizeMac mac \<noteq> TypeError"
  shows "(normalizeMac mac = Null \<longrightarrow> validateBinding now mac ip s = (NO_BINDING, s)) \<and>
    (\<forall>nm. normalizeMac mac = Str nm \<longrightarrow>
       (fst (validateBinding now mac ip s) = NO_BINDING \<longleftrightarrow>
          (\<forall>b\<in>set (active_bindings s). b_mac_address b \<noteq> nm)) \<and>
       (\<forall>e. fst (validateBinding now mac ip s) = IP_MISMATCH e \<longleftrightarrow>
          (\<exists>b\<in>set (active_bindings s).
             b_mac_address b = nm \<and> b_ip_address b = e \<and> e \<noteq> ip)) \<and>
       (fst (validateBinding now mac ip s) = EXPIRED \<longleftrightarrow>
          (\<exists>b\<in>set (active_bindings s). b_mac_address b = nm \<and> b_ip_address b = ip \<and>
             (\<exists>t. b_expires_at b = Some t \<and> t < now))) \<and>
       (\<forall>b. fst (validateBinding now mac ip s) = Valid b \<longleftrightarrow>
          b \<in> set (active_bindings s) \<and> b_mac_address b = nm \<and> b_ip_address b = ip \<and>
          \<not> (\<exists>t. b_expires_at b = Some t \<and> t < now)) \<and>
       fst (validateBinding now mac ip s) \<noteq> ValidateThrew \<and>
       snd (validateBinding now mac ip s) =
         (case fst (validateBinding now mac ip s) of
            IP_MISMATCH e \<Rightarrow>
              s\<lparr>event_logs := event_logs s @
                 [\<lparr> ev_category = ''SECURITY'', ev_type = ''BINDING_VIOLATION'',
                    ev_severity = ''WARNING'', ev_mac_address = or_null_str (Some nm),
                    ev_ip_address = None, ev_user_id = None, ev_session_id = None,
                    ev_details = [(''expectedIp'', e), (''actualIp'', ip)] \<rparr>]\<rparr>
          | _ \<Rightarrow> s))"
proof -
  have n: "normalizeMac mac = Null \<longrightarrow> validateBinding now mac ip s = (NO_BINDING, s)"
    by (simp add: validateBinding_null)
  have m: "(fst (validateBinding now mac ip s) = NO_BINDING \<longleftrightarrow>
          (\<forall>b\<in>set (active_bindings s). b_mac_address b \<noteq> nm)) \<and>
       (\<forall>e. fst (validateBinding now mac ip s) = IP_MISMATCH e \<longleftrightarrow>
          (\<exists>b\<in>set (active_bindings s).
             b_mac_address b = nm \<and> b_ip_address b = e \<and> e \<noteq> ip)) \<and>
       (fst (validateBinding now mac ip s) = EXPIRED \<longleftrightarrow>
          (\<exists>b\<in>set (active_bindings s). b_mac_address b = nm \<and> b_ip_address b = ip \<and>
             (\<exists>t. b_expires_at b = Some t \<and> t < now))) \<and>
       (\<forall>b. fst (validateBinding now mac ip s) = Valid b \<longleftrightarrow>
          b \<in> set (active_bindings s) \<and> b_mac_address b = nm \<and> b_ip_address b = ip \<and>
          \<not> (\<exists>t. b_expires_at b = Some t \<and> t < now)) \<and>
       fst (validateBinding now mac ip s) \<noteq> ValidateThrew \<and>
       snd (validateBinding now mac ip s) =
         (case fst (validateBinding now mac ip s) of
            IP_MISMATCH e \<Rightarrow>
              s\<lparr>event_logs := event_logs s @
                 [\<lparr> ev_category = ''SECURITY'', ev_type = ''BINDING_VIOLATION'',
                    ev_severity = ''WARNING'', ev_mac_address = or_null_str (Some nm),
                    ev_ip_address = None, ev_user_id = None, ev_session_id = None,
                    ev_details = [(''expectedIp'', e), (''actualIp'', ip)] \<rparr>]\<rparr>
          | _ \<Rightarrow> s)" if nm: "normalizeMac mac = Str nm" for nm
  proof -
    note r = validateBinding_result[OF assms(1) nm, of now ip]
    have t: "fst (validateBinding now mac ip s) \<noteq> ValidateThrew"
      using nm by (simp add: validateBinding_throws)
    show ?thesis using r t validateBinding_state[OF nm, of now ip s] by blast
  qed
  show ?thesis using n m by blast
qed

text \<open>
  C8, witness: with MAC \<open>..:01\<close> bound to 192.168.4.10, validating it against
  192.168.4.99 answers \<open>IP_MISMATCH\<close> with the bound IP, and against 192.168.4.10 it
  is valid and the state is unchanged.
\<close>

theorem validateBinding_outcomes_witness:
  "B1 bound_state \<and>
   normalizeMac (Some ''AA-BB-CC-DD-EE-01'') \<noteq> TypeError \<and>
   fst (validateBinding 0 (Some ''AA-BB-CC-DD-EE-01'') ''192.168.4.99'' bound_state) =
     IP_MISMATCH ''192.168.4.10'' \<and>
   validateBinding 0 (Some ''AA-BB-CC-DD-EE-01'') ''192.168.4.10'' bound_state =
     (Valid binding_1, bound_state)"
proof -
  have b: "B1 bound_state" using bound_state_unique by simp
  have nt: "normalizeMac (Some ''AA-BB-CC-DD-EE-01'') \<noteq> TypeError"
    by (simp add: normalizeMac_upper_example)
  have act: "active_bindings bound_state = [binding_1]"
    by (simp add: active_bindings_def bound_state_def session_state_def binding_1_def)
  have f: "b_mac_address binding_1 = ''aa:bb:cc:dd:ee:01''"
    "b_ip_address binding_1 = ''192.168.4.10''" "b_expires_at binding_1 = Some 3600000"
    by (simp_all add: binding_1_def)
  have "fst (validateBinding 0 (Some ''AA-BB-CC-DD-EE-01'') ''192.168.4.99'' bound_state) =
     IP_MISMATCH ''192.168.4.10''"
    using validateBinding_outcomes[OF b nt, of 0 "''192.168.4.99''"]
      normalizeMac_upper_example by (simp add: act f)
  moreover have "validateBinding 0 (Some ''AA-BB-CC-DD-EE-01'') ''192.168.4.10''
      bound_state = (Valid binding_1, bound_state)"
  proof -
    note t = validateBinding_outcomes[OF b nt, of 0 "''192.168.4.10''", THEN conjunct2,
               rule_format, OF normalizeMac_upper_example]
    have 1: "fst (validateBinding 0 (Some ''AA-BB-CC-DD-EE-01'') ''192.168.4.10'' bound_state) =
             Valid binding_1"
      using t by (simp add: act f)
    have "snd (validateBinding 0 (Some ''AA-BB-CC-DD-EE-01'') ''192.168.4.10'' bound_state) =
             bound_state"
      using t by (simp add: 1)
    then show ?thesis using 1 by (simp add: prod_eq_iff)
  qed
  ultimately show ?thesis using b nt by blast
qed

text \<open>
  C8, counterexample to the claim as stated ("pure read"): the same mismatching call, on a
  state whose event log is empty, returns a state whose event log has one row.
\<close>

theorem validateBinding_audit_row_counterexample:
  "event_logs bound_state = [] \<and>
   validateBinding 0 (Some ''AA-BB-CC-DD-EE-01'') ''192.168.4.99'' bound_state =
     (IP_MISMATCH ''192.168.4.10'',
      bound_state\<lparr>event_logs :=
        [\<lparr> ev_category = ''SECURITY'', ev_type = ''BINDING_VIOLATION'',
           ev_severity = ''WARNING'', ev_mac_address = Some ''aa:bb:cc:dd:ee:01'',
           ev_ip_address = None, ev_user_id = None, ev_session_id = None,
           ev_details = [(''expectedIp'', ''192.168.4.10''),
                         (''actualIp'', ''192.168.4.99'')] \<rparr>]\<rparr>)"
  by (simp add: validateBinding_def normalizeMac_upper_example logEvent_def Let_def
        or_null_nat_def or_null_str_def bound_state_def session_state_def empty_state_def
        binding_1_def)

section \<open>The state a grant leaves\<close>

lemma plan_lengths:
  "length (plan [generateAllowRule cfg m ip, generateBindingRule cfg m ip,
                 generateDnsAllowRule cfg m]) = 7"
  "length (plan [generateMacIpBindingRule cfg m ip,
                 generateArpProtectionRule gw gwmac m ip]) = 9"
  by (simp_all add: plan_def generateAllowRule_def generateBindingRule_def
        generateDnsAllowRule_def generateMacIpBindingRule_def generateArpProtectionRule_def)

lemma createBinding_threw:
  "fst (createBinding mac ip sid ex s) = CreateThrew \<longleftrightarrow> normalizeMac mac = TypeError"
proof (cases "normalizeMac mac")
  case (Str nm)
  have "fst (createBinding mac ip sid ex s) \<noteq> CreateThrew"
    unfolding createBinding_def Str by (simp add: Let_def)
  then show ?thesis using Str by simp
qed (simp_all add: createBinding_def)

lemma logEvent_shape:
  "logEvent c t m i u sid d sev s = s\<lparr>event_logs := event_logs (logEvent c t m i u sid d sev s)\<rparr>"
  by (simp add: logEvent_def Let_def)

text \<open>A grant whose MAC the normaliser accepts runs its four steps one after the other.\<close>

lemma grantClientAccess_state:
  assumes "normalizeMac (Some m) \<noteq> TypeError"
  shows "\<exists>ev. snd (grantClientAccess cfg sid m ip am ex s) =
     (snd (applyClientIsolation cfg m ip sid
       (snd (applyAuthenticatedRules cfg m ip sid
         (snd (removePortalRedirect cfg m
           (snd (createBinding (Some m) ip (Some sid) ex s))))))))\<lparr>event_logs := ev\<rparr>"
proof (cases "createBinding (Some m) ip (Some sid) ex s")
  case (Pair outcome s1)
  then have "outcome \<noteq> CreateThrew"
    using createBinding_threw[of "Some m" ip "Some sid" ex s] assms by simp
  then show ?thesis using Pair
    by (cases outcome)
       (auto simp: grantClientAccess_def split_beta Let_def intro: exI logEvent_shape)
qed

lemma grantClientAccess_threw:
  assumes "normalizeMac (Some m) = TypeError"
  shows "fst (grantClientAccess cfg sid m ip am ex s) = \<lparr> success = False, steps = [], error = True \<rparr>"
    and "firewall_rules (snd (grantClientAccess cfg sid m ip am ex s)) = firewall_rules s"
  using assms by (simp_all add: grantClientAccess_def createBinding_def)

lemma grantClientAccess_result:
  "success (fst (grantClientAccess cfg sid m ip am ex s)) \<longleftrightarrow>
     \<not> error (fst (grantClientAccess cfg sid m ip am ex s)) \<and>
     list_all snd (steps (fst (grantClientAccess cfg sid m ip am ex s)))"
proof (cases "createBinding (Some m) ip (Some sid) ex s")
  case (Pair outcome s1)
  then show ?thesis
    by (cases outcome)
       (simp_all add: grantClientAccess_def split_beta Let_def every_def list_all_iff)
qed

lemma grantClientAccess_steps:
  assumes "normalizeMac (Some m) \<noteq> TypeError"
  shows "steps (fst (grantClientAccess cfg sid m ip am ex s)) =
    [(''MAC/IP Binding'', fst (createBinding (Some m) ip (Some sid) ex s) \<noteq> CreateFailed),
     (''Remove Portal Redirect'',
        every (fst (removePortalRedirect cfg m (snd (createBinding (Some m) ip (Some sid) ex s))))),
     (''Layer 3 Rules (iptables)'',
        every (fst (applyAuthenticatedRules cfg m ip sid
          (snd (removePortalRedirect cfg m (snd (createBinding (Some m) ip (Some sid) ex s))))))),
     (''Layer 2 Rules (ebtables)'',
        every (fst (applyClientIsolation cfg m ip sid
          (snd (applyAuthenticatedRules cfg m ip sid
            (snd (removePortalRedirect cfg m
              (snd (createBinding (Some m) ip (Some sid) ex s)))))))))] \<and>
    \<not> error (fst (grantClientAccess cfg sid m ip am ex s))"
proof (cases "createBinding (Some m) ip (Some sid) ex s")
  case (Pair outcome s1)
  then have "outcome \<noteq> CreateThrew"
    using createBinding_threw[of "Some m" ip "Some sid" ex s] assms by simp
  then show ?thesis using Pair
    by (cases outcome) (simp_all add: grantClientAccess_def split_beta Let_def)
qed

lemma grantClientAccess_rules:
  "\<exists>new. firewall_rules (snd (grantClientAccess cfg sid m ip am ex s)) = firewall_rules s @ new \<and>
         (\<forall>r\<in>set new. r_session_id r = sid \<and> r_is_active r) \<and>
         length new = (if session_exists s sid \<and> normalizeMac (Some m) \<noteq> TypeError
                       then 16 else 0)"
proof (cases "normalizeMac (Some m) = TypeError")
  case True
  then show ?thesis using grantClientAccess_threw(2)[OF True] by simp
next
  case False
  define s1 where "s1 = snd (createBinding (Some m) ip (Some sid) ex s)"
  define s2 where "s2 = snd (removePortalRedirect cfg m s1)"
  define s3 where "s3 = snd (applyAuthenticatedRules cfg m ip sid s2)"
  define s4 where "s4 = snd (applyClientIsolation cfg m ip sid s3)"
  from grantClientAccess_state[OF False, of cfg sid ip am ex s]
  have fr: "firewall_rules (snd (grantClientAccess cfg sid m ip am ex s)) = firewall_rules s4"
    by (auto simp: s4_def s3_def s2_def s1_def)
  have r2: "firewall_rules s2 = firewall_rules s" and e2: "session_exists s2 sid = session_exists s sid"
    by (simp_all add: s2_def s1_def removePortalRedirect_def session_exists_def)
  have "\<exists>new3. firewall_rules s3 = firewall_rules s2 @ new3 \<and>
      (\<forall>r\<in>set new3. r_session_id r = sid \<and> r_is_active r) \<and>
      length new3 = (if session_exists s2 sid then 7 else 0)"
    unfolding s3_def applyAuthenticatedRules_def
    using apply_each_rules[of cfg "''iptables''" "''ALLOW''" m ip sid
            "plan [generateAllowRule cfg m ip, generateBindingRule cfg m ip,
                   generateDnsAllowRule cfg m]" s2]
    by (simp add: plan_lengths cong: if_cong)
  then obtain new3 where n3: "firewall_rules s3 = firewall_rules s2 @ new3"
      "\<forall>r\<in>set new3. r_session_id r = sid \<and> r_is_active r"
      "length new3 = (if session_exists s2 sid then 7 else 0)"
    by blast
  have "sessions s3 = sessions s2"
    by (simp add: s3_def applyAuthenticatedRules_def)
  then have e3: "session_exists s3 sid = session_exists s sid"
    using e2 by (simp add: session_exists_def)
  have "\<exists>new4. firewall_rules s4 = firewall_rules s3 @ new4 \<and>
      (\<forall>r\<in>set new4. r_session_id r = sid \<and> r_is_active r) \<and>
      length new4 = (if session_exists s3 sid then 9 else 0)"
    unfolding s4_def applyClientIsolation_def
    using apply_each_rules[of cfg "''ebtables''" "''ISOLATION''" m ip sid
            "plan [generateMacIpBindingRule cfg m ip,
                   generateArpProtectionRule (gateway cfg) (gateway_mac cfg) m ip]" s3]
    by (simp add: plan_lengths cong: if_cong)
  then obtain new4 where n4: "firewall_rules s4 = firewall_rules s3 @ new4"
      "\<forall>r\<in>set new4. r_session_id r = sid \<and> r_is_active r"
      "length new4 = (if session_exists s3 sid then 9 else 0)"
    by blast
  have "firewall_rules (snd (grantClientAccess cfg sid m ip am ex s)) =
          firewall_rules s @ (new3 @ new4)"
    by (simp add: fr n4(1) n3(1) r2)
  moreover have "\<forall>r\<in>set (new3 @ new4). r_session_id r = sid \<and> r_is_active r"
    using n3(2) n4(2) by auto
  moreover have "length (new3 @ new4) =
      (if session_exists s sid \<and> normalizeMac (Some m) \<noteq> TypeError then 16 else 0)"
    using n3(3) n4(3) e2 e3 False by simp
  ultimately show ?thesis by blast
qed

section \<open>The state a revoke leaves\<close>

lemma removeClientRules_fields:
  "sessions (snd (removeClientRules cfg m ip sid s)) = sessions s"
  "mac_ip_bindings (snd (removeClientRules cfg m ip sid s)) = mac_ip_bindings s"
  "firewall_rules (snd (removeClientRules cfg m ip sid s)) =
     map (\<lambda>r. if r_session_id r = sid \<and> r_is_active r then r\<lparr>r_is_active := False\<rparr> else r)
       (firewall_rules s)"
  by (simp_all add: removeClientRules_def split_beta Let_def markRulesRemoved_def)

lemma removeClientIsolation_fields:
  "sessions (snd (removeClientIsolation cfg m ip sid s)) = sessions s"
  "mac_ip_bindings (snd (removeClientIsolation cfg m ip sid s)) = mac_ip_bindings s"
  "firewall_rules (snd (removeClientIsolation cfg m ip sid s)) =
     map (\<lambda>r. if r_session_id r = sid \<and> r_is_active r \<and> r_rule_type r = ''ebtables''
              then r\<lparr>r_is_active := False\<rparr> else r)
       (firewall_rules s)"
  by (simp_all add: removeClientIsolation_def split_beta Let_def markRulesRemoved_def)

lemma removeBindingBySession_fields:
  "sessions (snd (removeBindingBySession sid s)) = sessions s"
  "firewall_rules (snd (removeBindingBySession sid s)) = firewall_rules s"
  "trace (snd (removeBindingBySession sid s)) = trace s"
  "active_bindings (snd (removeBindingBySession sid s)) =
     filter (\<lambda>b. b_session_id b \<noteq> Some sid) (active_bindings s)"
  by (simp_all add: removeBindingBySession_def active_retire)
     (simp add: active_bindings_def cong: conj_cong)

lemma revokeClientAccess_state:
  "\<exists>ev. snd (revokeClientAccess cfg sid m ip s) =
     (snd (applyPortalRedirect cfg m
       (snd (removeBindingBySession sid
         (snd (removeClientIsolation cfg m ip sid
           (snd (removeClientRules cfg m ip sid s))))))))\<lparr>event_logs := ev\<rparr>"
proof -
  have "snd (revokeClientAccess cfg sid m ip s) =
     (snd (applyPortalRedirect cfg m
       (snd (removeBindingBySession sid
         (snd (removeClientIsolation cfg m ip sid
           (snd (removeClientRules cfg m ip sid s))))))))\<lparr>event_logs :=
        event_logs (snd (revokeClientAccess cfg sid m ip s))\<rparr>"
    unfolding revokeClientAccess_def split_beta Let_def snd_conv
    by (rule logEvent_shape)
  then show ?thesis by (rule exI)
qed

lemma revokeClientAccess_sessions [simp]:
  "sessions (snd (revokeClientAccess cfg sid m ip s)) = sessions s"
proof -
  from revokeClientAccess_state[of cfg sid m ip s] obtain ev where
    "snd (revokeClientAccess cfg sid m ip s) =
     (snd (applyPortalRedirect cfg m
       (snd (removeBindingBySession sid
         (snd (removeClientIsolation cfg m ip sid
           (snd (removeClientRules cfg m ip sid s))))))))\<lparr>event_logs := ev\<rparr>"
    by blast
  then show ?thesis
    by (simp add: applyPortalRedirect_def removeBindingBySession_fields
          removeClientIsolation_fields removeClientRules_fields)
qed

lemma filter_active_map_deactivate:
  "filter (\<lambda>r. r_is_active r \<and> Q r)
     (map (\<lambda>r. if P r then r\<lparr>r_is_active := False\<rparr> else r) rs) =
   filter (\<lambda>r. r_is_active r \<and> \<not> P r \<and> Q r) rs"
  by (induction rs) simp_all

lemma filter_active_deactivated:
  "filter r_is_active (map (\<lambda>r. if P r then r\<lparr>r_is_active := False\<rparr> else r) rs) =
   filter (\<lambda>r. r_is_active r \<and> \<not> P r) rs"
  by (induction rs) simp_all

lemma filter_active_after_removal:
  "filter r_is_active
     (map (\<lambda>r. if r_session_id r = sid \<and> r_is_active r \<and> r_rule_type r = ''ebtables''
               then r\<lparr>r_is_active := False\<rparr> else r)
        (map (\<lambda>r. if r_session_id r = sid \<and> r_is_active r then r\<lparr>r_is_active := False\<rparr> else r)
           rs)) =
   filter (\<lambda>r. r_is_active r \<and> r_session_id r \<noteq> sid) (rs :: firewall_rule list)"
proof -
  define P1 where "P1 = (\<lambda>r::firewall_rule. r_session_id r = sid \<and> r_is_active r)"
  define P2 where "P2 = (\<lambda>r::firewall_rule. r_session_id r = sid \<and> r_is_active r \<and> r_rule_type r = ''ebtables'')"
  have "filter r_is_active
     (map (\<lambda>r. if P2 r then r\<lparr>r_is_active := False\<rparr> else r)
        (map (\<lambda>r. if P1 r then r\<lparr>r_is_active := False\<rparr> else r) rs)) =
     filter (\<lambda>r. r_is_active r \<and> \<not> P2 r)
       (map (\<lambda>r. if P1 r then r\<lparr>r_is_active := False\<rparr> else r) rs)"
    by (rule filter_active_deactivated)
  also have "\<dots> = filter (\<lambda>r. r_is_active r \<and> \<not> P1 r \<and> \<not> P2 r) rs"
    by (rule filter_active_map_deactivate[where Q = "\<lambda>r. \<not> P2 r" and P = P1])
  also have "\<dots> = filter (\<lambda>r. r_is_active r \<and> r_session_id r \<noteq> sid) rs"
    by (rule filter_cong) (auto simp: P1_def P2_def)
  finally show ?thesis by (simp only: P1_def P2_def)
qed

text \<open>After a revoke, the session has no active ledger row; other sessions keep theirs.\<close>

lemma revokeClientAccess_active_rules:
  "filter r_is_active (firewall_rules (snd (revokeClientAccess cfg sid m ip s))) =
     filter (\<lambda>r. r_is_active r \<and> r_session_id r \<noteq> sid) (firewall_rules s)"
proof -
  have "firewall_rules (snd (revokeClientAccess cfg sid m ip s)) =
     map (\<lambda>r. if r_session_id r = sid \<and> r_is_active r \<and> r_rule_type r = ''ebtables''
              then r\<lparr>r_is_active := False\<rparr> else r)
       (map (\<lambda>r. if r_session_id r = sid \<and> r_is_active r then r\<lparr>r_is_active := False\<rparr> else r)
          (firewall_rules s))"
  proof -
    from revokeClientAccess_state[of cfg sid m ip s] obtain ev where
      "snd (revokeClientAccess cfg sid m ip s) =
       (snd (applyPortalRedirect cfg m
         (snd (removeBindingBySession sid
           (snd (removeClientIsolation cfg m ip sid
             (snd (removeClientRules cfg m ip sid s))))))))\<lparr>event_logs := ev\<rparr>"
      by blast
    then show ?thesis
      by (simp add: applyPortalRedirect_def removeBindingBySession_fields
            removeClientIsolation_fields removeClientRules_fields)
  qed
  then show ?thesis by (simp only: filter_active_after_removal)
qed

lemma revokeClientAccess_bindings:
  "active_bindings (snd (revokeClientAccess cfg sid m ip s)) =
     filter (\<lambda>b. b_session_id b \<noteq> Some sid) (active_bindings s)"
proof -
  have "mac_ip_bindings (snd (revokeClientAccess cfg sid m ip s)) =
        mac_ip_bindings (snd (removeBindingBySession sid
         (snd (removeClientIsolation cfg m ip sid
           (snd (removeClientRules cfg m ip sid s))))))"
  proof -
    from revokeClientAccess_state[of cfg sid m ip s] obtain ev where
      "snd (revokeClientAccess cfg sid m ip s) =
       (snd (applyPortalRedirect cfg m
         (snd (removeBindingBySession sid
           (snd (removeClientIsolation cfg m ip sid
             (snd (removeClientRules cfg m ip sid s))))))))\<lparr>event_logs := ev\<rparr>"
      by blast
    then show ?thesis by (simp add: applyPortalRedirect_def)
  qed
  then have "active_bindings (snd (revokeClientAccess cfg sid m ip s)) =
        active_bindings (snd (removeBindingBySession sid
         (snd (removeClientIsolation cfg m ip sid
           (snd (removeClientRules cfg m ip sid s))))))"
    by (simp add: active_bindings_def)
  then show ?thesis
    by (simp add: removeBindingBySession_fields(4))
       (simp add: active_bindings_def removeClientIsolation_fields removeClientRules_fields)
qed

lemma revokeClientAccess_trace:
  "\<exists>tr. trace (snd (revokeClientAccess cfg sid m ip s)) =
     tr @ map (\<lambda>(d, c). EnforcerCommand (''iptables '' @ c))
            (plan [generatePortalRedirectRule cfg m])"
proof -
  from revokeClientAccess_state[of cfg sid m ip s] obtain ev where
    "snd (revokeClientAccess cfg sid m ip s) =
     (snd (applyPortalRedirect cfg m
       (snd (removeBindingBySession sid
         (snd (removeClientIsolation cfg m ip sid
           (snd (removeClientRules cfg m ip sid s))))))))\<lparr>event_logs := ev\<rparr>"
    by blast
  then show ?thesis by (simp add: applyPortalRedirect_def execute_each_trace)
qed

text \<open>The commands one revoke sends to the enforcer, in order.\<close>

lemma revokeClientAccess_trace_exact:
  "trace (snd (revokeClientAccess cfg sid m ip s)) =
     trace s @
     map (\<lambda>(d, c). EnforcerCommand (''iptables '' @ c))
       (removal_plan [generateAllowRule cfg m ip, generateBindingRule cfg m ip,
                      generateDnsAllowRule cfg m]) @
     map (\<lambda>(d, c). EnforcerCommand (''ebtables '' @ c))
       (removal_plan [generateMacIpBindingRule cfg m ip,
                      generateArpProtectionRule (gateway cfg) (gateway_mac cfg) m ip]) @
     map (\<lambda>(d, c). EnforcerCommand (''iptables '' @ c))
       (plan [generatePortalRedirectRule cfg m])"
proof -
  from revokeClientAccess_state[of cfg sid m ip s] obtain ev where
    "snd (revokeClientAccess cfg sid m ip s) =
     (snd (applyPortalRedirect cfg m
       (snd (removeBindingBySession sid
         (snd (removeClientIsolation cfg m ip sid
           (snd (removeClientRules cfg m ip sid s))))))))\<lparr>event_logs := ev\<rparr>"
    by blast
  then show ?thesis
    by (simp add: applyPortalRedirect_def execute_each_trace removeBindingBySession_fields
          removeClientIsolation_def removeClientRules_def split_beta Let_def)
qed

section \<open>A failing grant and the round trip\<close>

lemma execute_each_fails:
  assumes "\<not> isSimulationMode cfg" and "\<forall>tr c. \<not> host cfg tr c" and "cs \<noteq> []"
  shows "\<not> every (fst (execute_each cfg tool cs s))"
proof -
  obtain d c rest where cs: "cs = (d, c) # rest" using assms(3) by (cases cs) auto
  show ?thesis using assms(1,2)
    by (simp add: cs every_def split_beta Let_def executeCommand_result)
qed

lemma normalizeMac_example: "normalizeMac (Some ''aa:bb:cc:dd:ee:01'') = Str ''aa:bb:cc:dd:ee:01''"
  by code_simp

lemma failed_grant:
  "\<not> success (fst (grantClientAccess failing_config 1 ''aa:bb:cc:dd:ee:01'' ''192.168.4.10''
                   ''voucher'' (Some 3600000) session_state))"
proof -
  have nt: "normalizeMac (Some ''aa:bb:cc:dd:ee:01'') \<noteq> TypeError"
    by (simp add: normalizeMac_example)
  have "\<not> every (fst (removePortalRedirect failing_config ''aa:bb:cc:dd:ee:01''
          (snd (createBinding (Some ''aa:bb:cc:dd:ee:01'') ''192.168.4.10'' (Some 1)
                  (Some 3600000) session_state))))"
    unfolding removePortalRedirect_def
    by (rule execute_each_fails)
       (simp_all add: failing_config_def simulation_config_def isSimulationMode_def
          removal_plan_def generatePortalRedirectRule_def)
  then show ?thesis
    using grantClientAccess_steps[OF nt, of failing_config 1 "''192.168.4.10''" "''voucher''"
            "Some 3600000" session_state]
    by (simp add: grantClientAccess_result)
qed

lemma session_state_facts:
  "session_exists session_state 1" "session_exists session_state (Suc 0)"
  "firewall_rules session_state = []"
  "sessions session_state = [session_1]" "trace session_state = []"
  "active_bindings session_state = []"
  by (simp_all add: session_exists_def session_state_def empty_state_def session_1_def
        active_bindings_def)

lemma failed_grant_rules:
  "length (filter (\<lambda>r. r_is_active r \<and> r_session_id r = 1)
     (firewall_rules (snd (grantClientAccess failing_config 1 ''aa:bb:cc:dd:ee:01''
        ''192.168.4.10'' ''voucher'' (Some 3600000) session_state)))) = 16"
proof -
  from grantClientAccess_rules[of failing_config 1 "''aa:bb:cc:dd:ee:01''" "''192.168.4.10''"
         "''voucher''" "Some 3600000" session_state]
  obtain new where new: "firewall_rules (snd (grantClientAccess failing_config 1
        ''aa:bb:cc:dd:ee:01'' ''192.168.4.10'' ''voucher'' (Some 3600000) session_state)) = new"
     "\<forall>r\<in>set new. r_session_id r = 1 \<and> r_is_active r" "length new = 16"
    by (auto simp: session_state_facts normalizeMac_example)
  have "filter (\<lambda>r. r_is_active r \<and> r_session_id r = 1) new = new"
    using new(2) by (simp add: filter_id_conv)
  then show ?thesis unfolding new(1) by (simp only: new(3))
qed





lemma first_iptables_steps:
  "take 2 (trace (snd (applyAuthenticatedRules simulation_config ''aa:bb:cc:dd:ee:01''
      ''192.168.4.10'' 1 session_state))) =
   [EnforcerCommand ''iptables -A FORWARD -i wlan0 -o eth0 -m mac --mac-source aa:bb:cc:dd:ee:01 -s 192.168.4.10 -j ACCEPT'',
    LedgerInsert ''-A FORWARD -i wlan0 -o eth0 -m mac --mac-source aa:bb:cc:dd:ee:01 -s 192.168.4.10 -j ACCEPT'']"
proof -
  have "trace (snd (applyAuthenticatedRules simulation_config ''aa:bb:cc:dd:ee:01''
      ''192.168.4.10'' 1 session_state)) =
     trace session_state @
     concat (map (\<lambda>(d, c). EnforcerCommand (''iptables '' @ c) #
               (if session_exists session_state 1 then [LedgerInsert c] else []))
       (plan [generateAllowRule simulation_config ''aa:bb:cc:dd:ee:01'' ''192.168.4.10'',
              generateBindingRule simulation_config ''aa:bb:cc:dd:ee:01'' ''192.168.4.10'',
              generateDnsAllowRule simulation_config ''aa:bb:cc:dd:ee:01'']))"
    by (simp add: applyAuthenticatedRules_def apply_each_trace)
  then show ?thesis
    by (simp add: session_state_facts plan_def generateAllowRule_def simulation_config_def)
qed



section \<open>Claims about grants and revokes\<close>

text \<open>
  Claim C5, as amended. The code does not write ahead. For every command of a grant, in
  \<open>applyAuthenticatedRules\<close> and in \<open>applyClientIsolation\<close> alike, the enforcer is asked
  first and the ledger row of the command is written directly afterwards, whatever the
  enforcer answered (and no row is written when the session id names no session).
\<close>

theorem enforcer_command_precedes_ledger_row:
  "trace (snd (applyAuthenticatedRules cfg m ip sid s)) =
     trace s @
     concat (map (\<lambda>(d, c). EnforcerCommand (''iptables '' @ c) #
               (if session_exists s sid then [LedgerInsert c] else []))
       (plan [generateAllowRule cfg m ip, generateBindingRule cfg m ip,
              generateDnsAllowRule cfg m])) \<and>
   trace (snd (applyClientIsolation cfg m ip sid s)) =
     trace s @
     concat (map (\<lambda>(d, c). EnforcerCommand (''ebtables '' @ c) #
               (if session_exists s sid then [LedgerInsert c] else []))
       (plan [generateMacIpBindingRule cfg m ip,
              generateArpProtectionRule (gateway cfg) (gateway_mac cfg) m ip]))"
  by (simp add: applyAuthenticatedRules_def applyClientIsolation_def apply_each_trace)

text \<open>C5, witness: the seven iptables commands of a grant give fourteen trace entries.\<close>

theorem enforcer_command_precedes_ledger_row_witness:
  "length (trace (snd (applyAuthenticatedRules simulation_config ''aa:bb:cc:dd:ee:01''
      ''192.168.4.10'' 1 session_state))) = 14"
  using enforcer_command_precedes_ledger_row[of simulation_config "''aa:bb:cc:dd:ee:01''"
          "''192.168.4.10''" 1 session_state]
  by (simp add: session_state_facts plan_def generateAllowRule_def generateBindingRule_def
        generateDnsAllowRule_def)

text \<open>
  C5, counterexample to the claim as stated: in the grant of session 1 the first event is
  the enforcer command of the first rule, and the ledger row of that rule comes second.
\<close>

theorem write_ahead_counterexample:
  "trace session_state = [] \<and>
   take 2 (trace (snd (applyAuthenticatedRules simulation_config ''aa:bb:cc:dd:ee:01''
      ''192.168.4.10'' 1 session_state))) =
   [EnforcerCommand ''iptables -A FORWARD -i wlan0 -o eth0 -m mac --mac-source aa:bb:cc:dd:ee:01 -s 192.168.4.10 -j ACCEPT'',
    LedgerInsert ''-A FORWARD -i wlan0 -o eth0 -m mac --mac-source aa:bb:cc:dd:ee:01 -s 192.168.4.10 -j ACCEPT'']"
  using first_iptables_steps session_state_facts(5) by simp

text \<open>
  Claim C4, as amended. \<open>grantClientAccess\<close> reports \<open>success\<close> exactly when nothing was
  thrown and each of its four steps (binding, portal-redirect removal, iptables rules,
  ebtables rules) reported success; a failed step does not stop the later ones. There is
  no compensating revoke: whatever the steps reported, the session rows are left as they
  were, no ledger row is deactivated, and the rows written for the session (one per
  command, 16 in all when the session exists and the MAC is accepted) all stay active.
\<close>

theorem grant_failure_not_compensated:
  "(success (fst (grantClientAccess cfg sid m ip am ex s)) \<longleftrightarrow>
      \<not> error (fst (grantClientAccess cfg sid m ip am ex s)) \<and>
      list_all snd (steps (fst (grantClientAccess cfg sid m ip am ex s)))) \<and>
   (normalizeMac (Some m) \<noteq> TypeError \<longrightarrow>
      map fst (steps (fst (grantClientAccess cfg sid m ip am ex s))) =
        [''MAC/IP Binding'', ''Remove Portal Redirect'', ''Layer 3 Rules (iptables)'',
         ''Layer 2 Rules (ebtables)'']) \<and>
   sessions (snd (grantClientAccess cfg sid m ip am ex s)) = sessions s \<and>
   (\<exists>new. firewall_rules (snd (grantClientAccess cfg sid m ip am ex s)) =
            firewall_rules s @ new \<and>
          (\<forall>r\<in>set new. r_session_id r = sid \<and> r_is_active r) \<and>
          length new = (if session_exists s sid \<and> normalizeMac (Some m) \<noteq> TypeError
                        then 16 else 0))"
  using grantClientAccess_result[of cfg sid m ip am ex s]
        grantClientAccess_steps[of m cfg sid ip am ex s]
        grantClientAccess_rules[of cfg sid m ip am ex s]
  by (simp add: grantClientAccess_sessions)

text \<open>
  C4, witness: a grant for session 1 on a host where every command fails leaves the
  session row as it was and sixteen ledger rows.
\<close>

theorem grant_failure_not_compensated_witness:
  "session_exists session_state 1 \<and>
   normalizeMac (Some ''aa:bb:cc:dd:ee:01'') \<noteq> TypeError \<and>
   sessions (snd (grantClientAccess failing_config 1 ''aa:bb:cc:dd:ee:01'' ''192.168.4.10''
                    ''voucher'' (Some 3600000) session_state)) = [session_1] \<and>
   length (firewall_rules (snd (grantClientAccess failing_config 1 ''aa:bb:cc:dd:ee:01''
                    ''192.168.4.10'' ''voucher'' (Some 3600000) session_state))) = 16"
  using grant_failure_not_compensated[of failing_config 1 "''aa:bb:cc:dd:ee:01''"
          "''192.168.4.10''" "''voucher''" "Some 3600000" session_state]
  by (auto simp: session_state_facts normalizeMac_example)

text \<open>
  C4, counterexample to the claim as stated: on that host the grant of session 1 returns
  failure, yet session 1 is still ACTIVE and has sixteen active ledger rows.
\<close>

theorem compensating_revoke_counterexample:
  "\<not> success (fst (grantClientAccess failing_config 1 ''aa:bb:cc:dd:ee:01'' ''192.168.4.10''
                   ''voucher'' (Some 3600000) session_state)) \<and>
   sessions (snd (grantClientAccess failing_config 1 ''aa:bb:cc:dd:ee:01'' ''192.168.4.10''
                    ''voucher'' (Some 3600000) session_state)) = [session_1] \<and>
   s_is_active session_1 \<and>
   length (filter (\<lambda>r. r_is_active r \<and> r_session_id r = 1)
     (firewall_rules (snd (grantClientAccess failing_config 1 ''aa:bb:cc:dd:ee:01''
        ''192.168.4.10'' ''voucher'' (Some 3600000) session_state)))) = 16"
  using failed_grant failed_grant_rules
  by (simp add: session_state_facts session_1_def)




text \<open>The sibling path: ending a session through the integration service clears its ledger rows.\<close>

lemma onSessionEnded_clears_ledger:
  "\<forall>r\<in>set (firewall_rules (snd (onSessionEnded cfg session s))).
     r_session_id r = s_id session \<longrightarrow> \<not> r_is_active r"
proof -
  have "firewall_rules (snd (onSessionEnded cfg session s)) =
        firewall_rules (snd (revokeClientAccess cfg (s_id session) (s_mac_address session)
                               (s_ip_address session) s))"
    by (simp add: onSessionEnded_def split_beta)
  moreover have "\<forall>r\<in>set (filter r_is_active (firewall_rules (snd (revokeClientAccess cfg
       (s_id session) (s_mac_address session) (s_ip_address session) s)))).
       r_session_id r \<noteq> s_id session"
    by (simp add: revokeClientAccess_active_rules)
  ultimately show ?thesis by auto
qed

lemma revoke_each_ids:
  "map fst (fst (revoke_each cfg xs s)) = map fst xs"
  by (induction xs arbitrary: s) (auto simp: split_beta Let_def)

lemma cleanupExpiredSessions_ids:
  "map fst (fst (cleanupExpiredSessions cfg now now2 s)) = map fst (expiredSessions now s)"
  by (simp add: cleanupExpiredSessions_def Let_def split_beta revoke_each_ids)

lemma expiredSessions_ids:
  "set (map fst (expiredSessions now s)) =
     s_id ` {r \<in> set (sessions s). s_expires_at r < now \<and>
               (\<exists>f\<in>set (firewall_rules s). r_session_id f = s_id r \<and> r_is_active f)}"
  by (force simp: expiredSessions_def list_ex_iff image_iff)

text \<open>What one revoke, and one cleanup cycle, leave behind.\<close>

lemma revoke_each_sessions [simp]:
  "sessions (snd (revoke_each cfg xs s)) = sessions s"
  by (induction xs arbitrary: s) (auto simp: split_beta Let_def)

lemma revoke_each_active_rules:
  "filter r_is_active (firewall_rules (snd (revoke_each cfg xs s))) =
     filter (\<lambda>r. r_is_active r \<and> r_session_id r \<notin> set (map fst xs)) (firewall_rules s)"
proof (induction xs arbitrary: s)
  case Nil show ?case by simp
next
  case (Cons x xs)
  obtain sid m ip where x: "x = (sid, m, ip)" by (cases x)
  define s1 where "s1 = snd (revokeClientAccess cfg sid m ip s)"
  have st: "snd (revoke_each cfg (x # xs) s) = snd (revoke_each cfg xs s1)"
    by (simp add: x s1_def split_beta Let_def)
  have "filter r_is_active (firewall_rules (snd (revoke_each cfg xs s1))) =
        filter (\<lambda>r. r_session_id r \<notin> set (map fst xs)) (filter r_is_active (firewall_rules s1))"
    by (simp add: Cons[of s1] conj_commute)
  also have "filter r_is_active (firewall_rules s1) =
        filter (\<lambda>r. r_is_active r \<and> r_session_id r \<noteq> sid) (firewall_rules s)"
    unfolding s1_def by (rule revokeClientAccess_active_rules)
  finally show ?case
    unfolding st by (simp add: x)
qed

lemma revoke_each_bindings:
  "active_bindings (snd (revoke_each cfg xs s)) =
     filter (\<lambda>b. b_session_id b \<notin> Some ` set (map fst xs)) (active_bindings s)"
proof (induction xs arbitrary: s)
  case Nil show ?case by simp
next
  case (Cons x xs)
  obtain sid m ip where x: "x = (sid, m, ip)" by (cases x)
  define s1 where "s1 = snd (revokeClientAccess cfg sid m ip s)"
  have st: "snd (revoke_each cfg (x # xs) s) = snd (revoke_each cfg xs s1)"
    by (simp add: x s1_def split_beta Let_def)
  have "active_bindings (snd (revoke_each cfg xs s1)) =
        filter (\<lambda>b. b_session_id b \<notin> Some ` set (map fst xs)) (active_bindings s1)"
    by (rule Cons)
  also have "active_bindings s1 = filter (\<lambda>b. b_session_id b \<noteq> Some sid) (active_bindings s)"
    unfolding s1_def by (rule revokeClientAccess_bindings)
  finally show ?case
    unfolding st by (simp add: x)
qed

lemma revoke_each_trace:
  "trace (snd (revoke_each cfg xs s)) =
     trace s @
     concat (map (\<lambda>(sid, m, ip).
       map (\<lambda>(d, c). EnforcerCommand (''iptables '' @ c))
         (removal_plan [generateAllowRule cfg m ip, generateBindingRule cfg m ip,
                        generateDnsAllowRule cfg m]) @
       map (\<lambda>(d, c). EnforcerCommand (''ebtables '' @ c))
         (removal_plan [generateMacIpBindingRule cfg m ip,
                        generateArpProtectionRule (gateway cfg) (gateway_mac cfg) m ip]) @
       map (\<lambda>(d, c). EnforcerCommand (''iptables '' @ c))
         (plan [generatePortalRedirectRule cfg m])) xs)"
proof (induction xs arbitrary: s)
  case Nil show ?case by simp
next
  case (Cons x xs)
  obtain sid m ip where x: "x = (sid, m, ip)" by (cases x)
  define s1 where "s1 = snd (revokeClientAccess cfg sid m ip s)"
  have st: "snd (revoke_each cfg (x # xs) s) = snd (revoke_each cfg xs s1)"
    by (simp add: x s1_def split_beta Let_def)
  show ?case
    unfolding st by (simp only: Cons[of s1]) (simp add: s1_def x revokeClientAccess_trace_exact)
qed

lemma cleanupExpiredBindings_fields:
  "sessions (snd (cleanupExpiredBindings now s)) = sessions s"
  "firewall_rules (snd (cleanupExpiredBindings now s)) = firewall_rules s"
  "trace (snd (cleanupExpiredBindings now s)) = trace s"
  "active_bindings (snd (cleanupExpiredBindings now s)) =
     filter (\<lambda>b. \<not> (case b_expires_at b of None \<Rightarrow> False | Some e \<Rightarrow> e < now))
       (active_bindings s)"
  by (simp_all add: cleanupExpiredBindings_def Let_def active_retire)
     (simp add: active_bindings_def cong: conj_cong)

lemma cleanupExpiredSessions_state:
  "snd (cleanupExpiredSessions cfg now now2 s) =
     (if expiredSessions now s = [] then s
      else snd (cleanupExpiredBindings now2 (snd (revoke_each cfg (expiredSessions now s) s))))"
  by (simp add: cleanupExpiredSessions_def Let_def split_beta)

lemma cleanup_cycle_effects:
  fixes cfg now now2 s
  defines "s' \<equiv> snd (cleanupExpiredSessions cfg now now2 s)"
      and "ids \<equiv> map fst (fst (cleanupExpiredSessions cfg now now2 s))"
  shows "sessions s' = sessions s"
    and "filter r_is_active (firewall_rules s') =
           filter (\<lambda>r. r_is_active r \<and> r_session_id r \<notin> set ids) (firewall_rules s)"
    and "ids = [] \<longrightarrow> s' = s"
    and "ids \<noteq> [] \<longrightarrow> active_bindings s' =
           filter (\<lambda>b. b_session_id b \<notin> Some ` set ids \<and>
                       \<not> (case b_expires_at b of None \<Rightarrow> False | Some e \<Rightarrow> e < now2))
             (active_bindings s)"
    and "trace s' = trace s @
     concat (map (\<lambda>(sid, m, ip).
       map (\<lambda>(d, c). EnforcerCommand (''iptables '' @ c))
         (removal_plan [generateAllowRule cfg m ip, generateBindingRule cfg m ip,
                        generateDnsAllowRule cfg m]) @
       map (\<lambda>(d, c). EnforcerCommand (''ebtables '' @ c))
         (removal_plan [generateMacIpBindingRule cfg m ip,
                        generateArpProtectionRule (gateway cfg) (gateway_mac cfg) m ip]) @
       map (\<lambda>(d, c). EnforcerCommand (''iptables '' @ c))
         (plan [generatePortalRedirectRule cfg m])) (expiredSessions now s))"
proof -
  have ids: "ids = map fst (expiredSessions now s)"
    unfolding ids_def by (rule cleanupExpiredSessions_ids)
  show "sessions s' = sessions s"
    unfolding s'_def cleanupExpiredSessions_state
    by (simp add: cleanupExpiredBindings_fields)
  show "filter r_is_active (firewall_rules s') =
           filter (\<lambda>r. r_is_active r \<and> r_session_id r \<notin> set ids) (firewall_rules s)"
    unfolding s'_def cleanupExpiredSessions_state ids
    by (simp add: cleanupExpiredBindings_fields revoke_each_active_rules)
  show "ids = [] \<longrightarrow> s' = s"
    unfolding s'_def cleanupExpiredSessions_state ids by simp
  show "ids \<noteq> [] \<longrightarrow> active_bindings s' =
           filter (\<lambda>b. b_session_id b \<notin> Some ` set ids \<and>
                       \<not> (case b_expires_at b of None \<Rightarrow> False | Some e \<Rightarrow> e < now2))
             (active_bindings s)"
    unfolding s'_def cleanupExpiredSessions_state ids
    by (simp add: cleanupExpiredBindings_fields revoke_each_bindings conj_commute)
  show "trace s' = trace s @
     concat (map (\<lambda>(sid, m, ip).
       map (\<lambda>(d, c). EnforcerCommand (''iptables '' @ c))
         (removal_plan [generateAllowRule cfg m ip, generateBindingRule cfg m ip,
                        generateDnsAllowRule cfg m]) @
       map (\<lambda>(d, c). EnforcerCommand (''ebtables '' @ c))
         (removal_plan [generateMacIpBindingRule cfg m ip,
                        generateArpProtectionRule (gateway cfg) (gateway_mac cfg) m ip]) @
       map (\<lambda>(d, c). EnforcerCommand (''iptables '' @ c))
         (plan [generatePortalRedirectRule cfg m])) (expiredSessions now s))"
    unfolding s'_def cleanupExpiredSessions_state
    by (simp add: cleanupExpiredBindings_fields revoke_each_trace)
qed

lemma scheduler_facts:
  "startCleanupScheduler t0 None = Some \<lparr> set_at = t0, every_ms = 60000 \<rparr>"
  "startCleanupScheduler t1 (Some tm) = Some tm"
  "stopCleanupScheduler c = None"
  "due \<lparr> set_at = t0, every_ms = 60000 \<rparr> k = t0 + int k * 60000"
  by (simp_all add: startCleanupScheduler_def stopCleanupScheduler_def due_def
        cleanup_intervalMs_def split: option.splits)

lemma granted_state_facts:
  "sessions granted_state = [session_1]" "firewall_rules granted_state = [rule_1]"
  "active_bindings granted_state = [binding_1]" "trace granted_state = []"
  "expiredSessions 7200000 granted_state = [(1, ''aa:bb:cc:dd:ee:01'', ''192.168.4.10'')]"
  by (simp_all add: granted_state_def bound_state_def session_state_def empty_state_def
        active_bindings_def binding_1_def expiredSessions_def session_1_def rule_1_def)

section \<open>Claims about session termination and cleanup\<close>

text \<open>
  Claim C2 fails on the code: \<open>disconnectSession\<close> of the session service (the admin
  route \<open>DELETE /sessions/:id\<close>) deactivates the session and its bindings and leaves the
  session's ledger rows active, where \<open>forceDisconnect\<close>, \<open>logoutSession\<close> and both
  cleanups deactivate them. Evaluated on session 1 with one active ledger row:
\<close>

theorem disconnectSession_leaves_rules_active:
  "fst (disconnectSession 1 granted_state) = True \<and>
   sessions (snd (disconnectSession 1 granted_state)) = [session_1\<lparr>s_is_active := False\<rparr>] \<and>
   filter (\<lambda>r. r_session_id r = 1 \<and> r_is_active r)
     (firewall_rules (snd (disconnectSession 1 granted_state))) = [rule_1]"
  by (simp add: disconnectSession_def granted_state_def bound_state_def session_state_def empty_state_def
        session_1_def rule_1_def Let_def)

text \<open>
  Claim C9, as amended. One cleanup cycle of the rule engine calls the revoke path for
  the sessions it selects, in the order selected. Every selected session has an expiry
  instant before the current time and at least one active ledger row; every session with
  an active ledger row whose expiry instant is earlier than the current time minus the
  grace period is selected. Whether the session row itself is ACTIVE plays no part, and
  the cycle leaves the session table as it is. After the cycle the active ledger rows are
  those of before without the rows of the selected sessions; if a session was selected,
  the ACTIVE bindings are those of before without the bindings of the selected sessions
  and without the expired ones, and if none was, the state is unchanged. The enforcer was
  sent, for each selected session in turn, the deletions of its seven iptables and nine
  ebtables commands and then the two commands of the portal redirect for its MAC.
  \<open>startCleanupScheduler\<close> sets a timer of period 60000 ms unless one is running, and
  the \<open>n\<close>-th cycle of the timer set at \<open>t0\<close> is the cycle at \<open>t0 + n * 60000\<close>, run on the
  state the cycle before left. The configured grace period is 5000 ms.
\<close>

theorem cleanup_revokes_expired_sessions_with_rules:
  "(\<forall>i\<in>set (map fst (fst (cleanupExpiredSessions cfg now now2 s))).
      \<exists>r\<in>set (sessions s). s_id r = i \<and> s_expires_at r < now \<and>
         (\<exists>f\<in>set (firewall_rules s). r_session_id f = i \<and> r_is_active f)) \<and>
   (\<forall>r\<in>set (sessions s).
      s_expires_at r < now - cleanup_graceperiodMs \<and>
      (\<exists>f\<in>set (firewall_rules s). r_session_id f = s_id r \<and> r_is_active f) \<longrightarrow>
      s_id r \<in> set (map fst (fst (cleanupExpiredSessions cfg now now2 s)))) \<and>
   map fst (fst (cleanupExpiredSessions cfg now now2 s)) = map fst (expiredSessions now s) \<and>
   sessions (snd (cleanupExpiredSessions cfg now now2 s)) = sessions s \<and>
   filter r_is_active (firewall_rules (snd (cleanupExpiredSessions cfg now now2 s))) =
     filter (\<lambda>r. r_is_active r \<and>
                 r_session_id r \<notin> set (map fst (fst (cleanupExpiredSessions cfg now now2 s))))
       (firewall_rules s) \<and>
   (map fst (fst (cleanupExpiredSessions cfg now now2 s)) = [] \<longrightarrow>
      snd (cleanupExpiredSessions cfg now now2 s) = s) \<and>
   (map fst (fst (cleanupExpiredSessions cfg now now2 s)) \<noteq> [] \<longrightarrow>
      active_bindings (snd (cleanupExpiredSessions cfg now now2 s)) =
        filter (\<lambda>b. b_session_id b \<notin>
                      Some ` set (map fst (fst (cleanupExpiredSessions cfg now now2 s))) \<and>
                    \<not> (case b_expires_at b of None \<Rightarrow> False | Some e \<Rightarrow> e < now2))
          (active_bindings s)) \<and>
   trace (snd (cleanupExpiredSessions cfg now now2 s)) = trace s @
     concat (map (\<lambda>(sid, m, ip).
       map (\<lambda>(d, c). EnforcerCommand (''iptables '' @ c))
         (removal_plan [generateAllowRule cfg m ip, generateBindingRule cfg m ip,
                        generateDnsAllowRule cfg m]) @
       map (\<lambda>(d, c). EnforcerCommand (''ebtables '' @ c))
         (removal_plan [generateMacIpBindingRule cfg m ip,
                        generateArpProtectionRule (gateway cfg) (gateway_mac cfg) m ip]) @
       map (\<lambda>(d, c). EnforcerCommand (''iptables '' @ c))
         (plan [generatePortalRedirectRule cfg m])) (expiredSessions now s)) \<and>
   startCleanupScheduler t0 None = Some \<lparr> set_at = t0, every_ms = 60000 \<rparr> \<and>
   startCleanupScheduler t1 (Some tm) = Some tm \<and>
   scheduled_cycles cfg (startCleanupScheduler t0 None) (Suc n) s0 =
     snd (cleanupExpiredSessions cfg (t0 + int (Suc n) * 60000) (t0 + int (Suc n) * 60000)
            (scheduled_cycles cfg (startCleanupScheduler t0 None) n s0)) \<and>
   cleanup_intervalMs = 60000 \<and> cleanup_graceperiodMs = 5000"
proof -
  have ids: "set (map fst (fst (cleanupExpiredSessions cfg now now2 s))) =
     s_id ` {r \<in> set (sessions s). s_expires_at r < now \<and>
               (\<exists>f\<in>set (firewall_rules s). r_session_id f = s_id r \<and> r_is_active f)}"
    by (simp only: cleanupExpiredSessions_ids expiredSessions_ids)
  have sel: "(\<forall>i\<in>set (map fst (fst (cleanupExpiredSessions cfg now now2 s))).
      \<exists>r\<in>set (sessions s). s_id r = i \<and> s_expires_at r < now \<and>
         (\<exists>f\<in>set (firewall_rules s). r_session_id f = i \<and> r_is_active f)) \<and>
   (\<forall>r\<in>set (sessions s).
      s_expires_at r < now - cleanup_graceperiodMs \<and>
      (\<exists>f\<in>set (firewall_rules s). r_session_id f = s_id r \<and> r_is_active f) \<longrightarrow>
      s_id r \<in> set (map fst (fst (cleanupExpiredSessions cfg now now2 s))))"
    unfolding ids by (auto simp: cleanup_graceperiodMs_def)
  have sch: "scheduled_cycles cfg (startCleanupScheduler t0 None) (Suc n) s0 =
     snd (cleanupExpiredSessions cfg (t0 + int (Suc n) * 60000) (t0 + int (Suc n) * 60000)
            (scheduled_cycles cfg (startCleanupScheduler t0 None) n s0))"
    by (simp only: scheduler_facts(1) scheduled_cycles.simps scheduler_facts(4))
  have cst: "cleanup_intervalMs = 60000 \<and> cleanup_graceperiodMs = 5000"
    by (simp add: cleanup_graceperiodMs_def cleanup_intervalMs_def)
  show ?thesis
    using sel[THEN conjunct1] sel[THEN conjunct2] cleanupExpiredSessions_ids[of cfg now now2 s]
      cleanup_cycle_effects[of cfg now now2 s] scheduler_facts(1)[of t0]
      scheduler_facts(2)[of t1 tm] sch cst[THEN conjunct1] cst[THEN conjunct2]
    apply -
    apply (intro conjI; assumption)
    done
qed

text \<open>
  C9, witness: session 1 expired at 3600000, has an active ledger row and an ACTIVE
  binding; the cycle at 7200000 revokes it, which leaves no active ledger row and no
  ACTIVE binding, and sends eighteen commands to the enforcer.
\<close>

theorem cleanup_revokes_expired_sessions_with_rules_witness:
  "s_expires_at session_1 < 7200000 - cleanup_graceperiodMs \<and>
   session_1 \<in> set (sessions granted_state) \<and>
   rule_1 \<in> set (firewall_rules granted_state) \<and>
   r_session_id rule_1 = s_id session_1 \<and> r_is_active rule_1 \<and>
   active_bindings granted_state = [binding_1] \<and>
   map fst (fst (cleanupExpiredSessions simulation_config 7200000 7200000 granted_state)) = [1] \<and>
   filter r_is_active (firewall_rules
     (snd (cleanupExpiredSessions simulation_config 7200000 7200000 granted_state))) = [] \<and>
   active_bindings
     (snd (cleanupExpiredSessions simulation_config 7200000 7200000 granted_state)) = [] \<and>
   length (trace
     (snd (cleanupExpiredSessions simulation_config 7200000 7200000 granted_state))) = 18"
proof -
  have a: "s_expires_at session_1 < 7200000 - cleanup_graceperiodMs"
    by (simp add: session_1_def cleanup_graceperiodMs_def)
  have b: "session_1 \<in> set (sessions granted_state)"
    "rule_1 \<in> set (firewall_rules granted_state)"
    by (simp_all add: granted_state_facts)
  have c: "r_session_id rule_1 = s_id session_1" "r_is_active rule_1"
    "b_session_id binding_1 = Some 1"
    by (simp_all add: rule_1_def session_1_def binding_1_def)
  note t = cleanup_revokes_expired_sessions_with_rules[of simulation_config 7200000 7200000
            granted_state]
  have ids: "map fst (fst (cleanupExpiredSessions simulation_config 7200000 7200000
               granted_state)) = [1]"
    using t by (simp add: granted_state_facts)
  have r: "filter r_is_active (firewall_rules
     (snd (cleanupExpiredSessions simulation_config 7200000 7200000 granted_state))) = []"
    using t by (simp add: ids granted_state_facts c)
  have bd: "active_bindings
     (snd (cleanupExpiredSessions simulation_config 7200000 7200000 granted_state)) = []"
    using t by (simp add: ids granted_state_facts c)
  have tr: "length (trace
     (snd (cleanupExpiredSessions simulation_config 7200000 7200000 granted_state))) = 18"
    using t by (simp add: granted_state_facts removal_plan_def plan_def generateAllowRule_def
         generateBindingRule_def generateDnsAllowRule_def generateMacIpBindingRule_def
         generateArpProtectionRule_def generatePortalRedirectRule_def)
  show ?thesis using a b c ids r bd tr granted_state_facts(3) by blast
qed

text \<open>
  C9, counterexample to the claim as stated: session 1 is ACTIVE and expired long before
  the grace period, but it has no active ledger row, and the cycle revokes nothing.
\<close>

theorem cleanup_active_session_counterexample:
  "sessions session_state = [session_1] \<and> s_is_active session_1 \<and>
   s_expires_at session_1 < 7200000 - cleanup_graceperiodMs \<and>
   cleanupExpiredSessions simulation_config 7200000 7200000 session_state = ([], session_state)"
  by (simp add: cleanupExpiredSessions_def expiredSessions_def session_state_def empty_state_def
        session_1_def cleanup_graceperiodMs_def)

section \<open>Sessions per MAC and credential\<close>

text \<open>Operations that only end sessions keep both session invariants.\<close>

lemma only_ends_refl: "only_ends xs xs"
  by (simp add: only_ends_def list_all2_same)

lemma only_ends_trans: "only_ends xs ys \<Longrightarrow> only_ends ys zs \<Longrightarrow> only_ends xs zs"
  unfolding only_ends_def by (auto simp: list_all2_conv_all_nth)

lemma only_ends_map:
  assumes "\<And>x. x \<in> set xs \<Longrightarrow> s_mac_address (g x) = s_mac_address x \<and>
             s_voucher_id (g x) = s_voucher_id x \<and> s_user_id (g x) = s_user_id x \<and>
             (s_is_active (g x) \<longrightarrow> s_is_active x)"
  shows "only_ends xs (map g xs)"
  using assms by (simp add: only_ends_def list_all2_map2 list_all2_same)

lemma only_ends_append:
  "only_ends xs ys \<Longrightarrow> only_ends (xs @ [x]) (ys @ [x])"
  by (simp add: only_ends_def list_all2_appendI)

lemma distinct_after_ends:
  assumes "list_all2 (\<lambda>x y. f y = f x \<and> (P y \<longrightarrow> P x)) xs ys"
      and "distinct (map f (filter P xs))"
  shows "distinct (map f (filter P ys))"
  using assms
proof (induction xs ys rule: list_all2_induct)
  case Nil
  then show ?case by simp
next
  case (Cons x xs y ys)
  have sub: "f ` {y \<in> set ys. P y} \<subseteq> f ` {x \<in> set xs. P x}"
  proof
    fix k assume "k \<in> f ` {y \<in> set ys. P y}"
    then obtain y' where y': "y' \<in> set ys" "P y'" "k = f y'" by auto
    from y'(1) obtain i where i: "i < length ys" "ys ! i = y'" by (auto simp: in_set_conv_nth)
    from Cons.hyps(2) i have "i < length xs" "f y' = f (xs ! i)" "P y' \<longrightarrow> P (xs ! i)"
      by (auto simp: list_all2_conv_all_nth)
    then have "xs ! i \<in> set xs" "f y' = f (xs ! i)" "P y' \<longrightarrow> P (xs ! i)" by simp_all
    then show "k \<in> f ` {x \<in> set xs. P x}" using y' by blast
  qed
  from Cons show ?case using sub by (auto split: if_splits)
qed

lemma only_ends_per_credential:
  assumes "only_ends (sessions s) (sessions s')" and "one_active_session_per_credential s"
  shows "one_active_session_per_credential s'"
proof -
  have 1: "list_all2 (\<lambda>x y. (s_mac_address y, s_voucher_id y) = (s_mac_address x, s_voucher_id x) \<and>
             (s_is_active y \<and> s_voucher_id y \<noteq> None \<longrightarrow> s_is_active x \<and> s_voucher_id x \<noteq> None))
           (sessions s) (sessions s')"
    using assms(1) unfolding only_ends_def by (rule list_all2_mono) auto
  have 2: "list_all2 (\<lambda>x y. (s_mac_address y, s_user_id y) = (s_mac_address x, s_user_id x) \<and>
             (s_is_active y \<and> s_user_id y \<noteq> None \<longrightarrow> s_is_active x \<and> s_user_id x \<noteq> None))
           (sessions s) (sessions s')"
    using assms(1) unfolding only_ends_def by (rule list_all2_mono) auto
  show ?thesis
    using assms(2) distinct_after_ends[OF 1] distinct_after_ends[OF 2]
    by (simp add: one_active_session_per_credential_def)
qed

lemma only_ends_per_mac:
  assumes "only_ends (sessions s) (sessions s')" and "one_active_session_per_mac s"
  shows "one_active_session_per_mac s'"
proof -
  have 1: "list_all2 (\<lambda>x y. s_mac_address y = s_mac_address x \<and> (s_is_active y \<longrightarrow> s_is_active x))
           (sessions s) (sessions s')"
    using assms(1) unfolding only_ends_def by (rule list_all2_mono) auto
  show ?thesis
    using assms(2) distinct_after_ends[OF 1] by (simp add: one_active_session_per_mac_def)
qed

lemma onSessionCreated_ends:
  "only_ends (sessions s) (sessions (snd (onSessionCreated cfg session s)))"
  by (simp add: onSessionCreated_def split_beta only_ends_map)

lemma onSessionEnded_ends:
  "only_ends (sessions s) (sessions (snd (onSessionEnded cfg session s)))"
  by (simp add: onSessionEnded_def split_beta only_ends_map)

lemma create_each_ends: "only_ends (sessions s) (sessions (snd (create_each cfg xs s)))"
proof (induction xs arbitrary: s)
  case Nil
  then show ?case by (simp add: only_ends_refl)
next
  case (Cons x xs)
  show ?case
    using only_ends_trans[OF onSessionCreated_ends[of s cfg x] Cons.IH[of "snd (onSessionCreated cfg x s)"]]
    by (simp add: split_beta)
qed

lemma end_each_ends: "only_ends (sessions s) (sessions (snd (end_each cfg xs s)))"
proof (induction xs arbitrary: s)
  case Nil
  then show ?case by (simp add: only_ends_refl)
next
  case (Cons x xs)
  show ?case
    using only_ends_trans[OF onSessionEnded_ends[of s cfg x] Cons.IH[of "snd (onSessionEnded cfg x s)"]]
    by (simp add: split_beta)
qed

lemma createSessionWithFirewall_ends:
  "only_ends (sessions s) (sessions (snd (createSessionWithFirewall cfg sid s)))"
  by (simp add: createSessionWithFirewall_def split_beta only_ends_refl onSessionCreated_ends
           split: option.splits)

lemma refreshSessionRules_ends:
  "only_ends (sessions s) (sessions (snd (refreshSessionRules cfg now sid s)))"
  by (simp add: refreshSessionRules_def split_beta only_ends_refl onSessionCreated_ends
           onSessionEnded_ends split: option.splits)

lemma refreshAllSessionRules_ends:
  "only_ends (sessions s) (sessions (snd (refreshAllSessionRules cfg now s)))"
  by (simp add: refreshAllSessionRules_def create_each_ends)

lemma logoutSession_ends:
  "only_ends (sessions s) (sessions (snd (logoutSession cfg sid s)))"
  by (simp add: logoutSession_def split_beta only_ends_refl onSessionEnded_ends
           split: option.splits)

lemma logoutDevice_ends:
  "only_ends (sessions s) (sessions (snd (logoutDevice cfg m s)))"
  by (simp add: logoutDevice_def end_each_ends)

lemma forceDisconnect_ends:
  "only_ends (sessions s) (sessions (snd (forceDisconnect cfg sid a r s)))"
proof (cases "find (\<lambda>r. s_id r = sid) (sessions s)")
  case None
  then show ?thesis by (simp add: forceDisconnect_def only_ends_refl)
next
  case (Some session)
  show ?thesis
    using onSessionEnded_ends[of "logEvent ''ADMIN'' ''FORCE_DISCONNECT''
            (Some (s_mac_address session)) None None (Some sid)
            [(''adminId'', a), (''reason'', r)] ''WARNING'' s" cfg session] Some
    by (simp add: forceDisconnect_def split_beta Let_def)
qed

lemma validateSession_ends:
  "only_ends (sessions s) (sessions (snd (validateSession now decoded s)))"
  by (simp add: validateSession_def only_ends_refl only_ends_map split: option.splits)

lemma endSession_ends:
  "only_ends (sessions s) (sessions (endSession cfg sid s))"
  using logoutSession_ends[of s cfg sid] by (simp add: endSession_def split_beta)

lemma disconnectSession_ends:
  "only_ends (sessions s) (sessions (snd (disconnectSession sid s)))"
  by (simp add: disconnectSession_def Let_def only_ends_refl only_ends_map split: option.splits)

lemma extendSession_ends:
  "only_ends (sessions s) (sessions (snd (extendSession sid h s)))"
  by (simp add: extendSession_def Let_def only_ends_refl only_ends_map split: option.splits)

lemma blockDevice_ends:
  "only_ends (sessions s) (sessions (snd (blockDevice m r s)))"
  by (simp add: blockDevice_def Let_def only_ends_refl only_ends_map split: option.splits)

lemma db_cleanupExpiredSessions_ends:
  "only_ends (sessions s) (sessions (snd (db_cleanupExpiredSessions now s)))"
  by (simp add: db_cleanupExpiredSessions_def Let_def only_ends_map)

lemma per_credential_keys:
  "one_active_session_per_credential s \<longleftrightarrow>
     distinct (map (\<lambda>(m, v, u, a). (m, v))
                (filter (\<lambda>(m, v, u, a). a \<and> v \<noteq> None) (map session_key (sessions s)))) \<and>
     distinct (map (\<lambda>(m, v, u, a). (m, u))
                (filter (\<lambda>(m, v, u, a). a \<and> u \<noteq> None) (map session_key (sessions s))))"
  by (simp add: one_active_session_per_credential_def filter_map comp_def session_key_def)

lemma per_mac_keys:
  "one_active_session_per_mac s \<longleftrightarrow>
     distinct (map (\<lambda>(m, v, u, a). m)
                (filter (\<lambda>(m, v, u, a). a) (map session_key (sessions s))))"
  by (simp add: one_active_session_per_mac_def filter_map comp_def session_key_def)

lemma onSessionCreated_keys:
  "map session_key (sessions (snd (onSessionCreated cfg session s))) = map session_key (sessions s)"
  by (simp add: onSessionCreated_def split_beta session_key_def)

lemma getOrCreateDevice_sessions [simp]:
  "sessions (snd (getOrCreateDevice m s)) = sessions s"
  by (simp add: getOrCreateDevice_def Let_def split: option.splits)

lemma authFailure_sessions [simp]: "sessions (authFailure m ip r s) = sessions s"
  by (simp add: authFailure_def)

lemma authSuccess_sessions [simp]: "sessions (authSuccess m ip me u s) = sessions s"
  by (simp add: authSuccess_def)

lemma createSession_keys:
  "map session_key (sessions (snd (createSession cfg now tok uid vid did m ip am h s))) =
     (if session_insertable s tok (or_null_nat uid) (or_null_nat vid) did
      then map session_key (sessions s) @ [(m, or_null_nat vid, or_null_nat uid, True)]
      else map session_key (sessions s))"
proof (cases "session_insertable s tok (or_null_nat uid) (or_null_nat vid) did")
  case False
  then show ?thesis by (simp add: createSession_def)
next
  case True
  define ex where "ex = now + h * 60 * 60 * 1000"
  define sid where "sid = Suc (seq_sessions s)"
  define new where "new = \<lparr> s_id = sid, s_session_token = tok,
       s_user_id = or_null_nat uid, s_voucher_id = or_null_nat vid,
       s_device_id = did, s_mac_address = m, s_ip_address = ip, s_auth_method = am,
       s_expires_at = ex, s_is_active = True, s_firewall_applied = False \<rparr>"
  define s1 where "s1 = s\<lparr>sessions := sessions s @ [new], seq_sessions := sid\<rparr>"
  define s2 where "s2 = insert_or_replace_binding m ip (Some sid) (Some ex) s1"
  define s3 where "s3 = s2\<lparr>devices := map (\<lambda>d. if d_id d = did
                          then d\<lparr>d_total_sessions := Suc (d_total_sessions d)\<rparr> else d) (devices s2)\<rparr>"
  define s4 where "s4 = logEvent ''SESSION'' ''SESSION_CREATED'' (Some m) (Some ip) None
                   (Some sid) [] ''INFO'' s3"
  have ses4: "sessions s4 = sessions s @ [new]"
    by (simp add: s4_def s3_def s2_def s1_def insert_or_replace_binding_def)
  have "snd (createSession cfg now tok uid vid did m ip am h s) =
          (case find (\<lambda>r. s_id r = sid) (sessions s4) of None \<Rightarrow> s4
           | Some session \<Rightarrow> snd (onSessionCreated cfg session s4))"
    unfolding createSession_def s4_def s3_def s2_def s1_def new_def sid_def ex_def Let_def
    by (simp only: True not_True_eq_False if_False snd_conv)
  then have "map session_key (sessions (snd (createSession cfg now tok uid vid did m ip am h s))) =
             map session_key (sessions s4)"
    by (simp add: onSessionCreated_keys split: option.splits)
  then show ?thesis using True by (simp add: ses4 session_key_def new_def)
qed


lemma authenticateWithVoucher_sessions:
  "sessions (snd (authenticateWithVoucher cfg now tok code mac ip s)) = sessions s \<or>
   (\<exists>v d h. find (\<lambda>r. s_voucher_id r = Some v \<and> s_mac_address r = normalizeMacAddress mac \<and>
                       s_is_active r) (sessions s) = None \<and>
      sessions (snd (authenticateWithVoucher cfg now tok code mac ip s)) =
      sessions (snd (createSession cfg now tok None (Some v) d (normalizeMacAddress mac) ip
                       ''voucher'' h (snd (getOrCreateDevice (normalizeMacAddress mac) s)))))"
  unfolding authenticateWithVoucher_def authenticateWithVoucher_begin_def
            authenticateWithVoucher_resume_def Let_def
  by (auto simp: split_beta split: option.splits prod.splits)

lemma authenticateWithCredentials_sessions:
  "sessions (snd (authenticateWithCredentials cfg now tok username password mac ip s)) = sessions s \<or>
   (\<exists>u d h. find (\<lambda>r. s_user_id r = Some u \<and> s_mac_address r = normalizeMacAddress mac \<and>
                       s_is_active r) (sessions s) = None \<and>
      sessions (snd (authenticateWithCredentials cfg now tok username password mac ip s)) =
      sessions (snd (createSession cfg now tok (Some u) None d (normalizeMacAddress mac) ip
                       ''user'' h (snd (getOrCreateDevice (normalizeMacAddress mac) s)))))"
  unfolding authenticateWithCredentials_def Let_def
  by (auto simp: split_beta split: option.splits prod.splits)

text \<open>A login in simulation mode, and the invariant when operations run one at a time.\<close>

lemma createBinding_created:
  "normalizeMac mac = Str nm \<Longrightarrow> session_exists s i \<Longrightarrow>
   fst (createBinding mac ip (Some i) ex s) \<noteq> CreateFailed"
  by (simp add: createBinding_def Let_def split: option.splits)

lemma grant_succeeds_in_simulation:
  assumes "isSimulationMode cfg" and "normalizeMac (Some m) = Str nm" and "session_exists s sid"
  shows "success (fst (grantClientAccess cfg sid m ip am ex s))"
proof -
  have nt: "normalizeMac (Some m) \<noteq> TypeError" using assms(2) by simp
  show ?thesis
    using grantClientAccess_steps[OF nt, of cfg sid ip am ex s]
          createBinding_created[OF assms(2,3), of ip ex]
    by (simp add: grantClientAccess_result removePortalRedirect_def applyAuthenticatedRules_def
          applyClientIsolation_def apply_each_result[OF assms(1)] execute_each_result[OF assms(1)])
qed

lemma createSession_in_simulation:
  assumes sim: "isSimulationMode cfg"
      and tok: "session_insertable s tok (or_null_nat uid) (or_null_nat vid) did"
      and ids: "\<forall>r\<in>set (sessions s). s_id r \<le> seq_sessions s"
  shows "fst (createSession cfg now tok uid vid did (normalizeMacAddress x) ip am h s) =
           Some (Suc (seq_sessions s), now + h * 60 * 60 * 1000)"
    and "sessions (snd (createSession cfg now tok uid vid did (normalizeMacAddress x) ip am h s)) =
           sessions s @
           [\<lparr> s_id = Suc (seq_sessions s), s_session_token = tok,
              s_user_id = or_null_nat uid, s_voucher_id = or_null_nat vid,
              s_device_id = did, s_mac_address = normalizeMacAddress x, s_ip_address = ip,
              s_auth_method = am, s_expires_at = now + h * 60 * 60 * 1000, s_is_active = True,
              s_firewall_applied = True \<rparr>]"
proof -
  define m where "m = normalizeMacAddress x"
  define ex where "ex = now + h * 60 * 60 * 1000"
  define sid where "sid = Suc (seq_sessions s)"
  define new where "new = \<lparr> s_id = sid, s_session_token = tok,
       s_user_id = or_null_nat uid, s_voucher_id = or_null_nat vid,
       s_device_id = did, s_mac_address = m, s_ip_address = ip, s_auth_method = am,
       s_expires_at = ex, s_is_active = True, s_firewall_applied = False \<rparr>"
  define s1 where "s1 = s\<lparr>sessions := sessions s @ [new], seq_sessions := sid\<rparr>"
  define s2 where "s2 = insert_or_replace_binding m ip (Some sid) (Some ex) s1"
  define s3 where "s3 = s2\<lparr>devices := map (\<lambda>d. if d_id d = did
                          then d\<lparr>d_total_sessions := Suc (d_total_sessions d)\<rparr> else d) (devices s2)\<rparr>"
  define s4 where "s4 = logEvent ''SESSION'' ''SESSION_CREATED'' (Some m) (Some ip) None
                   (Some sid) [] ''INFO'' s3"
  have ses4: "sessions s4 = sessions s @ [new]"
    by (simp add: s4_def s3_def s2_def s1_def insert_or_replace_binding_def)
  have found: "find (\<lambda>r. s_id r = sid) (sessions s4) = Some new"
    unfolding ses4 sid_def by (rule find_new_session[OF ids]) (simp add: new_def sid_def)
  have cs: "createSession cfg now tok uid vid did m ip am h s =
          (Some (sid, ex),
           case find (\<lambda>r. s_id r = sid) (sessions s4) of None \<Rightarrow> s4
           | Some session \<Rightarrow> snd (onSessionCreated cfg session s4))"
    unfolding createSession_def s4_def s3_def s2_def s1_def new_def sid_def ex_def Let_def
    by (simp only: tok not_True_eq_False if_False)
  have ex4: "session_exists s4 sid" by (simp add: session_exists_def ses4 new_def)
  have ok: "success (fst (grantClientAccess cfg sid m ip am (Some ex) s4))"
    using grant_succeeds_in_simulation[OF sim _ ex4] normalizeMac_normalizeMacAddress[of x]
    by (simp add: m_def)
  have old: "map (\<lambda>r. if s_id r = sid then r\<lparr>s_firewall_applied := b\<rparr> else r) (sessions s) =
             sessions s" for b
    using ids by (intro map_idI) (auto simp: sid_def)
  have "sessions (snd (onSessionCreated cfg new s4)) =
          sessions s @ [new\<lparr>s_firewall_applied := True\<rparr>]"
    using ok old by (simp add: onSessionCreated_def split_beta ses4 new_def)
  then show "fst (createSession cfg now tok uid vid did (normalizeMacAddress x) ip am h s) =
           Some (Suc (seq_sessions s), now + h * 60 * 60 * 1000)"
    and "sessions (snd (createSession cfg now tok uid vid did (normalizeMacAddress x) ip am h s)) =
           sessions s @
           [\<lparr> s_id = Suc (seq_sessions s), s_session_token = tok,
              s_user_id = or_null_nat uid, s_voucher_id = or_null_nat vid,
              s_device_id = did, s_mac_address = normalizeMacAddress x, s_ip_address = ip,
              s_auth_method = am, s_expires_at = now + h * 60 * 60 * 1000, s_is_active = True,
              s_firewall_applied = True \<rparr>]"
    using cs found by (simp_all add: m_def sid_def ex_def new_def)
qed

lemma getOrCreateDevice_seq [simp]:
  "seq_sessions (snd (getOrCreateDevice m s)) = seq_sessions s"
  by (simp add: getOrCreateDevice_def Let_def split: option.splits)


lemma find_Some_set: "find P xs = Some x \<Longrightarrow> x \<in> set xs"
  by (induction xs) (auto split: if_splits)

lemma getOrCreateDevice_device:
  assumes "getOrCreateDevice m s = (device, s1)"
  shows "device_exists s1 (d_id device)" and "vouchers s1 = vouchers s" and "users s1 = users s"
  using assms
  by (auto simp: getOrCreateDevice_def Let_def device_exists_def
           split: option.splits dest: find_Some_set)

lemma voucher_login_opens_session:
  assumes sim: "isSimulationMode cfg"
      and v: "find (\<lambda>v. toUpperCase code = Some (v_code v) \<and> v_is_active v) (vouchers s) = Some voucher"
      and ne: "v_expires_at voucher = None"
      and nouse: "filter (\<lambda>r. s_voucher_id r = Some (v_id voucher) \<and> s_is_active r) (sessions s) = []"
      and max: "0 < v_max_devices voucher"
      and dev: "getOrCreateDevice (normalizeMacAddress mac) s = (device, s1)"
      and nb: "\<not> d_is_blocked device"
      and tok: "tok \<notin> set (map s_session_token (sessions s))"
      and ids: "\<forall>r\<in>set (sessions s). s_id r \<le> seq_sessions s"
      and vid: "v_id voucher \<noteq> 0"
  shows "fst (authenticateWithVoucher cfg now tok code mac ip s) =
           Authenticated (Suc (seq_sessions s)) (now + v_duration_hours voucher * 60 * 60 * 1000)"
    and "sessions (snd (authenticateWithVoucher cfg now tok code mac ip s)) =
           sessions s @
           [\<lparr> s_id = Suc (seq_sessions s), s_session_token = tok,
              s_user_id = None, s_voucher_id = Some (v_id voucher),
              s_device_id = d_id device, s_mac_address = normalizeMacAddress mac,
              s_ip_address = ip, s_auth_method = ''voucher'',
              s_expires_at = now + v_duration_hours voucher * 60 * 60 * 1000,
              s_is_active = True, s_firewall_applied = True \<rparr>]"
proof -
  have s1: "sessions s1 = sessions s" "seq_sessions s1 = seq_sessions s"
    using dev getOrCreateDevice_sessions[of "normalizeMacAddress mac" s]
          getOrCreateDevice_seq[of "normalizeMacAddress mac" s] by simp_all
  have none: "find (\<lambda>r. s_voucher_id r = Some (v_id voucher) \<and>
                        s_mac_address r = normalizeMacAddress mac \<and> s_is_active r) (sessions s) = None"
    using nouse by (auto simp: find_None_iff filter_empty_conv)
  obtain res s2 where c: "createSession cfg now tok None (Some (v_id voucher)) (d_id device)
        (normalizeMacAddress mac) ip ''voucher'' (v_duration_hours voucher) s1 = (res, s2)"
    by (cases "createSession cfg now tok None (Some (v_id voucher)) (d_id device)
        (normalizeMacAddress mac) ip ''voucher'' (v_duration_hours voucher) s1")
  have "voucher \<in> set (vouchers s1)"
    using find_Some_set[OF v] getOrCreateDevice_device(2)[OF dev] by simp
  then have tok1: "session_insertable s1 tok (or_null_nat None)
                     (or_null_nat (Some (v_id voucher))) (d_id device)"
    using tok s1 getOrCreateDevice_device(1)[OF dev]
    by (simp add: session_insertable_def or_null_nat_def voucher_exists_def)
  have ids1: "\<forall>r\<in>set (sessions s1). s_id r \<le> seq_sessions s1" using ids s1 by simp
  have res: "res = Some (Suc (seq_sessions s), now + v_duration_hours voucher * 60 * 60 * 1000)"
    using createSession_in_simulation(1)[OF sim tok1 ids1, of now mac ip "''voucher''"
            "v_duration_hours voucher"] c s1
    by simp
  have ses2: "sessions s2 = sessions s @
           [\<lparr> s_id = Suc (seq_sessions s), s_session_token = tok,
              s_user_id = None, s_voucher_id = Some (v_id voucher),
              s_device_id = d_id device, s_mac_address = normalizeMacAddress mac,
              s_ip_address = ip, s_auth_method = ''voucher'',
              s_expires_at = now + v_duration_hours voucher * 60 * 60 * 1000,
              s_is_active = True, s_firewall_applied = True \<rparr>]"
    using createSession_in_simulation(2)[OF sim tok1 ids1, of now mac ip "''voucher''"
            "v_duration_hours voucher"] c s1 vid
    by (simp add: or_null_nat_def)
  show "fst (authenticateWithVoucher cfg now tok code mac ip s) =
           Authenticated (Suc (seq_sessions s)) (now + v_duration_hours voucher * 60 * 60 * 1000)"
    using v ne nouse none max dev nb c res
    by (simp add: authenticateWithVoucher_def authenticateWithVoucher_begin_def
          authenticateWithVoucher_resume_def Let_def)
  show "sessions (snd (authenticateWithVoucher cfg now tok code mac ip s)) =
           sessions s @
           [\<lparr> s_id = Suc (seq_sessions s), s_session_token = tok,
              s_user_id = None, s_voucher_id = Some (v_id voucher),
              s_device_id = d_id device, s_mac_address = normalizeMacAddress mac,
              s_ip_address = ip, s_auth_method = ''voucher'',
              s_expires_at = now + v_duration_hours voucher * 60 * 60 * 1000,
              s_is_active = True, s_firewall_applied = True \<rparr>]"
    using v ne nouse none max dev nb c res ses2
    by (simp add: authenticateWithVoucher_def authenticateWithVoucher_begin_def
          authenticateWithVoucher_resume_def Let_def)
qed

lemma append_per_credential:
  assumes "one_active_session_per_credential s"
      and "map session_key (sessions s') = map session_key (sessions s) @ [(m, v, u, True)]"
      and "v = None \<or> find (\<lambda>r. s_voucher_id r = v \<and> s_mac_address r = m \<and> s_is_active r)
                         (sessions s) = None"
      and "u = None \<or> find (\<lambda>r. s_user_id r = u \<and> s_mac_address r = m \<and> s_is_active r)
                         (sessions s) = None"
  shows "one_active_session_per_credential s'"
proof -
  define ks where "ks = map session_key (sessions s)"
  have v: "v \<noteq> None \<Longrightarrow>
           (m, v) \<notin> set (map (\<lambda>(m, v, u, a). (m, v)) (filter (\<lambda>(m, v, u, a). a \<and> v \<noteq> None) ks))"
    using assms(3) by (auto simp: find_None_iff session_key_def ks_def)
  have u: "u \<noteq> None \<Longrightarrow>
           (m, u) \<notin> set (map (\<lambda>(m, v, u, a). (m, u)) (filter (\<lambda>(m, v, u, a). a \<and> u \<noteq> None) ks))"
    using assms(4) by (auto simp: find_None_iff session_key_def ks_def)
  have inv: "distinct (map (\<lambda>(m, v, u, a). (m, v)) (filter (\<lambda>(m, v, u, a). a \<and> v \<noteq> None) ks))"
            "distinct (map (\<lambda>(m, v, u, a). (m, u)) (filter (\<lambda>(m, v, u, a). a \<and> u \<noteq> None) ks))"
    using assms(1) by (simp_all add: per_credential_keys ks_def)
  have 1: "distinct (map (\<lambda>(m, v, u, a). (m, v))
             (filter (\<lambda>(m, v, u, a). a \<and> v \<noteq> None) (ks @ [(m, v, u, True)])))"
    using inv(1) v by (cases "v = None") simp_all
  have 2: "distinct (map (\<lambda>(m, v, u, a). (m, u))
             (filter (\<lambda>(m, v, u, a). a \<and> u \<noteq> None) (ks @ [(m, v, u, True)])))"
    using inv(2) u by (cases "u = None") simp_all
  show ?thesis
    unfolding per_credential_keys[of s'] assms(2) using 1 2 by (simp only: ks_def)
qed

lemma same_sessions_per_credential:
  "sessions s' = sessions s \<Longrightarrow> one_active_session_per_credential s \<Longrightarrow>
   one_active_session_per_credential s'"
  by (simp add: one_active_session_per_credential_def)

lemma same_keys_per_credential:
  "map session_key (sessions s') = map session_key (sessions s) \<Longrightarrow>
   one_active_session_per_credential s \<Longrightarrow> one_active_session_per_credential s'"
  by (simp add: per_credential_keys)

lemma voucher_login_per_credential:
  assumes "one_active_session_per_credential s"
  shows "one_active_session_per_credential (snd (authenticateWithVoucher cfg now tok code mac ip s))"
  using authenticateWithVoucher_sessions[of cfg now tok code mac ip s]
proof (elim disjE exE conjE)
  assume "sessions (snd (authenticateWithVoucher cfg now tok code mac ip s)) = sessions s"
  then show ?thesis using assms by (rule same_sessions_per_credential)
next
  fix v d h
  let ?s1 = "snd (getOrCreateDevice (normalizeMacAddress mac) s)"
  let ?c = "snd (createSession cfg now tok None (Some v) d (normalizeMacAddress mac) ip
                   ''voucher'' h ?s1)"
  assume none: "find (\<lambda>r. s_voucher_id r = Some v \<and> s_mac_address r = normalizeMacAddress mac \<and>
                          s_is_active r) (sessions s) = None"
     and eq: "sessions (snd (authenticateWithVoucher cfg now tok code mac ip s)) = sessions ?c"
  have inv1: "one_active_session_per_credential ?s1"
    using assms by (simp add: one_active_session_per_credential_def)
  have "one_active_session_per_credential ?c"
  proof (cases "session_insertable ?s1 tok (or_null_nat None) (or_null_nat (Some v)) d")
    case False
    then show ?thesis using inv1 by (simp add: createSession_def)
  next
    case True
    then have keys: "map session_key (sessions ?c) =
        map session_key (sessions ?s1) @ [(normalizeMacAddress mac, or_null_nat (Some v), None, True)]"
      by (simp add: createSession_keys or_null_nat_def)
    show ?thesis
      using none by (intro append_per_credential[OF inv1 keys]) (simp_all add: or_null_nat_def)
  qed
  then show ?thesis using eq by (simp add: one_active_session_per_credential_def)
qed

lemma credentials_login_per_credential:
  assumes "one_active_session_per_credential s"
  shows "one_active_session_per_credential
           (snd (authenticateWithCredentials cfg now tok username password mac ip s))"
  using authenticateWithCredentials_sessions[of cfg now tok username password mac ip s]
proof (elim disjE exE conjE)
  assume "sessions (snd (authenticateWithCredentials cfg now tok username password mac ip s)) =
          sessions s"
  then show ?thesis using assms by (rule same_sessions_per_credential)
next
  fix u d h
  let ?s1 = "snd (getOrCreateDevice (normalizeMacAddress mac) s)"
  let ?c = "snd (createSession cfg now tok (Some u) None d (normalizeMacAddress mac) ip
                   ''user'' h ?s1)"
  assume none: "find (\<lambda>r. s_user_id r = Some u \<and> s_mac_address r = normalizeMacAddress mac \<and>
                          s_is_active r) (sessions s) = None"
     and eq: "sessions (snd (authenticateWithCredentials cfg now tok username password mac ip s)) =
              sessions ?c"
  have inv1: "one_active_session_per_credential ?s1"
    using assms by (simp add: one_active_session_per_credential_def)
  have "one_active_session_per_credential ?c"
  proof (cases "session_insertable ?s1 tok (or_null_nat (Some u)) (or_null_nat None) d")
    case False
    then show ?thesis using inv1 by (simp add: createSession_def)
  next
    case True
    then have keys: "map session_key (sessions ?c) =
        map session_key (sessions ?s1) @ [(normalizeMacAddress mac, None, or_null_nat (Some u), True)]"
      by (simp add: createSession_keys or_null_nat_def)
    show ?thesis
      using none by (intro append_per_credential[OF inv1 keys]) (simp_all add: or_null_nat_def)
  qed
  then show ?thesis using eq by (simp add: one_active_session_per_credential_def)
qed

lemma serially_reachable_per_credential:
  "serially_reachable cfg s \<Longrightarrow> one_active_session_per_credential s"
proof (induction rule: serially_reachable.induct)
  case (initial s)
  then show ?case by (simp add: one_active_session_per_credential_def)
next
  case (voucher_login s now sessionToken code macAddress ipAddress)
  then show ?case by (simp add: voucher_login_per_credential)
next
  case (credentials_login s now sessionToken username password macAddress ipAddress)
  then show ?case by (simp add: credentials_login_per_credential)
next
  case (firewall_for_session s sessionId)
  then show ?case using only_ends_per_credential[OF createSessionWithFirewall_ends] by blast
next
  case (refresh s now sessionId)
  then show ?case using only_ends_per_credential[OF refreshSessionRules_ends] by blast
next
  case (refresh_all s now)
  then show ?case using only_ends_per_credential[OF refreshAllSessionRules_ends] by blast
next
  case (logout s sessionId)
  then show ?case using only_ends_per_credential[OF logoutSession_ends] by blast
next
  case (logout_device s macAddress)
  then show ?case using only_ends_per_credential[OF logoutDevice_ends] by blast
next
  case (force_disconnect s sessionId adminId reason)
  then show ?case using only_ends_per_credential[OF forceDisconnect_ends] by blast
next
  case (validate s now decoded)
  then show ?case using only_ends_per_credential[OF validateSession_ends] by blast
next
  case (end_session s sessionId)
  then show ?case using only_ends_per_credential[OF endSession_ends] by blast
next
  case (disconnect s sessionId)
  then show ?case using only_ends_per_credential[OF disconnectSession_ends] by blast
next
  case (extend s sessionId additionalHours)
  then show ?case using only_ends_per_credential[OF extendSession_ends] by blast
next
  case (block s macAddress reason)
  then show ?case using only_ends_per_credential[OF blockDevice_ends] by blast
next
  case (cleanup s now)
  then show ?case using only_ends_per_credential[OF db_cleanupExpiredSessions_ends] by blast
next
  case (other s s')
  then show ?case by (simp add: same_sessions_per_credential)
qed

lemma login_examples:
  "toUpperCase ''wifi0001'' = Some ''WIFI0001''" "toUpperCase ''wifi0002'' = Some ''WIFI0002''"
  "normalizeMacAddress (Some ''AA-BB-CC-DD-EE-01'') = ''aa:bb:cc:dd:ee:01''"
  by code_simp+

lemma simulation_config_simulates: "isSimulationMode simulation_config"
  by (simp add: isSimulationMode_def simulation_config_def)

lemma first_login:
  "sessions (snd (authenticateWithVoucher simulation_config 0 ''token-1'' ''wifi0001''
              (Some ''AA-BB-CC-DD-EE-01'') ''192.168.4.10'' vouchers_state)) =
   [session_1\<lparr>s_firewall_applied := True\<rparr>]"
proof -
  have dev: "getOrCreateDevice (normalizeMacAddress (Some ''AA-BB-CC-DD-EE-01'')) vouchers_state =
          (\<lparr> d_id = 1, d_mac_address = ''aa:bb:cc:dd:ee:01'', d_is_blocked = False,
             d_total_sessions = 0 \<rparr>,
           vouchers_state\<lparr>devices := [\<lparr> d_id = 1, d_mac_address = ''aa:bb:cc:dd:ee:01'',
                                          d_is_blocked = False, d_total_sessions = 0 \<rparr>],
                           seq_devices := 1\<rparr>)"
    by (simp add: getOrCreateDevice_def Let_def login_examples vouchers_state_def empty_state_def)
  have v: "find (\<lambda>v. toUpperCase ''wifi0001'' = Some (v_code v) \<and> v_is_active v) (vouchers vouchers_state) =
           Some voucher_1"
    by (simp add: login_examples vouchers_state_def empty_state_def voucher_1_def
          del: toUpperCase.simps)
  show ?thesis
    using voucher_login_opens_session(2)[OF simulation_config_simulates v _ _ _ dev,
            of "''token-1''" 0 "''192.168.4.10''"]
    by (simp add: voucher_1_def vouchers_state_def empty_state_def session_1_def login_examples)
qed

lemma one_session_state_reachable: "serially_reachable simulation_config one_session_state"
proof -
  have "serially_reachable simulation_config vouchers_state"
    by (rule serially_reachable.initial) (simp add: vouchers_state_def empty_state_def)
  then have "serially_reachable simulation_config
               (snd (authenticateWithVoucher simulation_config 0 ''token-1'' ''wifi0001''
                       (Some ''AA-BB-CC-DD-EE-01'') ''192.168.4.10'' vouchers_state))"
    by (rule serially_reachable.voucher_login)
  then show ?thesis
    by (rule serially_reachable.other) (simp add: first_login one_session_state_def session_state_def empty_state_def)
qed

lemma second_login:
  "fst (authenticateWithVoucher simulation_config 1000 ''token-2'' ''wifi0002''
          (Some ''aa:bb:cc:dd:ee:01'') ''192.168.4.10'' one_session_state) =
     Authenticated 2 3601000"
  "sessions (snd (authenticateWithVoucher simulation_config 1000 ''token-2'' ''wifi0002''
          (Some ''aa:bb:cc:dd:ee:01'') ''192.168.4.10'' one_session_state)) =
     [session_1\<lparr>s_firewall_applied := True\<rparr>,
      \<lparr> s_id = 2, s_session_token = ''token-2'', s_user_id = None, s_voucher_id = Some 2,
        s_device_id = 1, s_mac_address = ''aa:bb:cc:dd:ee:01'', s_ip_address = ''192.168.4.10'',
        s_auth_method = ''voucher'', s_expires_at = 3601000, s_is_active = True,
        s_firewall_applied = True \<rparr>]"
proof -
  have dev: "getOrCreateDevice (normalizeMacAddress (Some ''aa:bb:cc:dd:ee:01'')) one_session_state =
          (device_1, one_session_state)"
    by (simp add: getOrCreateDevice_def normalizeMacAddress_example one_session_state_def session_state_def
          empty_state_def device_1_def)
  have v: "find (\<lambda>v. toUpperCase ''wifi0002'' = Some (v_code v) \<and> v_is_active v)
             (vouchers one_session_state) = Some voucher_2"
    by (simp add: login_examples one_session_state_def session_state_def empty_state_def
          voucher_1_def voucher_2_def del: toUpperCase.simps)
  note login = voucher_login_opens_session[OF simulation_config_simulates v _ _ _ dev,
            of "''token-2''" 1000 "''192.168.4.10''"]
  show "fst (authenticateWithVoucher simulation_config 1000 ''token-2'' ''wifi0002''
          (Some ''aa:bb:cc:dd:ee:01'') ''192.168.4.10'' one_session_state) =
     Authenticated 2 3601000"
    using login(1)
    by (simp add: voucher_2_def one_session_state_def session_state_def empty_state_def session_1_def device_1_def)
  show "sessions (snd (authenticateWithVoucher simulation_config 1000 ''token-2'' ''wifi0002''
          (Some ''aa:bb:cc:dd:ee:01'') ''192.168.4.10'' one_session_state)) =
     [session_1\<lparr>s_firewall_applied := True\<rparr>,
      \<lparr> s_id = 2, s_session_token = ''token-2'', s_user_id = None, s_voucher_id = Some 2,
        s_device_id = 1, s_mac_address = ''aa:bb:cc:dd:ee:01'', s_ip_address = ''192.168.4.10'',
        s_auth_method = ''voucher'', s_expires_at = 3601000, s_is_active = True,
        s_firewall_applied = True \<rparr>]"
    using login(2)
    by (simp add: voucher_2_def one_session_state_def session_state_def empty_state_def session_1_def device_1_def
          normalizeMacAddress_example)
qed

lemma resumed_login_inserts_nothing:
  "sessions (snd (authenticateWithVoucher_resume cfg now tok mac ip
                    (Awaiting voucher (Some existing) device) s)) = sessions s"
  by (simp add: authenticateWithVoucher_resume_def Let_def)

text \<open>
  A login that is resumed. The vouchers, the devices and the session counter are not
  written by a grant.
\<close>

lemma executeCommand_others [simp]:
  "vouchers (snd (executeCommand cfg tool c d s)) = vouchers s"
  "devices (snd (executeCommand cfg tool c d s)) = devices s"
  "seq_sessions (snd (executeCommand cfg tool c d s)) = seq_sessions s"
  by (simp_all add: executeCommand_def Let_def)

lemma storeRule_others [simp]:
  "vouchers (storeRule cfg t a c m i sid s) = vouchers s"
  "devices (storeRule cfg t a c m i sid s) = devices s"
  "seq_sessions (storeRule cfg t a c m i sid s) = seq_sessions s"
  by (simp_all add: storeRule_def)

lemma execute_each_others [simp]:
  "vouchers (snd (execute_each cfg tool cs s)) = vouchers s"
  "devices (snd (execute_each cfg tool cs s)) = devices s"
  "seq_sessions (snd (execute_each cfg tool cs s)) = seq_sessions s"
  by (induction cs arbitrary: s; auto simp: split_beta Let_def)+

lemma apply_each_others [simp]:
  "vouchers (snd (apply_each cfg tool a m i sid cs s)) = vouchers s"
  "devices (snd (apply_each cfg tool a m i sid cs s)) = devices s"
  "seq_sessions (snd (apply_each cfg tool a m i sid cs s)) = seq_sessions s"
  by (induction cs arbitrary: s; auto simp: split_beta Let_def)+

lemma retire_bindings_others [simp]:
  "vouchers (retire_bindings P s) = vouchers s"
  "devices (retire_bindings P s) = devices s"
  "seq_sessions (retire_bindings P s) = seq_sessions s"
  by (simp_all add: retire_bindings_def)

lemma createBinding_others [simp]:
  "vouchers (snd (createBinding mac ip sid ex s)) = vouchers s"
  "devices (snd (createBinding mac ip sid ex s)) = devices s"
  "seq_sessions (snd (createBinding mac ip sid ex s)) = seq_sessions s"
proof -
  have "vouchers (snd (createBinding mac ip sid ex s)) = vouchers s \<and>
        devices (snd (createBinding mac ip sid ex s)) = devices s \<and>
        seq_sessions (snd (createBinding mac ip sid ex s)) = seq_sessions s"
  proof (cases "normalizeMac mac")
    case (Str nm)
    define K1 where "K1 = (\<lambda>b::binding. b_mac_address b = nm \<and> b_is_active b \<and> b_ip_address b \<noteq> ip)"
    define K2 where "K2 = (\<lambda>b::binding. b_ip_address b = ip \<and> b_is_active b \<and> b_mac_address b \<noteq> nm)"
    define s1 where "s1 = (case find K1 (mac_ip_bindings s) of None \<Rightarrow> s
       | Some e \<Rightarrow> retire_bindings (\<lambda>b. b_id b = b_id e)
           (logEvent ''SECURITY'' ''MAC_IP_CHANGE'' (Some nm) None None sid
              [(''oldIp'', b_ip_address e), (''newIp'', ip)] ''WARNING'' s))"
    define s2 where "s2 = (case find K2 (mac_ip_bindings s1) of None \<Rightarrow> s1
       | Some e \<Rightarrow> retire_bindings (\<lambda>b. b_id b = b_id e)
           (logEvent ''SECURITY'' ''IP_CONFLICT'' None (Some ip) None sid
              [(''existingMac'', b_mac_address e), (''newMac'', nm)] ''WARNING'' s1))"
    have fr1: "vouchers s1 = vouchers s" "devices s1 = devices s" "seq_sessions s1 = seq_sessions s"
      by (auto simp: s1_def split: option.splits)
    have fr2: "vouchers s2 = vouchers s" "devices s2 = devices s" "seq_sessions s2 = seq_sessions s"
      using fr1 by (auto simp: s2_def split: option.splits)
    have "snd (createBinding mac ip sid ex s) =
          (if (case sid of None \<Rightarrow> True | Some i \<Rightarrow> session_exists s2 i)
           then insert_or_replace_binding nm ip sid ex s2 else s2)"
      unfolding createBinding_def Str s2_def s1_def K1_def K2_def by (simp add: Let_def)
    then show ?thesis using fr2 by (simp add: insert_or_replace_binding_def)
  qed (simp_all add: createBinding_def)
  then show "vouchers (snd (createBinding mac ip sid ex s)) = vouchers s"
    "devices (snd (createBinding mac ip sid ex s)) = devices s"
    "seq_sessions (snd (createBinding mac ip sid ex s)) = seq_sessions s"
    by simp_all
qed

lemma grantClientAccess_others [simp]:
  "vouchers (snd (grantClientAccess cfg sid m ip am ex s)) = vouchers s"
  "devices (snd (grantClientAccess cfg sid m ip am ex s)) = devices s"
  "seq_sessions (snd (grantClientAccess cfg sid m ip am ex s)) = seq_sessions s"
proof -
  obtain outcome s1 where p: "createBinding (Some m) ip (Some sid) ex s = (outcome, s1)"
    by (cases "createBinding (Some m) ip (Some sid) ex s")
  then have "vouchers s1 = vouchers s" "devices s1 = devices s" "seq_sessions s1 = seq_sessions s"
    using createBinding_others[of "Some m" ip "Some sid" ex s] by simp_all
  then have "vouchers (snd (grantClientAccess cfg sid m ip am ex s)) = vouchers s \<and>
    devices (snd (grantClientAccess cfg sid m ip am ex s)) = devices s \<and>
    seq_sessions (snd (grantClientAccess cfg sid m ip am ex s)) = seq_sessions s"
    using p
    by (cases outcome)
       (simp_all add: grantClientAccess_def removePortalRedirect_def applyAuthenticatedRules_def
          applyClientIsolation_def split_beta Let_def)
  then show "vouchers (snd (grantClientAccess cfg sid m ip am ex s)) = vouchers s"
    "devices (snd (grantClientAccess cfg sid m ip am ex s)) = devices s"
    "seq_sessions (snd (grantClientAccess cfg sid m ip am ex s)) = seq_sessions s"
    by simp_all
qed

lemma createSession_others:
  assumes "session_insertable s tok (or_null_nat uid) (or_null_nat vid) did"
  shows "vouchers (snd (createSession cfg now tok uid vid did m ip am h s)) = vouchers s"
    and "map d_id (devices (snd (createSession cfg now tok uid vid did m ip am h s))) =
         map d_id (devices s)"
    and "seq_sessions (snd (createSession cfg now tok uid vid did m ip am h s)) =
         Suc (seq_sessions s)"
  using assms
  by (simp_all add: createSession_def Let_def onSessionCreated_def split_beta
        insert_or_replace_binding_def o_def if_distrib cong: if_cong split: option.splits)

lemma resumed_login_opens_session:
  assumes sim: "isSimulationMode cfg"
      and ins: "session_insertable s tok None (Some (v_id voucher)) (d_id device)"
      and ids: "\<forall>r\<in>set (sessions s). s_id r \<le> seq_sessions s"
      and nb: "\<not> d_is_blocked device"
      and vid: "v_id voucher \<noteq> 0"
  shows "fst (authenticateWithVoucher_resume cfg now tok mac ip (Awaiting voucher None device) s) =
           Authenticated (Suc (seq_sessions s)) (now + v_duration_hours voucher * 60 * 60 * 1000)"
    and "sessions (snd (authenticateWithVoucher_resume cfg now tok mac ip
                          (Awaiting voucher None device) s)) =
           sessions s @
           [\<lparr> s_id = Suc (seq_sessions s), s_session_token = tok,
              s_user_id = None, s_voucher_id = Some (v_id voucher),
              s_device_id = d_id device, s_mac_address = normalizeMacAddress mac,
              s_ip_address = ip, s_auth_method = ''voucher'',
              s_expires_at = now + v_duration_hours voucher * 60 * 60 * 1000,
              s_is_active = True, s_firewall_applied = True \<rparr>]"
    and "map v_id (vouchers (snd (authenticateWithVoucher_resume cfg now tok mac ip
                          (Awaiting voucher None device) s))) = map v_id (vouchers s)"
    and "map d_id (devices (snd (authenticateWithVoucher_resume cfg now tok mac ip
                          (Awaiting voucher None device) s))) = map d_id (devices s)"
    and "seq_sessions (snd (authenticateWithVoucher_resume cfg now tok mac ip
                          (Awaiting voucher None device) s)) = Suc (seq_sessions s)"
proof -
  obtain res s2 where c: "createSession cfg now tok None (Some (v_id voucher)) (d_id device)
        (normalizeMacAddress mac) ip ''voucher'' (v_duration_hours voucher) s = (res, s2)"
    by (cases "createSession cfg now tok None (Some (v_id voucher)) (d_id device)
        (normalizeMacAddress mac) ip ''voucher'' (v_duration_hours voucher) s")
  have tok1: "session_insertable s tok (or_null_nat None)
                     (or_null_nat (Some (v_id voucher))) (d_id device)"
    using ins vid by (simp add: or_null_nat_def)
  have res: "res = Some (Suc (seq_sessions s), now + v_duration_hours voucher * 60 * 60 * 1000)"
    using createSession_in_simulation(1)[OF sim tok1 ids, of now mac ip "''voucher''"
            "v_duration_hours voucher"] c
    by simp
  have ses2: "sessions s2 = sessions s @
           [\<lparr> s_id = Suc (seq_sessions s), s_session_token = tok,
              s_user_id = None, s_voucher_id = Some (v_id voucher),
              s_device_id = d_id device, s_mac_address = normalizeMacAddress mac,
              s_ip_address = ip, s_auth_method = ''voucher'',
              s_expires_at = now + v_duration_hours voucher * 60 * 60 * 1000,
              s_is_active = True, s_firewall_applied = True \<rparr>]"
    using createSession_in_simulation(2)[OF sim tok1 ids, of now mac ip "''voucher''"
            "v_duration_hours voucher"] c vid
    by (simp add: or_null_nat_def)
  have oth: "vouchers s2 = vouchers s" "map d_id (devices s2) = map d_id (devices s)"
    "seq_sessions s2 = Suc (seq_sessions s)"
    using createSession_others[OF tok1, of cfg now "normalizeMacAddress mac" ip "''voucher''"
            "v_duration_hours voucher"] c
    by simp_all
  show "fst (authenticateWithVoucher_resume cfg now tok mac ip (Awaiting voucher None device) s) =
           Authenticated (Suc (seq_sessions s)) (now + v_duration_hours voucher * 60 * 60 * 1000)"
    using nb c res by (simp add: authenticateWithVoucher_resume_def Let_def)
  show "sessions (snd (authenticateWithVoucher_resume cfg now tok mac ip
                          (Awaiting voucher None device) s)) =
           sessions s @
           [\<lparr> s_id = Suc (seq_sessions s), s_session_token = tok,
              s_user_id = None, s_voucher_id = Some (v_id voucher),
              s_device_id = d_id device, s_mac_address = normalizeMacAddress mac,
              s_ip_address = ip, s_auth_method = ''voucher'',
              s_expires_at = now + v_duration_hours voucher * 60 * 60 * 1000,
              s_is_active = True, s_firewall_applied = True \<rparr>]"
    using nb c res ses2 by (simp add: authenticateWithVoucher_resume_def Let_def authSuccess_def)
  show "map v_id (vouchers (snd (authenticateWithVoucher_resume cfg now tok mac ip
                          (Awaiting voucher None device) s))) = map v_id (vouchers s)"
    using nb c res oth(1)
    by (simp add: authenticateWithVoucher_resume_def Let_def authSuccess_def o_def if_distrib
          cong: if_cong)
  show "map d_id (devices (snd (authenticateWithVoucher_resume cfg now tok mac ip
                          (Awaiting voucher None device) s))) = map d_id (devices s)"
    using nb c res oth(2) by (simp add: authenticateWithVoucher_resume_def Let_def authSuccess_def)
  show "seq_sessions (snd (authenticateWithVoucher_resume cfg now tok mac ip
                          (Awaiting voucher None device) s)) = Suc (seq_sessions s)"
    using nb c res oth(3) by (simp add: authenticateWithVoucher_resume_def Let_def authSuccess_def)
qed

text \<open>
  Two voucher logins of one MAC with one voucher, interleaved at the \<open>await\<close>: both run
  their existing-session check before either inserts, both are resumed with "no existing
  session", and both insert. The two sessions are ACTIVE for the same MAC and the same
  voucher (of \<open>max_devices\<close> 1). The invariant of the serial runs does not hold here.
\<close>

lemma interleaved_voucher_logins:
  "(let (first, s1) = authenticateWithVoucher_begin 0 ''wifi0001''
                        (Some ''AA-BB-CC-DD-EE-01'') ''192.168.4.10'' vouchers_state;
        (second, s2) = authenticateWithVoucher_begin 1000 ''wifi0001''
                        (Some ''AA-BB-CC-DD-EE-01'') ''192.168.4.10'' s1;
        (first_result, s3) = authenticateWithVoucher_resume simulation_config 0 ''token-1''
                        (Some ''AA-BB-CC-DD-EE-01'') ''192.168.4.10'' first s2;
        (second_result, s4) = authenticateWithVoucher_resume simulation_config 1000 ''token-2''
                        (Some ''AA-BB-CC-DD-EE-01'') ''192.168.4.10'' second s3
    in first_result = Authenticated 1 3600000 \<and> second_result = Authenticated 2 3601000 \<and>
       map (\<lambda>r. (s_id r, s_mac_address r, s_voucher_id r, s_is_active r)) (sessions s4) =
         [(1, ''aa:bb:cc:dd:ee:01'', Some 1, True), (2, ''aa:bb:cc:dd:ee:01'', Some 1, True)] \<and>
       \<not> one_active_session_per_credential s4)"
proof -
  define dev where "dev = \<lparr> d_id = 1, d_mac_address = ''aa:bb:cc:dd:ee:01'',
                            d_is_blocked = False, d_total_sessions = 0 \<rparr>"
  define sd where "sd = vouchers_state\<lparr>devices := [dev], seq_devices := 1\<rparr>"
  have b1: "authenticateWithVoucher_begin 0 ''wifi0001'' (Some ''AA-BB-CC-DD-EE-01'')
              ''192.168.4.10'' vouchers_state = (Awaiting voucher_1 None dev, sd)"
    by (simp add: authenticateWithVoucher_begin_def getOrCreateDevice_def Let_def login_examples
          vouchers_state_def empty_state_def voucher_1_def dev_def sd_def
          del: toUpperCase.simps)
  have b2: "authenticateWithVoucher_begin 1000 ''wifi0001'' (Some ''AA-BB-CC-DD-EE-01'')
              ''192.168.4.10'' sd = (Awaiting voucher_1 None dev, sd)"
    by (simp add: authenticateWithVoucher_begin_def getOrCreateDevice_def Let_def login_examples
          vouchers_state_def empty_state_def voucher_1_def dev_def sd_def
          del: toUpperCase.simps)
  define s3 where "s3 = snd (authenticateWithVoucher_resume simulation_config 0 ''token-1''
                        (Some ''AA-BB-CC-DD-EE-01'') ''192.168.4.10'' (Awaiting voucher_1 None dev) sd)"
  define s4 where "s4 = snd (authenticateWithVoucher_resume simulation_config 1000 ''token-2''
                        (Some ''AA-BB-CC-DD-EE-01'') ''192.168.4.10'' (Awaiting voucher_1 None dev) s3)"
  have f: "v_id voucher_1 = 1" "d_id dev = 1" "\<not> d_is_blocked dev" "v_duration_hours voucher_1 = 1"
    by (simp_all add: voucher_1_def dev_def)
  have i1: "session_insertable sd ''token-1'' None (Some (v_id voucher_1)) (d_id dev)"
    by (simp add: session_insertable_def voucher_exists_def device_exists_def sd_def
          vouchers_state_def empty_state_def voucher_1_def voucher_2_def dev_def)
  have ids1: "\<forall>r\<in>set (sessions sd). s_id r \<le> seq_sessions sd"
    by (simp add: sd_def vouchers_state_def empty_state_def)
  note r1 = resumed_login_opens_session[OF simulation_config_simulates i1 ids1 f(3), of 0
              "Some ''AA-BB-CC-DD-EE-01''" "''192.168.4.10''", folded s3_def]
  have sd0: "sessions sd = []" "seq_sessions sd = 0" "map v_id (vouchers sd) = [1, 2]"
    "map d_id (devices sd) = [1]"
    by (simp_all add: sd_def vouchers_state_def empty_state_def voucher_1_def voucher_2_def dev_def)
  have ses3: "sessions s3 =
           [\<lparr> s_id = 1, s_session_token = ''token-1'', s_user_id = None, s_voucher_id = Some 1,
              s_device_id = 1, s_mac_address = ''aa:bb:cc:dd:ee:01'',
              s_ip_address = ''192.168.4.10'', s_auth_method = ''voucher'',
              s_expires_at = 3600000, s_is_active = True, s_firewall_applied = True \<rparr>]"
    using r1(2) by (simp add: f sd0 login_examples)
  have res1: "fst (authenticateWithVoucher_resume simulation_config 0 ''token-1''
                        (Some ''AA-BB-CC-DD-EE-01'') ''192.168.4.10'' (Awaiting voucher_1 None dev) sd) =
              Authenticated 1 3600000"
    using r1(1) by (simp add: f sd0)
  have o3: "map v_id (vouchers s3) = [1, 2]" "map d_id (devices s3) = [1]" "seq_sessions s3 = 1"
    using r1(3,4,5) by (simp_all add: f sd0)
  have i2: "session_insertable s3 ''token-2'' None (Some (v_id voucher_1)) (d_id dev)"
    by (simp add: session_insertable_def voucher_exists_def device_exists_def ses3 o3 f)
  have ids3: "\<forall>r\<in>set (sessions s3). s_id r \<le> seq_sessions s3"
    by (simp add: ses3 o3)
  note r2 = resumed_login_opens_session[OF simulation_config_simulates i2 ids3 f(3), of 1000
              "Some ''AA-BB-CC-DD-EE-01''" "''192.168.4.10''", folded s4_def]
  have ses4: "map (\<lambda>r. (s_id r, s_mac_address r, s_voucher_id r, s_is_active r)) (sessions s4) =
         [(1, ''aa:bb:cc:dd:ee:01'', Some 1, True), (2, ''aa:bb:cc:dd:ee:01'', Some 1, True)]"
    using r2(2) by (simp add: f ses3 o3 login_examples)
  have res2: "fst (authenticateWithVoucher_resume simulation_config 1000 ''token-2''
                        (Some ''AA-BB-CC-DD-EE-01'') ''192.168.4.10'' (Awaiting voucher_1 None dev) s3) =
              Authenticated 2 3601000"
    using r2(1) by (simp add: f o3)
  have bad: "\<not> one_active_session_per_credential s4"
    using r2(2) by (simp add: one_active_session_per_credential_def f ses3 o3 login_examples)
  show ?thesis
    using res1 res2 ses4 bad
    by (simp add: b1 b2 split_beta s3_def s4_def)
qed

text \<open>
  Claim C1, as amended. At every state reached by running the operations one at a time,
  for every MAC address and every voucher, and for every MAC address and every user
  account, at most one session row is ACTIVE, and a login (\<open>authenticateWithVoucher\<close>
  or \<open>authenticateWithCredentials\<close>) that runs from such a state with nothing in between
  its existing-session check and its insert leaves it so: a login for a MAC that already
  has an ACTIVE session under that voucher or account never leaves two ACTIVE sessions
  for that MAC and that voucher or account. A voucher login that found such a session at
  its check inserts no row, whatever the state it is resumed on.
\<close>

theorem one_active_session_per_mac_and_credential:
  assumes "serially_reachable cfg s"
  shows "one_active_session_per_credential s \<and>
         one_active_session_per_credential
           (snd (authenticateWithVoucher cfg now tok code mac ip s)) \<and>
         one_active_session_per_credential
           (snd (authenticateWithCredentials cfg now tok username password mac ip s)) \<and>
         sessions (snd (authenticateWithVoucher_resume cfg now tok mac ip
                          (Awaiting voucher (Some existing) device) s')) = sessions s'"
  using serially_reachable_per_credential[OF assms]
  by (simp add: voucher_login_per_credential credentials_login_per_credential
        resumed_login_inserts_nothing)

text \<open>C1, witness: the state after the first voucher login, and a second login from it.\<close>

theorem one_active_session_per_mac_and_credential_witness:
  "serially_reachable simulation_config one_session_state \<and>
   one_active_session_per_credential one_session_state \<and>
   one_active_session_per_credential
     (snd (authenticateWithVoucher simulation_config 1000 ''token-2'' ''wifi0002''
             (Some ''aa:bb:cc:dd:ee:01'') ''192.168.4.10'' one_session_state))"
  using one_active_session_per_mac_and_credential[OF one_session_state_reachable,
          of 1000 "''token-2''" "''wifi0002''" "Some ''aa:bb:cc:dd:ee:01''" "''192.168.4.10''"]
        one_session_state_reachable
  by simp

text \<open>
  C1, counterexample to the claim as stated: the MAC has one ACTIVE session, opened with
  the first voucher; a login of the same MAC with the second voucher succeeds and opens
  session 2, and both sessions of the MAC are ACTIVE.
\<close>

theorem second_voucher_counterexample:
  "serially_reachable simulation_config one_session_state \<and>
   one_active_session_per_mac one_session_state \<and>
   fst (authenticateWithVoucher simulation_config 1000 ''token-2'' ''wifi0002''
          (Some ''aa:bb:cc:dd:ee:01'') ''192.168.4.10'' one_session_state) =
     Authenticated 2 3601000 \<and>
   map (\<lambda>r. (s_id r, s_mac_address r, s_is_active r))
     (sessions (snd (authenticateWithVoucher simulation_config 1000 ''token-2'' ''wifi0002''
          (Some ''aa:bb:cc:dd:ee:01'') ''192.168.4.10'' one_session_state))) =
     [(1, ''aa:bb:cc:dd:ee:01'', True), (2, ''aa:bb:cc:dd:ee:01'', True)] \<and>
   \<not> one_active_session_per_mac
       (snd (authenticateWithVoucher simulation_config 1000 ''token-2'' ''wifi0002''
          (Some ''aa:bb:cc:dd:ee:01'') ''192.168.4.10'' one_session_state))"
  using one_session_state_reachable second_login
  by (simp add: one_active_session_per_mac_def one_session_state_def session_state_def empty_state_def
        session_1_def)

end
